theory Spec2Isabelle
  imports
    Complex_Main
    "HOL-Library.Sublist"
    "HOL-Library.Char_ord"
    "HOL-Library.List_Lexorder"
    "HOL-Library.Log_Nat"
begin

chapter \<open>rindechile/analysis: progress stores, work-set resolution, retry and classification\<close>

text \<open>
  A shallow embedding of the TypeScript sources:
  \<^item> the scraper utilities, \<^verbatim>\<open>scraper-utils.ts\<close> (the version with the permanent registry
    and the cache of processed codes, \<^verbatim>\<open>src/unnamed/part_001\<close>);
  \<^item> the session scraper, \<^verbatim>\<open>scrape-documents.ts\<close> (the second program in
    \<^verbatim>\<open>src/docs/scraper-single.ts\<close>: \<^verbatim>\<open>processCode\<close>, and of \<^verbatim>\<open>main\<close> the choice of the work set
    and the job it runs for each code), and the format check of the single-code scraper
    (the first program of that file);
  \<^item> the batch data manager, \<^verbatim>\<open>data-manager.ts\<close> (\<^verbatim>\<open>src/unnamed/part_002\<close>);
  \<^item> the extraction comparison, \<^verbatim>\<open>src/scripts/gemini-processor.ts\<close>;
  \<^item> the batch orchestrator, \<^verbatim>\<open>src/scripts/process-batch.ts\<close>.

  Conventions of the embedding.
  \<^item> A mutated object is passed in and returned updated.
  \<^item> \<^verbatim>\<open>new Date().toISOString()\<close> is the parameter \<open>now\<close> of the function that reads the clock.
  \<^item> A thrown exception, or the rejection of a promise, is the \<open>Inl\<close> branch of a sum; a
    function with a plain result type lets nothing escape (it has no throwing path, or
    it catches what is thrown).
  \<^item> What the outside world answers (the browser, the inference service, the file system)
    is a parameter of the function that asks. Writing and removing files succeed.
  \<^item> A string is a list of characters with codes below 256; field names of different
    interfaces that coincide in the source carry a prefix, since record fields share one
    name space.
  \<^item> A value read from one of the JSON store files has the TypeScript type the source
    gives it. What the inference service answers is taken as it comes: a JSON value.
  \<^item> A number is an IEEE double, with the arithmetic of doubles. The counters of the
    stores, which the program increments and sets to list lengths, are natural numbers.
\<close>

section \<open>Persisted JSON files\<close>

text \<open>
  What a loader can find on disk: no file (\<^verbatim>\<open>existsSync\<close> is false), a file on whose content
  \<^verbatim>\<open>JSON.parse\<close> throws, or a file that holds the text \<^verbatim>\<open>JSON.stringify\<close> writes for a
  value of the store's type.
\<close>

datatype 'a stored_file = Absent | Unparsable | Holds 'a

datatype js_error = SyntaxError | Error string

datatype log_line = Warn string | Info string | Err string

section \<open>Scraper utilities: the permanent registry\<close>

record ScrapedCodesRegistry =
  reg_codes :: "string list"
  reg_lastUpdated :: string
  reg_totalCount :: nat

definition emptyRegistry :: "string \<Rightarrow> ScrapedCodesRegistry" where
  "emptyRegistry now = \<lparr>reg_codes = [], reg_lastUpdated = now, reg_totalCount = 0\<rparr>"

definition loadScrapedCodesRegistry ::
  "string \<Rightarrow> ScrapedCodesRegistry stored_file \<Rightarrow> log_line list \<times> ScrapedCodesRegistry" where
  "loadScrapedCodesRegistry now file =
     (case file of
        Absent \<Rightarrow> ([], emptyRegistry now)
      | Holds registry \<Rightarrow> ([], registry)
      | Unparsable \<Rightarrow> ([Warn ''Failed to load scraped codes registry''], emptyRegistry now))"

definition saveScrapedCodesRegistry ::
  "string \<Rightarrow> ScrapedCodesRegistry \<Rightarrow> ScrapedCodesRegistry \<times> ScrapedCodesRegistry stored_file" where
  "saveScrapedCodesRegistry now registry =
     (let registry' = registry\<lparr>reg_lastUpdated := now, reg_totalCount := length (reg_codes registry)\<rparr>
      in (registry', Holds registry'))"

definition addToScrapedRegistry :: "string \<Rightarrow> ScrapedCodesRegistry \<Rightarrow> string \<Rightarrow> ScrapedCodesRegistry" where
  "addToScrapedRegistry now registry code =
     (if code \<notin> set (reg_codes registry)
      then registry\<lparr>reg_codes := reg_codes registry @ [code],
                     reg_totalCount := length (reg_codes registry @ [code]),
                     reg_lastUpdated := now\<rparr>
      else registry)"

definition isAlreadyScraped :: "ScrapedCodesRegistry \<Rightarrow> string \<Rightarrow> bool" where
  "isAlreadyScraped registry code = (code \<in> set (reg_codes registry))"

definition getNewCodesToScrape :: "string list \<Rightarrow> ScrapedCodesRegistry \<Rightarrow> string list" where
  "getNewCodesToScrape allCodes registry =
     (let scrapedSet = set (reg_codes registry)
      in filter (\<lambda>code. code \<notin> scrapedSet) allCodes)"

section \<open>Scraper utilities: the session checkpoint\<close>

record FailedEntry =
  fe_code :: string
  fe_error :: string
  fe_timestamp :: string
  fe_attempts :: nat

text \<open>
  \<open>processedCodesSet\<close> is the runtime cache \<^verbatim>\<open>_processedCodesSet\<close>: \<open>None\<close> while it has not
  been built.
\<close>

record Checkpoint =
  processedCodes :: "string list"
  failedCodes :: "FailedEntry list"
  lastProcessedTimestamp :: string
  totalProcessed :: nat
  totalFailed :: nat
  processedCodesSet :: "string set option"

definition emptyCheckpoint :: "string \<Rightarrow> Checkpoint" where
  "emptyCheckpoint now =
     \<lparr>processedCodes = [], failedCodes = [], lastProcessedTimestamp = now,
      totalProcessed = 0, totalFailed = 0, processedCodesSet = None\<rparr>"

definition loadCheckpoint :: "string \<Rightarrow> Checkpoint stored_file \<Rightarrow> log_line list \<times> Checkpoint" where
  "loadCheckpoint now file =
     (case file of
        Absent \<Rightarrow> ([], emptyCheckpoint now)
      | Holds checkpoint \<Rightarrow> ([], checkpoint)
      | Unparsable \<Rightarrow> ([Warn ''Failed to load checkpoint, starting fresh''], emptyCheckpoint now))"

text \<open>The cache is left out of what is written.\<close>

definition saveCheckpoint :: "Checkpoint \<Rightarrow> Checkpoint stored_file" where
  "saveCheckpoint checkpoint = Holds (checkpoint\<lparr>processedCodesSet := None\<rparr>)"

text \<open>The cache as the two readers see it: built from \<open>processedCodes\<close> when it is missing.\<close>

definition cacheOf :: "Checkpoint \<Rightarrow> string set" where
  "cacheOf checkpoint =
     (case processedCodesSet checkpoint of
        None \<Rightarrow> set (processedCodes checkpoint)
      | Some cache \<Rightarrow> cache)"

definition markProcessed :: "string \<Rightarrow> Checkpoint \<Rightarrow> string \<Rightarrow> Checkpoint" where
  "markProcessed now checkpoint code =
     (let cache = cacheOf checkpoint
      in if code \<notin> cache
         then checkpoint\<lparr>processedCodes := processedCodes checkpoint @ [code],
                         processedCodesSet := Some (insert code cache),
                         totalProcessed := totalProcessed checkpoint + 1,
                         lastProcessedTimestamp := now\<rparr>
         else checkpoint\<lparr>processedCodesSet := Some cache\<rparr>)"

text \<open>\<^verbatim>\<open>findIndex\<close>: the first index whose entry has the code, \<open>None\<close> for \<^verbatim>\<open>-1\<close>.\<close>

fun findIndex :: "('a \<Rightarrow> bool) \<Rightarrow> 'a list \<Rightarrow> nat option" where
  "findIndex p [] = None"
| "findIndex p (x # xs) =
     (if p x then Some 0 else map_option Suc (findIndex p xs))"

definition markFailed :: "string \<Rightarrow> Checkpoint \<Rightarrow> string \<Rightarrow> string \<Rightarrow> nat \<Rightarrow> Checkpoint" where
  "markFailed now checkpoint code error attempts =
     (case findIndex (\<lambda>f. fe_code f = code) (failedCodes checkpoint) of
        Some existingIndex \<Rightarrow>
          checkpoint\<lparr>failedCodes := (failedCodes checkpoint)[existingIndex :=
            \<lparr>fe_code = code, fe_error = error, fe_timestamp = now,
             fe_attempts = fe_attempts (failedCodes checkpoint ! existingIndex) + attempts\<rparr>]\<rparr>
      | None \<Rightarrow>
          checkpoint\<lparr>failedCodes := failedCodes checkpoint @
            [\<lparr>fe_code = code, fe_error = error, fe_timestamp = now, fe_attempts = attempts\<rparr>],
            totalFailed := totalFailed checkpoint + 1\<rparr>)"

definition isProcessed :: "Checkpoint \<Rightarrow> string \<Rightarrow> bool \<times> Checkpoint" where
  "isProcessed checkpoint code =
     (let cache = cacheOf checkpoint
      in (code \<in> cache, checkpoint\<lparr>processedCodesSet := Some cache\<rparr>))"

definition getRetryableCodes :: "Checkpoint \<Rightarrow> string list" where
  "getRetryableCodes checkpoint =
     map fe_code (filter (\<lambda>f. fe_attempts f < 3) (failedCodes checkpoint))"

definition exponentialBackoff :: "nat \<Rightarrow> nat \<Rightarrow> nat" where
  "exponentialBackoff attempt baseDelayMs = min (baseDelayMs * 2 ^ attempt) 30000"


section \<open>Scraper utilities: validation\<close>

text \<open>
  The fragment of JavaScript regular expressions the validators use: character ranges,
  sequence, alternative and repetition. \<^verbatim>\<open>regex.test\<close> on a pattern anchored with
  \<^verbatim>\<open>^\<close> and \<^verbatim>\<open>$\<close> (no flags) asks whether the whole string matches; the matcher
  below decides that by taking the derivative of the pattern by each character in turn.
\<close>

datatype regex =
    Never
  | Empty
  | Range char char
  | Alt regex regex
  | Seq regex regex
  | Star regex

fun nullable :: "regex \<Rightarrow> bool" where
  "nullable Never = False"
| "nullable Empty = True"
| "nullable (Range lo hi) = False"
| "nullable (Alt r s) = (nullable r \<or> nullable s)"
| "nullable (Seq r s) = (nullable r \<and> nullable s)"
| "nullable (Star r) = True"

fun deriv :: "char \<Rightarrow> regex \<Rightarrow> regex" where
  "deriv c Never = Never"
| "deriv c Empty = Never"
| "deriv c (Range lo hi) = (if lo \<le> c \<and> c \<le> hi then Empty else Never)"
| "deriv c (Alt r s) = Alt (deriv c r) (deriv c s)"
| "deriv c (Seq r s) =
     (if nullable r then Alt (Seq (deriv c r) s) (deriv c s) else Seq (deriv c r) s)"
| "deriv c (Star r) = Seq (deriv c r) (Star r)"

definition regex_test :: "regex \<Rightarrow> string \<Rightarrow> bool" where
  "regex_test r s = nullable (fold deriv s r)"

definition lit :: "char \<Rightarrow> regex" where
  "lit c = Range c c"

text \<open>\<^verbatim>\<open>\d\<close> (without the unicode flag: the ten ASCII digits) and \<^verbatim>\<open>[A-Z]\<close>.\<close>

definition digit :: regex where
  "digit = Range (CHR ''0'') (CHR ''9'')"

definition upper :: regex where
  "upper = Range (CHR ''A'') (CHR ''Z'')"

text \<open>\<^verbatim>\<open>r{n}\<close>, \<^verbatim>\<open>r{0,n}\<close>, \<^verbatim>\<open>r{m,n}\<close> and \<^verbatim>\<open>r+\<close>.\<close>

fun repeatExactly :: "nat \<Rightarrow> regex \<Rightarrow> regex" where
  "repeatExactly 0 r = Empty"
| "repeatExactly (Suc n) r = Seq r (repeatExactly n r)"

fun repeatUpTo :: "nat \<Rightarrow> regex \<Rightarrow> regex" where
  "repeatUpTo 0 r = Empty"
| "repeatUpTo (Suc n) r = Alt Empty (Seq r (repeatUpTo n r))"

definition repeatBetween :: "nat \<Rightarrow> nat \<Rightarrow> regex \<Rightarrow> regex" where
  "repeatBetween m n r = Seq (repeatExactly m r) (repeatUpTo (n - m) r)"

definition oneOrMore :: "regex \<Rightarrow> regex" where
  "oneOrMore r = Seq r (Star r)"

text \<open>\<^verbatim>\<open>/^\d{3,7}-\d{1,4}-[A-Z]{2}25$/\<close>\<close>

definition codeRegex :: regex where
  "codeRegex =
     Seq (repeatBetween 3 7 digit) (Seq (lit (CHR ''-''))
    (Seq (repeatBetween 1 4 digit) (Seq (lit (CHR ''-''))
    (Seq (repeatExactly 2 upper) (Seq (lit (CHR ''2'')) (lit (CHR ''5'')))))))"

definition isValidCode :: "string \<Rightarrow> bool" where
  "isValidCode code = regex_test codeRegex code"

text \<open>
  The format check of the single-code scraper's entry point,
  \<^verbatim>\<open>code.match(/^\d+-\d+-[A-Z]{2}\d{2}$/)\<close>: digits, a hyphen, digits, a hyphen, two
  upper-case letters, two digits.
\<close>

definition basicFormatRegex :: regex where
  "basicFormatRegex =
     Seq (oneOrMore digit) (Seq (lit (CHR ''-''))
    (Seq (oneOrMore digit) (Seq (lit (CHR ''-''))
    (Seq (repeatExactly 2 upper) (repeatExactly 2 digit)))))"

definition matchesBasicFormat :: "string \<Rightarrow> bool" where
  "matchesBasicFormat code = regex_test basicFormatRegex code"

text \<open>
  The meaning of a pattern as a set of strings, against which the matcher is proved
  correct below.
\<close>

inductive_set star :: "string set \<Rightarrow> string set" for A :: "string set" where
  star_empty: "[] \<in> star A"
| star_more: "u \<in> A \<Longrightarrow> v \<in> star A \<Longrightarrow> u @ v \<in> star A"

definition conc :: "string set \<Rightarrow> string set \<Rightarrow> string set" where
  "conc A B = {u @ v | u v. u \<in> A \<and> v \<in> B}"

fun lang :: "regex \<Rightarrow> string set" where
  "lang Never = {}"
| "lang Empty = {[]}"
| "lang (Range lo hi) = {[c] | c. lo \<le> c \<and> c \<le> hi}"
| "lang (Alt r s) = lang r \<union> lang s"
| "lang (Seq r s) = conc (lang r) (lang s)"
| "lang (Star r) = star (lang r)"

definition isDigit :: "char \<Rightarrow> bool" where
  "isDigit c = (CHR ''0'' \<le> c \<and> c \<le> CHR ''9'')"

definition isUpper :: "char \<Rightarrow> bool" where
  "isUpper c = (CHR ''A'' \<le> c \<and> c \<le> CHR ''Z'')"

text \<open>
  A row of the purchases table. \<^verbatim>\<open>parseCsv\<close> fills a row from the header's column names,
  so a table without the column leaves \<^verbatim>\<open>chilecompra_code\<close> undefined (\<open>None\<close>), which
  \<^verbatim>\<open>extractUniqueCodes\<close> allows for with \<^verbatim>\<open>?.\<close>; the other columns are not read here.
\<close>

record Purchase =
  purchase_id :: string
  chilecompra_code :: "string option"
  municipality_id :: string
  supplier_rut :: string
  quantity :: string
  unit_total_price :: string
  is_expensive :: string
  price_excess_amount :: string
  price_excess_percentage :: string
  item_id :: string

text \<open>
  \<^verbatim>\<open>String.prototype.trim\<close> removes white space and line terminators at both ends; below
  code 256 these are the characters 9 to 13, 32 and 160.
\<close>

definition isWhiteSpace :: "char \<Rightarrow> bool" where
  "isWhiteSpace c = ((of_char c :: nat) \<in> {9, 10, 11, 12, 13, 32, 160})"

definition trim :: "string \<Rightarrow> string" where
  "trim s = rev (dropWhile isWhiteSpace (rev (dropWhile isWhiteSpace s)))"

text \<open>
  \<^verbatim>\<open>codeSet\<close> is a \<^verbatim>\<open>Set\<close>: it keeps each member once, in the order of first insertion.
  \<^verbatim>\<open>Array.from(codeSet).sort()\<close> orders the members by their code units, the
  lexicographic order of character lists.
\<close>

definition setAdd :: "'a list \<Rightarrow> 'a \<Rightarrow> 'a list" where
  "setAdd members x = (if x \<in> set members then members else members @ [x])"

text \<open>The body of the loop over the rows.\<close>

definition collectCode :: "Purchase \<Rightarrow> string list \<Rightarrow> string list" where
  "collectCode row codeSet =
     (case map_option trim (chilecompra_code row) of
        None \<Rightarrow> codeSet
      | Some code \<Rightarrow>
          if code \<noteq> [] \<and> isValidCode code then setAdd codeSet code else codeSet)"

definition extractUniqueCodes :: "Purchase list \<Rightarrow> string list" where
  "extractUniqueCodes rows = sort (fold collectCode rows [])"

section \<open>The session scraper\<close>

definition MAX_RETRIES :: nat where
  "MAX_RETRIES = 3"

definition RETRY_BASE_DELAY :: nat where
  "RETRY_BASE_DELAY = 2000"

record CliArgs =
  fresh :: bool
  test :: "nat option"
  retry :: bool

record DownloadResult =
  dr_code :: string
  dr_success :: bool
  pdfCount :: nat
  dr_error :: "string option"
  directory :: "string option"

text \<open>
  What one pass of \<^verbatim>\<open>processCode\<close> meets.
  \<^item> \<^verbatim>\<open>context.newPage()\<close> is awaited before the \<^verbatim>\<open>try\<close>: when it throws, nothing catches
    the error (\<open>PageNotOpened\<close>, with the message).
  \<^item> Inside the \<^verbatim>\<open>try\<close> each stage function catches its own errors, so the pass goes one of
    three ways: \<^verbatim>\<open>navigateToPurchaseOrder\<close> returns null and the search page closes;
    \<^verbatim>\<open>openAttachmentsPopup\<close> returns null and both pages close (the flag says whether the
    report was downloaded); the attachments are downloaded and the three pages close (the
    report flag and the number of attachments saved).
  \<^item> Or something inside the \<^verbatim>\<open>try\<close> throws (a stage, \<^verbatim>\<open>getCodeDirectory\<close>, or the closing
    of a page there), with its message. The \<^verbatim>\<open>catch\<close> block then closes the pages that are
    still open, and these two \<^verbatim>\<open>close()\<close> calls are awaited outside any \<^verbatim>\<open>try\<close>: the second
    argument of \<open>Threw\<close> is \<open>None\<close> when they go through and the message of the error when one
    of them throws.
\<close>

datatype attempt_outcome =
    PageNotOpened string
  | NavigationFailed
  | NoAttachmentsPopup bool
  | AttachmentsDownloaded bool nat
  | Threw string "string option"

definition getCodeDirectory :: "string \<Rightarrow> string" where
  "getCodeDirectory code = ''downloads/'' @ code"

text \<open>Decimal digits of a number, as a template literal prints it.\<close>

fun showNat :: "nat \<Rightarrow> string" where
  "showNat n =
     (if n < 10 then [''0123456789'' ! n]
      else showNat (n div 10) @ [''0123456789'' ! (n mod 10)])"

declare showNat.simps [simp del]

text \<open>
  \<^verbatim>\<open>processCode\<close>: \<open>browse\<close> answers what the pass of a given attempt number meets. The
  result carries the delays slept between attempts, in order, and then either the error
  the promise is rejected with or the value it resolves to.
\<close>

function processCode ::
  "(nat \<Rightarrow> attempt_outcome) \<Rightarrow> string \<Rightarrow> nat \<Rightarrow> nat list \<times> (js_error + DownloadResult)" where
  "processCode browse code attempt =
     (case browse attempt of
        PageNotOpened message \<Rightarrow> ([], Inl (Error message))
      | NavigationFailed \<Rightarrow>
          ([], Inr \<lparr>dr_code = code, dr_success = False, pdfCount = 0,
                    dr_error = Some ''Failed to navigate to purchase order'', directory = None\<rparr>)
      | NoAttachmentsPopup reportDownloaded \<Rightarrow>
          ([], Inr \<lparr>dr_code = code, dr_success = True,
                    pdfCount = (if reportDownloaded then 1 else 0),
                    dr_error = None, directory = Some (getCodeDirectory code)\<rparr>)
      | AttachmentsDownloaded reportDownloaded attachmentPdfCount \<Rightarrow>
          ([], Inr \<lparr>dr_code = code, dr_success = True,
                    pdfCount = (if reportDownloaded then 1 else 0) + attachmentPdfCount,
                    dr_error = None, directory = Some (getCodeDirectory code)\<rparr>)
      | Threw errorMessage cleanUp \<Rightarrow>
          (case cleanUp of
             Some message \<Rightarrow> ([], Inl (Error message))
           | None \<Rightarrow>
               if attempt < MAX_RETRIES
               then (let delay = exponentialBackoff attempt RETRY_BASE_DELAY;
                         (delays, result) = processCode browse code (attempt + 1)
                     in (delay # delays, result))
               else ([], Inr \<lparr>dr_code = code, dr_success = False, pdfCount = 0,
                               dr_error = Some (''Failed after '' @ showNat MAX_RETRIES @
                                                '' attempts: '' @ errorMessage),
                               directory = None\<rparr>)))"
  by pat_completeness auto
termination
  by (relation "measure (\<lambda>(browse, code, attempt). MAX_RETRIES - attempt)") auto

declare processCode.simps [simp del]

text \<open>The work set of a run, as \<^verbatim>\<open>main\<close> chooses it from the command line.\<close>

definition codesToProcess ::
  "CliArgs \<Rightarrow> string list \<Rightarrow> ScrapedCodesRegistry \<Rightarrow> Checkpoint \<Rightarrow> string list" where
  "codesToProcess args allCodes registry checkpoint =
     (if retry args then getRetryableCodes checkpoint
      else case test args of
             Some n \<Rightarrow>
               if n \<noteq> 0 then take n (getNewCodesToScrape allCodes registry)
               else getNewCodesToScrape allCodes registry
           | None \<Rightarrow> getNewCodesToScrape allCodes registry)"

text \<open>
  The state the jobs of a run share: both stores in memory, what was last written of
  them, and the three counters.
\<close>

record session =
  checkpoint :: Checkpoint
  registry :: ScrapedCodesRegistry
  checkpointFile :: "Checkpoint stored_file"
  registryFile :: "ScrapedCodesRegistry stored_file"
  processedCount :: nat
  succeededCount :: nat
  failedCount :: nat

text \<open>\<^verbatim>\<open>a || b\<close> on an optional string: \<open>b\<close> when \<open>a\<close> is undefined or empty.\<close>

definition orElse :: "string option \<Rightarrow> string \<Rightarrow> string" where
  "orElse a b = (case a of None \<Rightarrow> b | Some s \<Rightarrow> if s = [] then b else s)"

text \<open>
  The job \<^verbatim>\<open>main\<close> queues for one code. A skipped code yields \<open>None\<close> (null). When
  \<^verbatim>\<open>processCode\<close> rejects, so does the job, before it has marked anything: \<^verbatim>\<open>Promise.all\<close>
  rejects with it, and \<^verbatim>\<open>main\<close> ends in its \<^verbatim>\<open>catch\<close> handler, which exits the process without
  the final saves.
\<close>

definition processJob ::
  "string \<Rightarrow> CliArgs \<Rightarrow> (string \<Rightarrow> nat \<Rightarrow> attempt_outcome) \<Rightarrow> session \<Rightarrow> string
     \<Rightarrow> js_error + session \<times> DownloadResult option" where
  "processJob now args browse s code =
     (let (skip, s0) =
            (if fresh args then (False, s)
             else (let (seen, cp) = isProcessed (checkpoint s) code
                   in (seen, s\<lparr>checkpoint := cp\<rparr>)))
      in if skip then Inr (s0, None)
         else
           (case snd (processCode (browse code) code 1) of
              Inl e \<Rightarrow> Inl e
            | Inr result \<Rightarrow>
                (let s1 = s0\<lparr>processedCount := processedCount s0 + 1\<rparr>;
                     s2 = (if dr_success result
                           then s1\<lparr>succeededCount := succeededCount s1 + 1,
                                   checkpoint := markProcessed now (checkpoint s1) code,
                                   registry := addToScrapedRegistry now (registry s1) code\<rparr>
                           else s1\<lparr>failedCount := failedCount s1 + 1,
                                   checkpoint := markFailed now (checkpoint s1) code
                                                   (orElse (dr_error result) ''Unknown error'') 1\<rparr>);
                     s3 = (if processedCount s2 mod 10 = 0
                           then (let (registry', file) = saveScrapedCodesRegistry now (registry s2)
                                 in s2\<lparr>checkpointFile := saveCheckpoint (checkpoint s2),
                                        registry := registry', registryFile := file\<rparr>)
                           else s2)
                 in Inr (s3, Some result))))"

section \<open>JavaScript numbers\<close>

text \<open>
  A number is an IEEE 754 double: a finite value, which is a rational, one of the two
  infinities, or NaN. The two zeros are one value here: nothing below divides by a zero
  that could be negative, and \<^verbatim>\<open>JSON.stringify\<close> writes both as \<^verbatim>\<open>0\<close>.
\<close>

datatype double = Finite rat | PlusInfinity | MinusInfinity | NaN

definition pow2 :: "int \<Rightarrow> rat" where
  "pow2 e = (if 0 \<le> e then 2 ^ nat e else 1 / 2 ^ nat (- e))"

text \<open>For \<open>x > 0\<close>, the exponent \<open>e\<close> with \<open>2 ^ e \<le> x < 2 ^ (e + 1)\<close>.\<close>

definition floorLog2 :: "rat \<Rightarrow> int" where
  "floorLog2 x = (if 1 \<le> x then bitlen \<lfloor>x\<rfloor> - 1 else - bitlen (\<lceil>1 / x\<rceil> - 1))"

text \<open>The nearest integer, the even one of the two when they are equally near.\<close>

definition roundHalfEven :: "rat \<Rightarrow> int" where
  "roundHalfEven y =
     (let f = \<lfloor>y\<rfloor>; d = y - of_int f
      in if d < 1 / 2 then f else if 1 / 2 < d then f + 1 else if even f then f else f + 1)"

text \<open>
  The double an exact result is rounded to (round to nearest, ties to even): doubles
  with exponent \<open>e\<close> are the multiples of \<open>2 ^ (e - 52)\<close>, the exponent is at least
  \<open>-1022\<close> (below it lie the subnormal numbers, multiples of \<open>2 ^ -1074\<close>), and a result
  that rounds to \<open>2 ^ 1024\<close> or beyond is an infinity.
\<close>

definition roundDouble :: "rat \<Rightarrow> double" where
  "roundDouble x =
     (if x = 0 then Finite 0
      else (let e = max (floorLog2 \<bar>x\<bar>) (- 1022);
                ulp = pow2 (e - 52);
                y = of_int (roundHalfEven (x / ulp)) * ulp
            in if pow2 1024 \<le> \<bar>y\<bar> then (if 0 < x then PlusInfinity else MinusInfinity)
               else Finite y))"

fun negated :: "double \<Rightarrow> double" where
  "negated (Finite x) = Finite (- x)"
| "negated PlusInfinity = MinusInfinity"
| "negated MinusInfinity = PlusInfinity"
| "negated NaN = NaN"

text \<open>\<^verbatim>\<open>a + b\<close>, \<^verbatim>\<open>a * b\<close> and \<^verbatim>\<open>a / b\<close> on numbers.\<close>

fun plus_double :: "double \<Rightarrow> double \<Rightarrow> double" where
  "plus_double (Finite x) (Finite y) = roundDouble (x + y)"
| "plus_double NaN b = NaN"
| "plus_double a NaN = NaN"
| "plus_double (Finite x) b = b"
| "plus_double a (Finite y) = a"
| "plus_double a b = (if a = b then a else NaN)"

fun times_double :: "double \<Rightarrow> double \<Rightarrow> double" where
  "times_double (Finite x) (Finite y) = roundDouble (x * y)"
| "times_double NaN b = NaN"
| "times_double a NaN = NaN"
| "times_double (Finite x) b = (if x = 0 then NaN else if 0 < x then b else negated b)"
| "times_double a (Finite y) = (if y = 0 then NaN else if 0 < y then a else negated a)"
| "times_double a b = (if a = b then PlusInfinity else MinusInfinity)"

text \<open>A zero divisor is the positive zero (in \<^verbatim>\<open>getStats\<close> it is a sum of counts).\<close>

fun divide_double :: "double \<Rightarrow> double \<Rightarrow> double" where
  "divide_double (Finite x) (Finite y) =
     (if y \<noteq> 0 then roundDouble (x / y)
      else if x = 0 then NaN else if 0 < x then PlusInfinity else MinusInfinity)"
| "divide_double NaN b = NaN"
| "divide_double a NaN = NaN"
| "divide_double (Finite x) b = Finite 0"
| "divide_double a (Finite y) = (if 0 \<le> y then a else negated a)"
| "divide_double a b = NaN"

text \<open>\<^verbatim>\<open>a <= b\<close> on numbers: false when either is NaN.\<close>

fun lessEq_double :: "double \<Rightarrow> double \<Rightarrow> bool" where
  "lessEq_double (Finite x) (Finite y) = (x \<le> y)"
| "lessEq_double NaN b = False"
| "lessEq_double a NaN = False"
| "lessEq_double MinusInfinity b = True"
| "lessEq_double a PlusInfinity = True"
| "lessEq_double a b = False"

text \<open>
  The number a counter read from a store file is: \<^verbatim>\<open>JSON.parse\<close> gives the double nearest
  to the integer written in the file.
\<close>

definition numberOfCount :: "nat \<Rightarrow> double" where
  "numberOfCount n = roundDouble (of_nat n)"

section \<open>JSON values\<close>

text \<open>
  A value as \<^verbatim>\<open>JSON.parse\<close> returns it. An object is the list of its own properties in the
  order in which they are enumerated (for keys that are not array indices, the order in
  which the text lists them); \<^verbatim>\<open>undefined\<close>, which is no JSON value, is \<open>None\<close> of an
  optional value.
\<close>

datatype json =
    JNull
  | JBool bool
  | JNumber double
  | JString string
  | JArray "json list"
  | JObject "(string \<times> json) list"

text \<open>
  \<^verbatim>\<open>JSON.stringify\<close>. The text it writes for a value determines, and is determined by, the
  value with every number that is not finite replaced by null (which is how such a
  number is written): arrays keep their order, objects their keys in order, and distinct
  finite numbers, distinct strings and distinct keys are written differently. \<open>written\<close>
  is that value; \<^verbatim>\<open>JSON.stringify(undefined)\<close> is \<^verbatim>\<open>undefined\<close>. Two results of
  \<open>stringify\<close> are equal exactly when \<^verbatim>\<open>===\<close> holds of the two results in the source.
\<close>

fun written :: "json \<Rightarrow> json" where
  "written JNull = JNull"
| "written (JBool b) = JBool b"
| "written (JNumber d) = (case d of Finite q \<Rightarrow> JNumber (Finite q) | _ \<Rightarrow> JNull)"
| "written (JString s) = JString s"
| "written (JArray xs) = JArray (map written xs)"
| "written (JObject props) = JObject (map (\<lambda>(key, v). (key, written v)) props)"

definition stringify :: "json option \<Rightarrow> json option" where
  "stringify v = map_option written v"

text \<open>
  A \<^verbatim>\<open>TypeError\<close> the language throws, with its message as the engine under Node words it.
\<close>

datatype type_error = TypeError string

definition cannotRead :: "string \<Rightarrow> string \<Rightarrow> type_error" where
  "cannotRead what key =
     TypeError (''Cannot read properties of '' @ what @ '' (reading '' @ [CHR 0x27] @ key @
                [CHR 0x27] @ '')'')"

definition notAFunction :: "string \<Rightarrow> type_error" where
  "notAFunction what = TypeError (what @ '' is not a function'')"

definition notPrimitive :: type_error where
  "notPrimitive = TypeError ''Cannot convert object to primitive value''"

text \<open>
  Reading a property of a value. For a key that no prototype defines (the field names of
  an item), the result is the own property of an object, and \<^verbatim>\<open>undefined\<close> for any other
  value but null and \<^verbatim>\<open>undefined\<close>, of which no property can be read.
\<close>

fun readField :: "json option \<Rightarrow> string \<Rightarrow> type_error + json option" where
  "readField None key = Inl (cannotRead ''undefined'' key)"
| "readField (Some JNull) key = Inl (cannotRead ''null'' key)"
| "readField (Some (JObject props)) key = Inr (map_of props key)"
| "readField (Some v) key = Inr None"

text \<open>
  \<^verbatim>\<open>v.length\<close>: the number of elements of an array, the number of code units of a
  string, the own property of that name of an object.
\<close>

fun lengthOf :: "json option \<Rightarrow> type_error + json option" where
  "lengthOf (Some (JArray xs)) = Inr (Some (JNumber (Finite (of_nat (length xs)))))"
| "lengthOf (Some (JString s)) = Inr (Some (JNumber (Finite (of_nat (length s)))))"
| "lengthOf v = readField v ''length''"

text \<open>
  \<^verbatim>\<open>Number(s)\<close> of a string: white space at both ends is dropped; the empty string is 0;
  a binary, octal or hexadecimal literal (without sign) or a decimal literal (optional
  sign, \<^verbatim>\<open>Infinity\<close> or digits with an optional point and an optional exponent) is the
  double nearest to what it denotes; anything else is NaN.
\<close>

definition digitValue :: "char \<Rightarrow> nat" where
  "digitValue c =
     (let n = of_char c in if n \<le> 57 then n - 48 else if n \<le> 70 then n - 55 else n - 87)"

definition digitsValue :: "nat \<Rightarrow> string \<Rightarrow> nat" where
  "digitsValue base ds = foldl (\<lambda>n c. n * base + digitValue c) 0 ds"

definition isHexDigit :: "char \<Rightarrow> bool" where
  "isHexDigit c =
     (isDigit c \<or> (CHR ''a'' \<le> c \<and> c \<le> CHR ''f'') \<or> (CHR ''A'' \<le> c \<and> c \<le> CHR ''F''))"

definition nonDecimalLiteral :: "string \<Rightarrow> nat option" where
  "nonDecimalLiteral s =
     (let ds = drop 2 s
      in if ds = [] then None
         else if take 2 s \<in> {''0x'', ''0X''} \<and> list_all isHexDigit ds
         then Some (digitsValue 16 ds)
         else if take 2 s \<in> {''0o'', ''0O''} \<and> list_all (\<lambda>c. CHR ''0'' \<le> c \<and> c \<le> CHR ''7'') ds
         then Some (digitsValue 8 ds)
         else if take 2 s \<in> {''0b'', ''0B''} \<and> list_all (\<lambda>c. c = CHR ''0'' \<or> c = CHR ''1'') ds
         then Some (digitsValue 2 ds)
         else None)"

definition signedInteger :: "string \<Rightarrow> int option" where
  "signedInteger s =
     (let ds = (if take 1 s = ''-'' \<or> take 1 s = ''+'' then drop 1 s else s)
      in if ds \<noteq> [] \<and> list_all isDigit ds
         then Some (if take 1 s = ''-'' then - int (digitsValue 10 ds) else int (digitsValue 10 ds))
         else None)"

definition pow10 :: "int \<Rightarrow> rat" where
  "pow10 e = (if 0 \<le> e then 10 ^ nat e else 1 / 10 ^ nat (- e))"

definition unsignedDecimal :: "string \<Rightarrow> rat option" where
  "unsignedDecimal s =
     (let mantissa = takeWhile (\<lambda>c. c \<noteq> CHR ''e'' \<and> c \<noteq> CHR ''E'') s;
          exponent = dropWhile (\<lambda>c. c \<noteq> CHR ''e'' \<and> c \<noteq> CHR ''E'') s;
          whole = takeWhile (\<lambda>c. c \<noteq> CHR ''.'') mantissa;
          fraction = drop 1 (dropWhile (\<lambda>c. c \<noteq> CHR ''.'') mantissa)
      in if \<not> (list_all isDigit whole \<and> list_all isDigit fraction \<and> (whole \<noteq> [] \<or> fraction \<noteq> []))
         then None
         else (case (if exponent = [] then Some 0 else signedInteger (drop 1 exponent)) of
                 None \<Rightarrow> None
               | Some e \<Rightarrow>
                   Some (of_nat (digitsValue 10 (whole @ fraction)) * pow10 (e - int (length fraction)))))"

definition stringToNumber :: "string \<Rightarrow> double" where
  "stringToNumber s =
     (let t = trim s
      in if t = [] then Finite 0
         else (case nonDecimalLiteral t of
                 Some n \<Rightarrow> roundDouble (of_nat n)
               | None \<Rightarrow>
                   (let negative = (take 1 t = ''-'');
                        u = (if take 1 t = ''-'' \<or> take 1 t = ''+'' then drop 1 t else t)
                    in if u = ''Infinity'' then (if negative then MinusInfinity else PlusInfinity)
                       else (case unsignedDecimal u of
                               None \<Rightarrow> NaN
                             | Some q \<Rightarrow> roundDouble (if negative then - q else q)))))"

text \<open>
  Whether turning a value into a string throws: an object that has an own property
  \<^verbatim>\<open>toString\<close> (a JSON value, so not callable) hides the method it would inherit, and an
  array asks each of its elements.
\<close>

fun throwsAsString :: "json \<Rightarrow> bool" where
  "throwsAsString (JObject props) = (''toString'' \<in> fst ` set props)"
| "throwsAsString (JArray xs) = list_ex throwsAsString xs"
| "throwsAsString v = False"

text \<open>
  The number an operand of \<^verbatim>\<open>*\<close> is converted to. An object or an array is first turned
  into a string: an object into \<^verbatim>\<open>[object Object]\<close>, which is no number; an array into
  the strings of its elements joined by commas, null as the empty string. So the empty
  array is 0, an array of one element is what the string of that element denotes (the
  element itself if it is a number, written and read back), and a longer array, its
  string having a comma, is NaN.
\<close>

fun toNumber :: "json \<Rightarrow> type_error + double" where
  "toNumber JNull = Inr (Finite 0)"
| "toNumber (JBool b) = Inr (Finite (if b then 1 else 0))"
| "toNumber (JNumber d) = Inr d"
| "toNumber (JString s) = Inr (stringToNumber s)"
| "toNumber (JObject props) = (if ''toString'' \<in> fst ` set props then Inl notPrimitive else Inr NaN)"
| "toNumber (JArray []) = Inr (Finite 0)"
| "toNumber (JArray [x]) = (case x of JBool b \<Rightarrow> Inr NaN | _ \<Rightarrow> toNumber x)"
| "toNumber (JArray (x # y # zs)) =
     (if list_ex throwsAsString (x # y # zs) then Inl notPrimitive else Inr NaN)"

definition numberOf :: "json option \<Rightarrow> type_error + double" where
  "numberOf v = (case v of None \<Rightarrow> Inr NaN | Some w \<Rightarrow> toNumber w)"

text \<open>\<^verbatim>\<open>Array.prototype.reduce\<close> with an initial value, for a callback that may throw.\<close>

fun reduce :: "('b \<Rightarrow> 'a \<Rightarrow> type_error + 'b) \<Rightarrow> 'a list \<Rightarrow> 'b \<Rightarrow> type_error + 'b" where
  "reduce f [] acc = Inr acc"
| "reduce f (x # xs) acc = (case f acc x of Inl e \<Rightarrow> Inl e | Inr acc' \<Rightarrow> reduce f xs acc')"

section \<open>The extraction comparison\<close>

text \<open>
  \<^verbatim>\<open>data\<close> is the object \<^verbatim>\<open>JSON.parse\<close> made of the service's answer (the text parsed starts
  with a brace), as it came. Of its properties the code below reads one, \<^verbatim>\<open>items\<close>: any
  JSON value, or none when the answer has no such key. In an answer of the form the
  prompt asks for it is an array of objects with the keys \<^verbatim>\<open>descripcion\<close>, \<^verbatim>\<open>cantidad\<close> and
  \<^verbatim>\<open>precio_unitario\<close>.
\<close>

record ExtractedData =
  items :: "json option"
  total_orden :: "json option"
  legible :: bool
  ed_error :: "string option"

record FileProcessResult =
  filename :: string
  success :: bool
  data :: "ExtractedData option"
  fpr_error :: "string option"

datatype marca = sobreprecio | falta_datos | normal

datatype confidence = alta | media | baja

record Comparison =
  cmp_marca :: marca
  cmp_confidence :: confidence
  cmp_items :: "json option"
  filesProcessed :: nat

text \<open>
  \<^verbatim>\<open>comparAndMark\<close>. The length of the first item list is read only when all lists were
  found equal (\<^verbatim>\<open>&&\<close> does not evaluate its right operand otherwise), and reading it
  throws when that list is \<^verbatim>\<open>undefined\<close> or null.
  The two lengths compared are numbers, and the literal \<^verbatim>\<open>0.7\<close> is the double nearest to
  seven tenths.
\<close>

definition comparAndMark :: "FileProcessResult list \<Rightarrow> type_error + Comparison" where
  "comparAndMark results =
     (let successfulResults = filter (\<lambda>r. success r \<and> data r \<noteq> None) results
      in if length successfulResults = 0
         then Inr \<lparr>cmp_marca = falta_datos, cmp_confidence = baja, cmp_items = Some (JArray []),
                   filesProcessed = 0\<rparr>
         else
           (let itemsArrays = map (\<lambda>r. items (the (data r))) successfulResults;
                allEqual = list_all (\<lambda>its. stringify its = stringify (hd itemsArrays)) itemsArrays
            in case (if allEqual then lengthOf (hd itemsArrays) else Inr None) of
                 Inl e \<Rightarrow> Inl e
               | Inr len \<Rightarrow>
                   (let (m, c) =
                          (if allEqual \<and> len = Some (JNumber (Finite 1)) then (sobreprecio, alta)
                           else if \<not> allEqual
                           then (falta_datos,
                                 if lessEq_double
                                      (times_double (numberOfCount (length results))
                                         (roundDouble (7 / 10)))
                                      (numberOfCount (length successfulResults))
                                 then media else baja)
                           else (normal, alta))
                    in Inr \<lparr>cmp_marca = m, cmp_confidence = c, cmp_items = hd itemsArrays,
                             filesProcessed = length successfulResults\<rparr>)))"

section \<open>The batch data manager\<close>

record PendingData =
  pd_codes :: "string list"
  pd_lastUpdated :: string
  totalPending :: nat

record ProcessedOrder =
  po_code :: string
  po_marca :: marca
  po_items :: "json list"
  po_total_orden :: "json option"
  processedAt :: string
  po_confidence :: confidence
  po_filesProcessed :: nat

record ProcessedData =
  orders :: "ProcessedOrder list"
  pr_totalProcessed :: nat
  pr_lastUpdated :: string

record FailedCode =
  fc_code :: string
  fc_error :: string
  fc_attempts :: nat
  lastAttempt :: string

record FailedData =
  fd_codes :: "FailedCode list"
  fd_totalFailed :: nat
  fd_lastUpdated :: string

text \<open>The three files under \<^verbatim>\<open>data/\<close>.\<close>

record data_files =
  pendingFile :: "PendingData stored_file"
  processedFile :: "ProcessedData stored_file"
  failedFile :: "FailedData stored_file"

definition loadPending :: "string \<Rightarrow> data_files \<Rightarrow> js_error + PendingData" where
  "loadPending now fs =
     (case pendingFile fs of
        Absent \<Rightarrow> Inr \<lparr>pd_codes = [], pd_lastUpdated = now, totalPending = 0\<rparr>
      | Unparsable \<Rightarrow> Inl SyntaxError
      | Holds d \<Rightarrow> Inr d)"

definition savePending :: "string \<Rightarrow> PendingData \<Rightarrow> data_files \<Rightarrow> data_files" where
  "savePending now d fs =
     fs\<lparr>pendingFile := Holds (d\<lparr>pd_lastUpdated := now, totalPending := length (pd_codes d)\<rparr>)\<rparr>"

definition getPendingBatch :: "string \<Rightarrow> nat \<Rightarrow> data_files \<Rightarrow> js_error + string list" where
  "getPendingBatch now batchSize fs =
     (case loadPending now fs of
        Inl e \<Rightarrow> Inl e
      | Inr pending \<Rightarrow> Inr (take batchSize (pd_codes pending)))"

definition removePendingCodes :: "string \<Rightarrow> string list \<Rightarrow> data_files \<Rightarrow> js_error + data_files" where
  "removePendingCodes now codes fs =
     (case loadPending now fs of
        Inl e \<Rightarrow> Inl e
      | Inr pending \<Rightarrow>
          (let codeSet = set codes
           in Inr (savePending now
                     (pending\<lparr>pd_codes := filter (\<lambda>c. c \<notin> codeSet) (pd_codes pending)\<rparr>) fs)))"

text \<open>
  An order read back from the file is the order that was written, except that a number
  that is not finite was written as null.
\<close>

definition reread :: "ProcessedOrder \<Rightarrow> ProcessedOrder" where
  "reread order =
     order\<lparr>po_items := map written (po_items order),
            po_total_orden := map_option written (po_total_orden order)\<rparr>"

definition loadProcessed :: "string \<Rightarrow> data_files \<Rightarrow> js_error + ProcessedData" where
  "loadProcessed now fs =
     (case processedFile fs of
        Absent \<Rightarrow> Inr \<lparr>orders = [], pr_totalProcessed = 0, pr_lastUpdated = now\<rparr>
      | Unparsable \<Rightarrow> Inl SyntaxError
      | Holds d \<Rightarrow> Inr (d\<lparr>orders := map reread (orders d)\<rparr>))"

definition saveProcessed :: "string \<Rightarrow> ProcessedData \<Rightarrow> data_files \<Rightarrow> data_files" where
  "saveProcessed now d fs =
     fs\<lparr>processedFile := Holds (d\<lparr>pr_lastUpdated := now, pr_totalProcessed := length (orders d)\<rparr>)\<rparr>"

definition addProcessedOrder :: "string \<Rightarrow> ProcessedOrder \<Rightarrow> data_files \<Rightarrow> js_error + data_files" where
  "addProcessedOrder now order fs =
     (case loadProcessed now fs of
        Inl e \<Rightarrow> Inl e
      | Inr processed \<Rightarrow>
          (let exists = list_ex (\<lambda>o'. po_code o' = po_code order) (orders processed)
           in if \<not> exists
              then Inr (saveProcessed now (processed\<lparr>orders := orders processed @ [order]\<rparr>) fs)
              else Inr fs))"

definition addProcessedOrders :: "string \<Rightarrow> ProcessedOrder list \<Rightarrow> data_files \<Rightarrow> js_error + data_files" where
  "addProcessedOrders now new fs =
     (case loadProcessed now fs of
        Inl e \<Rightarrow> Inl e
      | Inr processed \<Rightarrow>
          (let existingCodes = set (map po_code (orders processed));
               newOrders = filter (\<lambda>o'. po_code o' \<notin> existingCodes) new
           in Inr (saveProcessed now (processed\<lparr>orders := orders processed @ newOrders\<rparr>) fs)))"

definition loadFailed :: "string \<Rightarrow> data_files \<Rightarrow> js_error + FailedData" where
  "loadFailed now fs =
     (case failedFile fs of
        Absent \<Rightarrow> Inr \<lparr>fd_codes = [], fd_totalFailed = 0, fd_lastUpdated = now\<rparr>
      | Unparsable \<Rightarrow> Inl SyntaxError
      | Holds d \<Rightarrow> Inr d)"

definition saveFailed :: "string \<Rightarrow> FailedData \<Rightarrow> data_files \<Rightarrow> data_files" where
  "saveFailed now d fs =
     fs\<lparr>failedFile := Holds (d\<lparr>fd_lastUpdated := now, fd_totalFailed := length (fd_codes d)\<rparr>)\<rparr>"

definition addFailedCode :: "string \<Rightarrow> string \<Rightarrow> string \<Rightarrow> data_files \<Rightarrow> js_error + data_files" where
  "addFailedCode now code error fs =
     (case loadFailed now fs of
        Inl e \<Rightarrow> Inl e
      | Inr failed \<Rightarrow>
          (let failed' =
                 (case findIndex (\<lambda>f. fc_code f = code) (fd_codes failed) of
                    Some i \<Rightarrow>
                      failed\<lparr>fd_codes := (fd_codes failed)[i :=
                        (fd_codes failed ! i)\<lparr>fc_attempts := fc_attempts (fd_codes failed ! i) + 1,
                                                fc_error := error, lastAttempt := now\<rparr>]\<rparr>
                  | None \<Rightarrow>
                      failed\<lparr>fd_codes := fd_codes failed @
                        [\<lparr>fc_code = code, fc_error = error, fc_attempts = 1, lastAttempt = now\<rparr>]\<rparr>)
           in Inr (saveFailed now failed' fs)))"

definition getRetryableFailed :: "string \<Rightarrow> nat \<Rightarrow> data_files \<Rightarrow> js_error + string list" where
  "getRetryableFailed now maxAttempts fs =
     (case loadFailed now fs of
        Inl e \<Rightarrow> Inl e
      | Inr failed \<Rightarrow> Inr (map fc_code (filter (\<lambda>f. fc_attempts f < maxAttempts) (fd_codes failed))))"

text \<open>
  \<^verbatim>\<open>getStats\<close>. The three counts are the numbers read from the files; the sum, the
  quotient and the product are computed on doubles, and nothing looks at the divisor.
\<close>

record Stats =
  st_pending :: double
  st_processed :: double
  st_failed :: double
  st_total :: double
  completion :: double

definition getStats :: "string \<Rightarrow> data_files \<Rightarrow> js_error + Stats" where
  "getStats now fs =
     (case loadPending now fs of
        Inl e \<Rightarrow> Inl e
      | Inr pending \<Rightarrow>
     (case loadProcessed now fs of
        Inl e \<Rightarrow> Inl e
      | Inr processed \<Rightarrow>
     (case loadFailed now fs of
        Inl e \<Rightarrow> Inl e
      | Inr failed \<Rightarrow>
          (let pendingTotal = numberOfCount (totalPending pending);
               processedTotal = numberOfCount (pr_totalProcessed processed);
               failedTotal = numberOfCount (fd_totalFailed failed)
           in Inr \<lparr>st_pending = pendingTotal,
                    st_processed = processedTotal,
                    st_failed = failedTotal,
                    st_total = plus_double (plus_double pendingTotal processedTotal) failedTotal,
                    completion =
                      times_double
                        (divide_double processedTotal
                           (plus_double (plus_double pendingTotal processedTotal) failedTotal))
                        (Finite 100)\<rparr>))))"

section \<open>The batch orchestrator\<close>

text \<open>
  What \<^verbatim>\<open>processSingleCode\<close> meets for one code: how the scraper's process ended
  (\<^verbatim>\<open>execSync\<close> threw, with the detail of the message; it printed text on which
  \<^verbatim>\<open>JSON.parse\<close> throws, with the parser's message; or it printed a result with its
  \<^verbatim>\<open>success\<close> flag and optional \<^verbatim>\<open>error\<close>), whether the download directory exists, the
  names \<^verbatim>\<open>readdirSync\<close> lists in it, and what \<^verbatim>\<open>processFile\<close> returns for a path.
\<close>

datatype scraper_run =
    ExecFailed string
  | OutputUnparsable string
  | Reported bool "string option"

record code_env =
  scraper :: scraper_run
  dirExists :: bool
  dirFiles :: "string list"
  processFile :: "string \<Rightarrow> FileProcessResult"

record ProcessResult =
  res_success :: bool
  res_order :: "ProcessedOrder option"
  res_error :: "string option"

definition DOWNLOADS_DIR :: string where
  "DOWNLOADS_DIR = ''docs/downloads''"

definition joinPath :: "string \<Rightarrow> string \<Rightarrow> string" where
  "joinPath a b = a @ ''/'' @ b"

definition processFiles :: "code_env \<Rightarrow> string list \<Rightarrow> FileProcessResult list" where
  "processFiles env filePaths = map (processFile env) filePaths"

definition failure :: "string option \<Rightarrow> ProcessResult" where
  "failure e = \<lparr>res_success = False, res_order = None, res_error = e\<rparr>"

text \<open>
  The callback of \<^verbatim>\<open>reduce\<close>, \<^verbatim>\<open>sum + (item.precio_unitario * item.cantidad)\<close>: both
  properties are read, then both are converted to numbers, left before right.
\<close>

definition addAmount :: "double \<Rightarrow> json \<Rightarrow> type_error + double" where
  "addAmount subtotal item =
     (case readField (Some item) ''precio_unitario'' of
        Inl e \<Rightarrow> Inl e
      | Inr price \<Rightarrow>
     (case readField (Some item) ''cantidad'' of
        Inl e \<Rightarrow> Inl e
      | Inr amount \<Rightarrow>
     (case numberOf price of
        Inl e \<Rightarrow> Inl e
      | Inr p \<Rightarrow>
     (case numberOf amount of
        Inl e \<Rightarrow> Inl e
      | Inr q \<Rightarrow> Inr (plus_double subtotal (times_double p q))))))"

text \<open>
  \<^verbatim>\<open>comparison.items.reduce(callback, 0)\<close>, together with the array it ran over: only an
  array has the method.
\<close>

definition totalOf :: "json option \<Rightarrow> type_error + json list \<times> double" where
  "totalOf its =
     (case its of
        None \<Rightarrow> Inl (cannotRead ''undefined'' ''reduce'')
      | Some JNull \<Rightarrow> Inl (cannotRead ''null'' ''reduce'')
      | Some (JArray xs) \<Rightarrow>
          (case reduce addAmount xs (Finite 0) of
             Inl e \<Rightarrow> Inl e
           | Inr orderTotal \<Rightarrow> Inr (xs, orderTotal))
      | Some v \<Rightarrow> Inl (notAFunction ''comparison.items.reduce''))"

text \<open>
  \<^verbatim>\<open>processSingleCode\<close>. Whatever is thrown inside its \<^verbatim>\<open>try\<close> is caught there and becomes a
  failure with the message of the error.
\<close>

definition processSingleCode :: "string \<Rightarrow> code_env \<Rightarrow> string \<Rightarrow> ProcessResult" where
  "processSingleCode now env code =
     (case scraper env of
        ExecFailed detail \<Rightarrow> failure (Some (''Scraper failed: '' @ detail))
      | OutputUnparsable message \<Rightarrow> failure (Some message)
      | Reported ok scraperError \<Rightarrow>
          if \<not> ok then failure scraperError
          else
            (let codeDir = joinPath DOWNLOADS_DIR code
             in if \<not> dirExists env then failure (Some ''Download directory not found'')
                else
                  (let files = map (joinPath codeDir) (dirFiles env)
                   in if length files = 0 then failure (Some ''No files downloaded'')
                      else
                        (let geminiResults = processFiles env files
                         in case comparAndMark geminiResults of
                              Inl (TypeError message) \<Rightarrow> failure (Some message)
                            | Inr comparison \<Rightarrow>
                                (case totalOf (cmp_items comparison) of
                                   Inl (TypeError message) \<Rightarrow> failure (Some message)
                                 | Inr (orderItems, orderTotal) \<Rightarrow>
                                     \<lparr>res_success = True,
                                      res_order = Some
                                        \<lparr>po_code = code,
                                         po_marca = cmp_marca comparison,
                                         po_items = orderItems,
                                         po_total_orden = Some (JNumber orderTotal),
                                         processedAt = now,
                                         po_confidence = cmp_confidence comparison,
                                         po_filesProcessed = filesProcessed comparison\<rparr>,
                                      res_error = None\<rparr>)))))"

text \<open>
  The body of the loop of \<^verbatim>\<open>main\<close>, on the data files and the two lists of codes the
  run collects.
\<close>

record batch_run =
  files :: data_files
  processedNow :: "string list"
  failedNow :: "string list"

definition batchStep ::
  "string \<Rightarrow> (string \<Rightarrow> code_env) \<Rightarrow> batch_run \<Rightarrow> string \<Rightarrow> js_error + batch_run" where
  "batchStep now env run code =
     (let result = processSingleCode now (env code) code
      in case (if res_success result then res_order result else None) of
           Some order \<Rightarrow>
             (case addProcessedOrder now order (files run) of
                Inl e \<Rightarrow> Inl e
              | Inr fs \<Rightarrow> Inr (run\<lparr>files := fs, processedNow := processedNow run @ [code]\<rparr>))
         | None \<Rightarrow>
             (case addFailedCode now code (orElse (res_error result) ''Unknown error'') (files run) of
                Inl e \<Rightarrow> Inl e
              | Inr fs \<Rightarrow> Inr (run\<lparr>files := fs, failedNow := failedNow run @ [code]\<rparr>)))"

fun batchLoop ::
  "string \<Rightarrow> (string \<Rightarrow> code_env) \<Rightarrow> batch_run \<Rightarrow> string list \<Rightarrow> js_error + batch_run" where
  "batchLoop now env run [] = Inr run"
| "batchLoop now env run (code # codes) =
     (case batchStep now env run code of
        Inl e \<Rightarrow> Inl e
      | Inr run' \<Rightarrow> batchLoop now env run' codes)"

text \<open>
  \<^verbatim>\<open>main\<close> of the batch orchestrator: the files as it leaves them, and the statistics it
  prints (none when there was nothing pending).
\<close>

definition batchMain ::
  "string \<Rightarrow> nat \<Rightarrow> (string \<Rightarrow> code_env) \<Rightarrow> data_files \<Rightarrow> js_error + data_files \<times> Stats option" where
  "batchMain now batchSize env fs =
     (case getPendingBatch now batchSize fs of
        Inl e \<Rightarrow> Inl e
      | Inr codes \<Rightarrow>
          if length codes = 0 then Inr (fs, None)
          else
            (case batchLoop now env \<lparr>files = fs, processedNow = [], failedNow = []\<rparr> codes of
               Inl e \<Rightarrow> Inl e
             | Inr run \<Rightarrow>
                 (case removePendingCodes now (processedNow run @ failedNow run) (files run) of
                    Inl e \<Rightarrow> Inl e
                  | Inr fs' \<Rightarrow>
                      (case getStats now fs' of
                         Inl e \<Rightarrow> Inl e
                       | Inr stats \<Rightarrow> Inr (fs', Some stats)))))"

section \<open>Sequences of store operations\<close>

text \<open>
  The three operations by which a run changes the two progress stores, as values, and a
  sequence of them applied in order.
\<close>

datatype store_op =
    MarkProcessed string string
  | MarkFailed string string string nat
  | AddToScrapedRegistry string string

fun applyOp :: "store_op \<Rightarrow> Checkpoint \<times> ScrapedCodesRegistry \<Rightarrow> Checkpoint \<times> ScrapedCodesRegistry" where
  "applyOp (MarkProcessed now code) (cp, reg) = (markProcessed now cp code, reg)"
| "applyOp (MarkFailed now code error attempts) (cp, reg) = (markFailed now cp code error attempts, reg)"
| "applyOp (AddToScrapedRegistry now code) (cp, reg) = (cp, addToScrapedRegistry now reg code)"

definition applyOps :: "store_op list \<Rightarrow> Checkpoint \<times> ScrapedCodesRegistry \<Rightarrow> Checkpoint \<times> ScrapedCodesRegistry" where
  "applyOps ops stores = fold applyOp ops stores"

text \<open>The two counters agree with the lists they count.\<close>

definition countsAgree :: "Checkpoint \<Rightarrow> bool" where
  "countsAgree cp =
     (totalProcessed cp = length (processedCodes cp) \<and> totalFailed cp = length (failedCodes cp))"

text \<open>
  \<open>after\<close> is \<open>before\<close> with new members appended, each once and none of them a member
  of \<open>before\<close>.
\<close>

definition grownFrom :: "string list \<Rightarrow> string list \<Rightarrow> bool" where
  "grownFrom before after =
     (prefix before after \<and> distinct (drop (length before) after)
      \<and> set (drop (length before) after) \<inter> set before = {})"

text \<open>
  The cache, when built, holds the processed codes; no code is listed twice as processed
  or as failed.
\<close>

definition storesConsistent :: "Checkpoint \<Rightarrow> bool" where
  "storesConsistent cp =
     (cacheOf cp = set (processedCodes cp) \<and> distinct (processedCodes cp)
      \<and> distinct (map fe_code (failedCodes cp)))"

section \<open>Notions used to state the retry properties\<close>

text \<open>
  An attempt that throws inside the \<^verbatim>\<open>try\<close> block and whose pages are closed afterwards:
  the attempts that lead \<open>processCode\<close> to its decision between a retry and giving up.
  \<open>failsBefore browse k\<close>: every attempt before the \<open>k\<close>-th is of this kind.
\<close>

definition retryable :: "attempt_outcome \<Rightarrow> bool" where
  "retryable outcome = (case outcome of Threw message None \<Rightarrow> True | _ \<Rightarrow> False)"

definition failsBefore :: "(nat \<Rightarrow> attempt_outcome) \<Rightarrow> nat \<Rightarrow> bool" where
  "failsBefore browse k = list_all (\<lambda>j. retryable (browse j)) [1..<k]"

text \<open>The delays slept before the \<open>k\<close>-th attempt.\<close>

definition delaysBefore :: "nat \<Rightarrow> nat list" where
  "delaysBefore k = map (\<lambda>attempt. exponentialBackoff attempt RETRY_BASE_DELAY) [1..<k]"

section \<open>Notions used to state the classification properties\<close>

text \<open>
  The item lists of the results that \<open>comparAndMark\<close> keeps (those with the \<open>success\<close>
  flag and with data), in input order; a result whose data has no \<^verbatim>\<open>items\<close> contributes
  \<open>None\<close>.
\<close>

definition successfulItems :: "FileProcessResult list \<Rightarrow> json option list" where
  "successfulItems results =
     List.map_filter (\<lambda>r. if success r then map_option items (data r) else None) results"


text \<open>
  The same environment, except that every extraction result reports the total that \<open>t\<close>
  assigns to its path.
\<close>

definition withTotals :: "(string \<Rightarrow> json option) \<Rightarrow> code_env \<Rightarrow> code_env" where
  "withTotals t env =
     env\<lparr>processFile := (\<lambda>path.
       (processFile env path)\<lparr>data :=
          map_option (\<lambda>d. d\<lparr>total_orden := t path\<rparr>) (data (processFile env path))\<rparr>)\<rparr>"

text \<open>
  The amount of a line as the callback of \<^verbatim>\<open>reduce\<close> computes it when it does not throw: the
  unit price times the quantity, each the number its field converts to (NaN for a field
  that is missing).
\<close>

definition fieldOf :: "json \<Rightarrow> string \<Rightarrow> json option" where
  "fieldOf item key = (case readField (Some item) key of Inr v \<Rightarrow> v | Inl e \<Rightarrow> None)"

definition asNumber :: "json option \<Rightarrow> double" where
  "asNumber v = (case numberOf v of Inr d \<Rightarrow> d | Inl e \<Rightarrow> NaN)"

definition lineAmount :: "json \<Rightarrow> double" where
  "lineAmount item =
     times_double (asNumber (fieldOf item ''precio_unitario'')) (asNumber (fieldOf item ''cantidad''))"

text \<open>An item whose unit price and quantity are the natural numbers \<open>p\<close> and \<open>q\<close>.\<close>

definition naturalLine :: "json \<Rightarrow> nat \<times> nat \<Rightarrow> bool" where
  "naturalLine item pq =
     (fieldOf item ''precio_unitario'' = Some (JNumber (Finite (of_nat (fst pq))))
      \<and> fieldOf item ''cantidad'' = Some (JNumber (Finite (of_nat (snd pq)))))"

section \<open>Notions used to state the statistics\<close>

text \<open>
  The count each of the three files gives: the total written in the file, 0 when there
  is no file, and none when the file does not parse.
\<close>

definition countOfPending :: "data_files \<Rightarrow> nat option" where
  "countOfPending fs =
     (case pendingFile fs of Absent \<Rightarrow> Some 0 | Unparsable \<Rightarrow> None | Holds d \<Rightarrow> Some (totalPending d))"

definition countOfProcessed :: "data_files \<Rightarrow> nat option" where
  "countOfProcessed fs =
     (case processedFile fs of
        Absent \<Rightarrow> Some 0 | Unparsable \<Rightarrow> None | Holds d \<Rightarrow> Some (pr_totalProcessed d))"

definition countOfFailed :: "data_files \<Rightarrow> nat option" where
  "countOfFailed fs =
     (case failedFile fs of Absent \<Rightarrow> Some 0 | Unparsable \<Rightarrow> None | Holds d \<Rightarrow> Some (fd_totalFailed d))"


section \<open>Facts about the store operations\<close>

lemma findIndex_Some:
  "findIndex p xs = Some i \<Longrightarrow> i < length xs \<and> p (xs ! i) \<and> (\<forall>j<i. \<not> p (xs ! j))"
proof (induction xs arbitrary: i)
  case Nil
  then show ?case by simp
next
  case (Cons x xs)
  show ?case
  proof (cases "p x")
    case True
    with Cons.prems show ?thesis by simp
  next
    case False
    with Cons.prems obtain k where k: "findIndex p xs = Some k" "i = Suc k"
      by auto
    from Cons.IH[OF k(1)] False k(2) show ?thesis
      by (auto simp: less_Suc_eq_0_disj)
  qed
qed

lemma findIndex_None: "findIndex p xs = None \<longleftrightarrow> (\<forall>x\<in>set xs. \<not> p x)"
  by (induction xs) auto

lemma markProcessed_twice:
  "markProcessed now' (markProcessed now cp code) code = markProcessed now cp code"
  by (simp add: markProcessed_def cacheOf_def Let_def)

lemma markProcessed_total:
  "totalProcessed (markProcessed now cp code) =
     totalProcessed cp + (if code \<in> cacheOf cp then 0 else 1)"
  by (simp add: markProcessed_def Let_def)

lemma markFailed_existing:
  assumes "findIndex (\<lambda>f. fe_code f = code) (failedCodes cp) = Some i"
  shows "failedCodes (markFailed now cp code error attempts) =
           (failedCodes cp)[i := \<lparr>fe_code = code, fe_error = error, fe_timestamp = now,
                                  fe_attempts = fe_attempts (failedCodes cp ! i) + attempts\<rparr>]"
    and "totalFailed (markFailed now cp code error attempts) = totalFailed cp"
  using assms by (simp_all add: markFailed_def)

lemma markFailed_new:
  assumes "code \<notin> fe_code ` set (failedCodes cp)"
  shows "failedCodes (markFailed now cp code error attempts) =
           failedCodes cp @ [\<lparr>fe_code = code, fe_error = error, fe_timestamp = now,
                               fe_attempts = attempts\<rparr>]"
    and "totalFailed (markFailed now cp code error attempts) = totalFailed cp + 1"
proof -
  from assms have "findIndex (\<lambda>f. fe_code f = code) (failedCodes cp) = None"
    by (auto simp: findIndex_None)
  then show "failedCodes (markFailed now cp code error attempts) =
           failedCodes cp @ [\<lparr>fe_code = code, fe_error = error, fe_timestamp = now,
                               fe_attempts = attempts\<rparr>]"
    and "totalFailed (markFailed now cp code error attempts) = totalFailed cp + 1"
    by (simp_all add: markFailed_def)
qed

lemma markFailed_in_place:
  assumes "code \<in> fe_code ` set (failedCodes cp)"
  shows "\<exists>i < length (failedCodes cp).
           fe_code (failedCodes cp ! i) = code \<and> (\<forall>j<i. fe_code (failedCodes cp ! j) \<noteq> code) \<and>
           failedCodes (markFailed now cp code error attempts) =
             (failedCodes cp)[i := \<lparr>fe_code = code, fe_error = error, fe_timestamp = now,
                                    fe_attempts = fe_attempts (failedCodes cp ! i) + attempts\<rparr>]"
proof -
  from assms have "findIndex (\<lambda>f. fe_code f = code) (failedCodes cp) \<noteq> None"
    by (auto simp: findIndex_None)
  then obtain i where i: "findIndex (\<lambda>f. fe_code f = code) (failedCodes cp) = Some i"
    by auto
  from findIndex_Some[OF i] markFailed_existing(1)[OF i] show ?thesis
    by blast
qed

lemma markFailed_codes_existing:
  assumes "code \<in> fe_code ` set (failedCodes cp)"
  shows "map fe_code (failedCodes (markFailed now cp code error attempts)) = map fe_code (failedCodes cp)"
proof -
  from markFailed_in_place[OF assms, of now error attempts]
  obtain i where "i < length (failedCodes cp)" "fe_code (failedCodes cp ! i) = code"
    "failedCodes (markFailed now cp code error attempts) =
       (failedCodes cp)[i := \<lparr>fe_code = code, fe_error = error, fe_timestamp = now,
                              fe_attempts = fe_attempts (failedCodes cp ! i) + attempts\<rparr>]"
    by blast
  then show ?thesis
    by (simp add: map_update list_update_same_conv)
qed
section \<open>Facts about the session scraper\<close>

lemma showNat_MAX: "showNat MAX_RETRIES = ''3''"
  by (subst showNat.simps) (simp add: MAX_RETRIES_def)

lemma processCode_ends:
  "browse a = PageNotOpened m \<Longrightarrow> processCode browse code a = ([], Inl (Error m))"
  "browse a = Threw m' (Some m) \<Longrightarrow> processCode browse code a = ([], Inl (Error m))"
  "browse a = NavigationFailed \<Longrightarrow>
     processCode browse code a =
       ([], Inr \<lparr>dr_code = code, dr_success = False, pdfCount = 0,
                 dr_error = Some ''Failed to navigate to purchase order'', directory = None\<rparr>)"
  "browse a = NoAttachmentsPopup reportDownloaded \<Longrightarrow>
     processCode browse code a =
       ([], Inr \<lparr>dr_code = code, dr_success = True, pdfCount = (if reportDownloaded then 1 else 0),
                 dr_error = None, directory = Some (getCodeDirectory code)\<rparr>)"
  "browse a = AttachmentsDownloaded reportDownloaded n \<Longrightarrow>
     processCode browse code a =
       ([], Inr \<lparr>dr_code = code, dr_success = True,
                 pdfCount = (if reportDownloaded then 1 else 0) + n,
                 dr_error = None, directory = Some (getCodeDirectory code)\<rparr>)"
  by (subst processCode.simps, simp)+

lemma processCode_retry:
  assumes "browse a = Threw m None" "a < MAX_RETRIES"
  shows "processCode browse code a =
           (exponentialBackoff a RETRY_BASE_DELAY # fst (processCode browse code (a + 1)),
            snd (processCode browse code (a + 1)))"
  using assms by (subst processCode.simps) (simp add: case_prod_beta)

lemma processCode_give_up:
  assumes "browse a = Threw m None" "\<not> a < MAX_RETRIES"
  shows "processCode browse code a =
           ([], Inr \<lparr>dr_code = code, dr_success = False, pdfCount = 0,
                     dr_error = Some (''Failed after 3 attempts: '' @ m), directory = None\<rparr>)"
  using assms by (subst processCode.simps) (simp add: showNat_MAX)

lemma retryable_iff: "retryable outcome \<longleftrightarrow> (\<exists>m. outcome = Threw m None)"
  by (auto simp: retryable_def split: attempt_outcome.splits option.splits)

text \<open>
  After attempts that all throw and are cleaned up, \<open>processCode\<close> has slept once per
  attempt and goes on as the call for the next attempt does.
\<close>

lemma processCode_after_throws:
  assumes "list_all (\<lambda>j. retryable (browse j)) [a..<k]" "k \<le> MAX_RETRIES" "a \<le> k"
  shows "processCode browse code a =
           (map (\<lambda>attempt. exponentialBackoff attempt RETRY_BASE_DELAY) [a..<k]
              @ fst (processCode browse code k),
            snd (processCode browse code k))"
  using assms
proof (induction "k - a" arbitrary: a)
  case 0
  then have "a = k"
    by simp
  then show ?case by simp
next
  case (Suc d)
  then have less: "a < k"
    by simp
  then have range: "[a..<k] = a # [Suc a..<k]"
    by (simp add: upt_conv_Cons)
  with Suc.prems(1) obtain m where m: "browse a = Threw m None"
    by (auto simp: retryable_iff)
  from Suc.prems(1) range have rest: "list_all (\<lambda>j. retryable (browse j)) [Suc a..<k]"
    by simp
  from Suc.hyps(2) have "d = k - Suc a"
    by simp
  moreover from less have "Suc a \<le> k"
    by simp
  ultimately have IH: "processCode browse code (Suc a) =
           (map (\<lambda>attempt. exponentialBackoff attempt RETRY_BASE_DELAY) [Suc a..<k]
              @ fst (processCode browse code k),
            snd (processCode browse code k))"
    using Suc.hyps(1)[of "Suc a"] rest Suc.prems(2) by simp
  from less Suc.prems(2) have "a < MAX_RETRIES"
    by simp
  from processCode_retry[where browse=browse and code=code, OF m this] IH range
  show ?case by simp
qed

lemma processCode_from_first:
  assumes "failsBefore browse k" "k \<le> MAX_RETRIES" "1 \<le> k"
  shows "processCode browse code 1 =
           (delaysBefore k @ fst (processCode browse code k), snd (processCode browse code k))"
  using processCode_after_throws[where a=1 and browse=browse and k=k and code=code] assms
  by (simp add: failsBefore_def delaysBefore_def)

lemma failsBefore_cong:
  assumes "\<And>j. j < k \<Longrightarrow> browse' j = browse j"
  shows "failsBefore browse' k = failsBefore browse k"
  using assms by (simp add: failsBefore_def list_all_iff)

text \<open>What the job of \<open>main\<close> does with the result of \<open>processCode\<close>.\<close>

lemma processJob_rejects:
  assumes "fresh args \<or> code \<notin> cacheOf (checkpoint s)"
      and "snd (processCode (browse code) code 1) = Inl e"
  shows "processJob now args browse s code = Inl e"
  using assms by (auto simp: processJob_def isProcessed_def Let_def)

lemma processJob_run:
  assumes "fresh args \<or> code \<notin> cacheOf (checkpoint s)"
      and "snd (processCode (browse code) code 1) = Inr result"
  shows "\<exists>s'. processJob now args browse s code = Inr (s', Some result)
           \<and> failedCodes (checkpoint s') =
               (if dr_success result then failedCodes (checkpoint s)
                else failedCodes (markFailed now (checkpoint s) code
                                    (orElse (dr_error result) ''Unknown error'') 1))
           \<and> totalFailed (checkpoint s') =
               (if dr_success result then totalFailed (checkpoint s)
                else totalFailed (markFailed now (checkpoint s) code
                                    (orElse (dr_error result) ''Unknown error'') 1))
           \<and> processedCodes (checkpoint s') =
               (if dr_success result then processedCodes (markProcessed now (checkpoint s) code)
                else processedCodes (checkpoint s))
           \<and> totalProcessed (checkpoint s') =
               (if dr_success result then totalProcessed (markProcessed now (checkpoint s) code)
                else totalProcessed (checkpoint s))
           \<and> reg_codes (registry s') =
               (if dr_success result then reg_codes (addToScrapedRegistry now (registry s) code)
                else reg_codes (registry s))
           \<and> failedCount s' = failedCount s + (if dr_success result then 0 else 1)
           \<and> succeededCount s' = succeededCount s + (if dr_success result then 1 else 0)
           \<and> cacheOf (checkpoint s') =
               (if dr_success result then insert code (cacheOf (checkpoint s))
                else cacheOf (checkpoint s))"
  using assms
  by (auto simp: processJob_def isProcessed_def Let_def saveScrapedCodesRegistry_def
      markFailed_def markProcessed_def cacheOf_def split: option.splits)

lemma processCode_three_throws:
  assumes "browse 1 = Threw m1 None" "browse 2 = Threw m2 None" "browse 3 = Threw m3 None"
  shows "processCode browse code 1 =
           ([4000, 8000],
            Inr \<lparr>dr_code = code, dr_success = False, pdfCount = 0,
                  dr_error = Some (''Failed after 3 attempts: '' @ m3), directory = None\<rparr>)"
proof -
  have third: "processCode browse code 3 =
           ([], Inr \<lparr>dr_code = code, dr_success = False, pdfCount = 0,
             dr_error = Some (''Failed after 3 attempts: '' @ m3), directory = None\<rparr>)"
    by (rule processCode_give_up[where browse=browse and a=3, OF assms(3)]) (simp add: MAX_RETRIES_def)
  have "2 < MAX_RETRIES" "1 < MAX_RETRIES"
    by (simp_all add: MAX_RETRIES_def)
  note steps = processCode_retry[where browse=browse and code=code, OF assms(2) this(1)]
    processCode_retry[where browse=browse and code=code, OF assms(1) this(2)]
  have second: "processCode browse code 2 =
           ([8000], Inr \<lparr>dr_code = code, dr_success = False, pdfCount = 0,
             dr_error = Some (''Failed after 3 attempts: '' @ m3), directory = None\<rparr>)"
    using steps(1) third by (simp add: exponentialBackoff_def RETRY_BASE_DELAY_def)
  have "(1::nat) + 1 = 2"
    by simp
  with steps(2) have "processCode browse code 1 =
          (exponentialBackoff 1 RETRY_BASE_DELAY # fst (processCode browse code 2),
            snd (processCode browse code 2))"
    by (simp only:)
  then show ?thesis
    unfolding second by (simp add: exponentialBackoff_def RETRY_BASE_DELAY_def)
qed

text \<open>
  When the page of an attempt cannot be opened, or the pages of an attempt that threw
  cannot be closed, \<open>processCode\<close> rejects at that attempt, and so does the job: no later
  attempt is made and nothing is marked.
\<close>

lemma processCode_rejects:
  assumes "1 \<le> k" "k \<le> MAX_RETRIES" "failsBefore browse k"
      and "browse k = PageNotOpened m \<or> browse k = Threw m' (Some m)"
  shows "processCode browse code 1 = (delaysBefore k, Inl (Error m))"
proof -
  from assms(4) have "processCode browse code k = ([], Inl (Error m))"
    using processCode_ends(1,2)[where browse=browse and a=k and code=code] by blast
  with processCode_from_first[OF assms(3,2,1), of code] show ?thesis
    by simp
qed

lemma processJob_rejects_at:
  assumes "1 \<le> k" "k \<le> MAX_RETRIES" "failsBefore (browse code) k"
      and "browse code k = PageNotOpened m \<or> browse code k = Threw m' (Some m)"
      and "fresh args \<or> code \<notin> cacheOf (checkpoint s)"
  shows "processJob now args browse s code = Inl (Error m)"
  using processCode_rejects[OF assms(1-4), of code] processJob_rejects[OF assms(5)]
  by simp


section \<open>The matcher decides membership in the language of a pattern\<close>

lemma conc_iff: "w \<in> conc A B \<longleftrightarrow> (\<exists>u v. w = u @ v \<and> u \<in> A \<and> v \<in> B)"
  by (auto simp: conc_def)

lemma conc_Nil_iff: "[] \<in> conc A B \<longleftrightarrow> [] \<in> A \<and> [] \<in> B"
  by (auto simp: conc_def)

lemma conc_Cons_iff:
  "c # w \<in> conc A B \<longleftrightarrow>
     ([] \<in> A \<and> c # w \<in> B) \<or> (\<exists>u v. w = u @ v \<and> c # u \<in> A \<and> v \<in> B)"
proof
  assume "c # w \<in> conc A B"
  then obtain x y where xy: "c # w = x @ y" "x \<in> A" "y \<in> B"
    by (auto simp: conc_def)
  show "([] \<in> A \<and> c # w \<in> B) \<or> (\<exists>u v. w = u @ v \<and> c # u \<in> A \<and> v \<in> B)"
  proof (cases x)
    case Nil
    with xy show ?thesis by simp
  next
    case (Cons a u)
    with xy have "w = u @ y" "c # u \<in> A"
      by simp_all
    with xy(3) show ?thesis by blast
  qed
next
  assume "([] \<in> A \<and> c # w \<in> B) \<or> (\<exists>u v. w = u @ v \<and> c # u \<in> A \<and> v \<in> B)"
  then show "c # w \<in> conc A B"
  proof
    assume "[] \<in> A \<and> c # w \<in> B"
    then have "[] @ (c # w) \<in> conc A B"
      unfolding conc_def by blast
    then show ?thesis by simp
  next
    assume "\<exists>u v. w = u @ v \<and> c # u \<in> A \<and> v \<in> B"
    then obtain u v where "w = u @ v" "c # u \<in> A" "v \<in> B"
      by blast
    then have "(c # u) @ v \<in> conc A B"
      unfolding conc_def by blast
    moreover from \<open>w = u @ v\<close> have "c # w = (c # u) @ v"
      by simp
    ultimately show ?thesis by (simp only:)
  qed
qed

lemma star_Cons_split:
  assumes "x \<in> star A" "x = c # w"
  shows "\<exists>u v. w = u @ v \<and> c # u \<in> A \<and> v \<in> star A"
  using assms
proof (induction rule: star.induct)
  case star_empty
  then show ?case by simp
next
  case (star_more u v)
  show ?case
  proof (cases u)
    case Nil
    with star_more show ?thesis by simp
  next
    case (Cons a u')
    with star_more.prems have "w = u' @ v" "a = c"
      by simp_all
    with Cons star_more.hyps(1,2) show ?thesis by blast
  qed
qed

lemma star_Cons_iff:
  "c # w \<in> star A \<longleftrightarrow> (\<exists>u v. w = u @ v \<and> c # u \<in> A \<and> v \<in> star A)"
proof
  assume "c # w \<in> star A"
  then show "\<exists>u v. w = u @ v \<and> c # u \<in> A \<and> v \<in> star A"
    by (rule star_Cons_split) simp
next
  assume "\<exists>u v. w = u @ v \<and> c # u \<in> A \<and> v \<in> star A"
  then obtain u v where "w = u @ v" "c # u \<in> A" "v \<in> star A"
    by blast
  from this(2,3) have "(c # u) @ v \<in> star A"
    by (rule star_more)
  moreover from \<open>w = u @ v\<close> have "c # w = (c # u) @ v"
    by simp
  ultimately show "c # w \<in> star A" by (simp only:)
qed

lemma nullable_iff: "nullable r \<longleftrightarrow> [] \<in> lang r"
  by (induction r) (auto simp: conc_Nil_iff star_empty)

lemma lang_deriv: "w \<in> lang (deriv c r) \<longleftrightarrow> c # w \<in> lang r"
proof (induction r arbitrary: w)
  case (Seq r s)
  have "w \<in> conc (lang (deriv c r)) (lang s) \<longleftrightarrow>
          (\<exists>u v. w = u @ v \<and> c # u \<in> lang r \<and> v \<in> lang s)"
    by (simp add: conc_iff Seq.IH(1))
  then show ?case
    by (auto simp: conc_Cons_iff nullable_iff Seq.IH(2))
next
  case (Star r)
  have "w \<in> conc (lang (deriv c r)) (star (lang r)) \<longleftrightarrow>
          (\<exists>u v. w = u @ v \<and> c # u \<in> lang r \<and> v \<in> star (lang r))"
    by (simp add: conc_iff Star.IH)
  then show ?case
    by (simp add: star_Cons_iff)
qed auto

lemma regex_test_iff: "regex_test r s \<longleftrightarrow> s \<in> lang r"
  unfolding regex_test_def
  by (induction s arbitrary: r) (simp_all add: nullable_iff lang_deriv)

section \<open>The languages of the two code patterns\<close>

lemma lang_lit: "lang (lit c) = {[c]}"
  by (auto simp: lit_def)

lemma lang_digit: "lang digit = {[c] | c. isDigit c}"
  by (simp add: digit_def isDigit_def)

lemma lang_upper: "lang upper = {[c] | c. isUpper c}"
  by (simp add: upper_def isUpper_def)

lemma lang_repeatExactly:
  assumes "lang r = {[c] | c. P c}"
  shows "lang (repeatExactly n r) = {w. length w = n \<and> (\<forall>c \<in> set w. P c)}"
proof (induction n)
  case 0
  then show ?case by auto
next
  case (Suc n)
  show ?case
  proof (intro set_eqI iffI)
    fix w
    assume "w \<in> lang (repeatExactly (Suc n) r)"
    then obtain c v where "w = [c] @ v" "P c" "v \<in> lang (repeatExactly n r)"
      using assms by (auto simp: conc_def)
    with Suc show "w \<in> {w. length w = Suc n \<and> (\<forall>c \<in> set w. P c)}"
      by simp
  next
    fix w
    assume "w \<in> {w. length w = Suc n \<and> (\<forall>c \<in> set w. P c)}"
    then obtain c v where w: "w = c # v" "P c" "length v = n" "\<forall>c \<in> set v. P c"
      by (cases w) auto
    then have "[c] \<in> lang r" "v \<in> lang (repeatExactly n r)"
      using assms Suc by auto
    then have "[c] @ v \<in> conc (lang r) (lang (repeatExactly n r))"
      unfolding conc_def by blast
    with w(1) show "w \<in> lang (repeatExactly (Suc n) r)"
      by simp
  qed
qed

lemma lang_repeatUpTo:
  assumes "lang r = {[c] | c. P c}"
  shows "lang (repeatUpTo n r) = {w. length w \<le> n \<and> (\<forall>c \<in> set w. P c)}"
proof (induction n)
  case 0
  then show ?case by auto
next
  case (Suc n)
  show ?case
  proof (intro set_eqI iffI)
    fix w
    assume "w \<in> lang (repeatUpTo (Suc n) r)"
    then consider "w = []" | c v where "w = [c] @ v" "P c" "v \<in> lang (repeatUpTo n r)"
      using assms by (auto simp: conc_def)
    then show "w \<in> {w. length w \<le> Suc n \<and> (\<forall>c \<in> set w. P c)}"
      using Suc by cases auto
  next
    fix w
    assume mem: "w \<in> {w. length w \<le> Suc n \<and> (\<forall>c \<in> set w. P c)}"
    show "w \<in> lang (repeatUpTo (Suc n) r)"
    proof (cases w)
      case Nil
      then show ?thesis by simp
    next
      case (Cons c v)
      with mem have "[c] \<in> lang r" "v \<in> lang (repeatUpTo n r)"
        using assms Suc by auto
      then have "[c] @ v \<in> conc (lang r) (lang (repeatUpTo n r))"
        unfolding conc_def by blast
      with Cons show ?thesis by simp
    qed
  qed
qed

lemma lang_repeatBetween:
  assumes "lang r = {[c] | c. P c}" "m \<le> n"
  shows "lang (repeatBetween m n r) = {w. m \<le> length w \<and> length w \<le> n \<and> (\<forall>c \<in> set w. P c)}"
proof (intro set_eqI iffI)
  fix w
  assume "w \<in> lang (repeatBetween m n r)"
  then obtain u v where "w = u @ v" "length u = m" "\<forall>c \<in> set u. P c"
    "length v \<le> n - m" "\<forall>c \<in> set v. P c"
    by (auto simp: repeatBetween_def conc_def lang_repeatExactly[OF assms(1)] lang_repeatUpTo[OF assms(1)])
  with assms(2) show "w \<in> {w. m \<le> length w \<and> length w \<le> n \<and> (\<forall>c \<in> set w. P c)}"
    by auto
next
  fix w
  assume mem: "w \<in> {w. m \<le> length w \<and> length w \<le> n \<and> (\<forall>c \<in> set w. P c)}"
  then have "take m w \<in> lang (repeatExactly m r)" "drop m w \<in> lang (repeatUpTo (n - m) r)"
    by (auto simp: lang_repeatExactly[OF assms(1)] lang_repeatUpTo[OF assms(1)]
        dest: in_set_takeD in_set_dropD)
  then have "take m w @ drop m w \<in> conc (lang (repeatExactly m r)) (lang (repeatUpTo (n - m) r))"
    unfolding conc_def by blast
  then show "w \<in> lang (repeatBetween m n r)"
    by (simp add: repeatBetween_def)
qed
section \<open>Facts about the numbers\<close>

text \<open>An integer of magnitude up to \<open>2 ^ 53\<close> is a double: rounding leaves it as it is.\<close>

lemma pow2_pos: "0 < pow2 e"
  by (simp add: pow2_def)

lemma roundHalfEven_of_int: "roundHalfEven (of_int n) = n"
  by (simp add: roundHalfEven_def)

lemma roundDouble_exact:
  assumes "x / pow2 (max (floorLog2 \<bar>x\<bar>) (- 1022) - 52) = of_int n" "\<bar>x\<bar> < pow2 1024"
  shows "roundDouble x = Finite x"
proof (cases "x = 0")
  case True
  then show ?thesis by (simp add: roundDouble_def)
next
  case False
  let ?ulp = "pow2 (max (floorLog2 \<bar>x\<bar>) (- 1022) - 52)"
  have "?ulp \<noteq> 0"
    using pow2_pos[of "max (floorLog2 \<bar>x\<bar>) (- 1022) - 52"] by simp
  with assms(1) have "of_int n * ?ulp = x"
    by (simp add: field_simps)
  with False assms show ?thesis
    by (simp add: roundDouble_def Let_def roundHalfEven_of_int)
qed

lemma floorLog2_of_int: "1 \<le> n \<Longrightarrow> floorLog2 (of_int n) = bitlen n - 1"
  by (simp add: floorLog2_def)

lemma roundDouble_of_int:
  assumes "\<bar>k\<bar> \<le> 2 ^ 53"
  shows "roundDouble (of_int k) = Finite (of_int k)"
proof (cases "k = 0")
  case True
  then show ?thesis by (simp add: roundDouble_def)
next
  case False
  define b where "b = bitlen \<bar>k\<bar>"
  from False have pos: "0 < \<bar>k\<bar>" "1 \<le> \<bar>k\<bar>"
    by simp_all
  from bitlen_bounds[OF pos(1)] have low: "2 ^ nat (b - 1) \<le> \<bar>k\<bar>"
    by (simp add: b_def)
  from pos(1) have b1: "1 \<le> b"
    unfolding b_def using bitlen_eq_zero_iff[of "\<bar>k\<bar>"] bitlen_nonneg[of "\<bar>k\<bar>"] by linarith
  have b54: "b \<le> 54"
  proof (rule ccontr)
    assume "\<not> b \<le> 54"
    then have "54 \<le> nat (b - 1)"
      by simp
    then have "(2::int) ^ 54 \<le> 2 ^ nat (b - 1)"
      by (intro power_increasing) simp_all
    with low assms show False
      by simp
  qed
  have abs: "\<bar>rat_of_int k\<bar> = of_int \<bar>k\<bar>"
    by simp
  have e: "max (floorLog2 \<bar>rat_of_int k\<bar>) (- 1022) - 52 = b - 53"
    unfolding abs floorLog2_of_int[OF pos(2)] using b1 by (simp add: b_def)
  have bound: "\<bar>rat_of_int k\<bar> < pow2 1024"
  proof -
    have "\<bar>rat_of_int k\<bar> \<le> 2 ^ 53"
      unfolding abs using assms by (metis of_int_le_iff of_int_numeral of_int_power)
    also have "\<dots> < pow2 1024"
      by (simp add: pow2_def)
    finally show ?thesis .
  qed
  have "\<exists>n. rat_of_int k / pow2 (b - 53) = of_int n"
  proof (cases "b \<le> 53")
    case True
    then have "pow2 (b - 53) = 1 / 2 ^ nat (53 - b)"
      by (cases "b = 53") (simp_all add: pow2_def)
    then have "rat_of_int k / pow2 (b - 53) = of_int (k * 2 ^ nat (53 - b))"
      by simp
    then show ?thesis ..
  next
    case False
    with b54 have b: "b = 54"
      by simp
    with low assms have "\<bar>k\<bar> = 2 ^ 53"
      by simp
    then have "k = 2 ^ 53 \<or> k = - (2 ^ 53)"
      by linarith
    then have "rat_of_int k / pow2 (b - 53) = of_int (k div 2)"
      unfolding b by (auto simp: pow2_def)
    then show ?thesis ..
  qed
  then obtain n where "rat_of_int k / pow2 (max (floorLog2 \<bar>rat_of_int k\<bar>) (- 1022) - 52) = of_int n"
    unfolding e ..
  from roundDouble_exact[OF this bound] show ?thesis .
qed


lemma roundDouble_of_nat:
  assumes "n \<le> 2 ^ 53"
  shows "roundDouble (of_nat n) = Finite (of_nat n)"
proof -
  from assms have "int n \<le> 2 ^ 53"
    by (metis of_nat_le_iff of_nat_numeral of_nat_power)
  then have "\<bar>int n\<bar> \<le> 2 ^ 53"
    by simp
  from roundDouble_of_int[OF this] show ?thesis
    by simp
qed

lemma plus_double_exact:
  assumes "a + b \<le> 2 ^ 53"
  shows "plus_double (Finite (of_nat a)) (Finite (of_nat b)) = Finite (of_nat (a + b))"
  using roundDouble_of_nat[OF assms] by simp

lemma times_double_exact:
  assumes "a * b \<le> 2 ^ 53"
  shows "times_double (Finite (of_nat a)) (Finite (of_nat b)) = Finite (of_nat (a * b))"
  using roundDouble_of_nat[OF assms] by simp

lemma numberOfCount_exact: "n \<le> 2 ^ 53 \<Longrightarrow> numberOfCount n = Finite (of_nat n)"
  by (simp add: numberOfCount_def roundDouble_of_nat)

lemma roundDouble_not_NaN: "roundDouble x \<noteq> NaN"
  by (simp add: roundDouble_def Let_def)

lemma times_hundred_not_NaN: "times_double (roundDouble x) (Finite 100) \<noteq> NaN"
  by (cases "roundDouble x") (simp_all add: roundDouble_not_NaN)






section \<open>A fetch that succeeds with no documents\<close>

lemma processSingleCode_no_files:
  assumes "scraper env = Reported True scraperError" "dirExists env" "dirFiles env = []"
  shows "processSingleCode now env code =
           \<lparr>res_success = False, res_order = None, res_error = Some ''No files downloaded''\<rparr>"
  using assms by (simp add: processSingleCode_def failure_def)

lemma batchStep_failure:
  assumes "processSingleCode now (env code) code =
             \<lparr>res_success = False, res_order = None, res_error = Some e\<rparr>" "e \<noteq> []"
  shows "batchStep now env run code =
           (case addFailedCode now code e (files run) of
              Inl err \<Rightarrow> Inl err
            | Inr fs \<Rightarrow> Inr (run\<lparr>files := fs, failedNow := failedNow run @ [code]\<rparr>))"
  using assms by (simp add: batchStep_def orElse_def)

lemma addFailedCode_records:
  assumes "loadFailed now fs = Inr failed"
  shows "\<exists>fs' failed'. addFailedCode now code e fs = Inr fs' \<and> loadFailed now fs' = Inr failed'
           \<and> code \<in> fc_code ` set (fd_codes failed')
           \<and> processedFile fs' = processedFile fs \<and> pendingFile fs' = pendingFile fs"
proof (cases "findIndex (\<lambda>f. fc_code f = code) (fd_codes failed)")
  case None
  with assms show ?thesis
    by (simp add: addFailedCode_def saveFailed_def loadFailed_def)
next
  case (Some i)
  from findIndex_Some[OF Some] have i: "i < length (fd_codes failed)" "fc_code (fd_codes failed ! i) = code"
    by simp_all
  let ?entry = "(fd_codes failed ! i)\<lparr>fc_attempts := fc_attempts (fd_codes failed ! i) + 1,
                                        fc_error := e, lastAttempt := now\<rparr>"
  have "?entry \<in> set ((fd_codes failed)[i := ?entry])"
    using i(1) by (simp add: set_update_memI)
  moreover have "fc_code ?entry = code"
    using i(2) by simp
  ultimately have "code \<in> fc_code ` set ((fd_codes failed)[i := ?entry])"
    by (metis imageI)
  with assms Some show ?thesis
    by (simp add: addFailedCode_def saveFailed_def loadFailed_def)
qed

text \<open>
  Claim C1, as stated, fails in the batch orchestrator: the scraper reports success, the
  download directory exists and is empty; \<open>processSingleCode\<close> returns a failure and the
  loop of \<open>main\<close> adds the code to the failed store, not to the processed store.
\<close>

theorem zero_files_recorded_as_failure:
  "batchStep ''2025-12-15T11:00:00Z''
     (\<lambda>code. \<lparr>scraper = Reported True None, dirExists = True, dirFiles = [],
               processFile = (\<lambda>path. \<lparr>filename = path, success = False, data = None,
                                         fpr_error = None\<rparr>)\<rparr>)
     \<lparr>files = \<lparr>pendingFile = Absent, processedFile = Absent, failedFile = Absent\<rparr>,
      processedNow = [], failedNow = []\<rparr>
     ''3506-434-SE25''
   = Inr \<lparr>files =
            \<lparr>pendingFile = Absent, processedFile = Absent,
             failedFile = Holds
               \<lparr>fd_codes = [\<lparr>fc_code = ''3506-434-SE25'', fc_error = ''No files downloaded'',
                              fc_attempts = 1, lastAttempt = ''2025-12-15T11:00:00Z''\<rparr>],
                fd_totalFailed = 1, fd_lastUpdated = ''2025-12-15T11:00:00Z''\<rparr>\<rparr>,
          processedNow = [], failedNow = [''3506-434-SE25'']\<rparr>"
  by (simp add: batchStep_def processSingleCode_def failure_def orElse_def addFailedCode_def
      loadFailed_def saveFailed_def)

text \<open>
  Claim C1, amended. In the session scraper, a fetch that completes with no document is
  a terminal success, on whichever attempt it completes: when the attempts before the
  \<open>k\<close>-th threw and were retried and the \<open>k\<close>-th meets no attachments popup and no report
  (or a popup with nothing downloaded), \<open>processCode\<close> returns at once with success and 0
  PDFs and no error, having slept only before that attempt; it makes no further
  attempt, whatever one would meet. Whenever \<open>processCode\<close> returns a success with 0
  PDFs, the job marks the code processed (it is in the cache afterwards, and is
  appended to the processed codes when the cache did not hold it) and adds it to the
  registry; the failed store, \<open>totalFailed\<close> and the run's count of failures stay as they
  were, and the count of successes goes up by one. In the batch orchestrator, a code
  whose scraper run reports success but whose download directory holds no file is a
  failure: \<open>processSingleCode\<close> returns \<open>No files downloaded\<close>, and the loop of \<open>main\<close>
  records the code in the failed store and lists it among the run's failed codes,
  leaving the processed file untouched.
\<close>

theorem zero_documents_outcome:
  "(1 \<le> k \<and> k \<le> MAX_RETRIES \<and> failsBefore (browse code) k
      \<and> (browse code k = NoAttachmentsPopup False \<or> browse code k = AttachmentsDownloaded False 0)
      \<longrightarrow>
        processCode (browse code) code 1 =
          (delaysBefore k,
           Inr \<lparr>dr_code = code, dr_success = True, pdfCount = 0, dr_error = None,
                 directory = Some (getCodeDirectory code)\<rparr>)
      \<and> (\<forall>later. processCode (\<lambda>attempt. if attempt \<le> k then browse code attempt else later attempt)
                     code 1 = processCode (browse code) code 1))
   \<and> (snd (processCode (browse code) code 1) = Inr result \<and> dr_success result \<and> pdfCount result = 0
      \<and> (fresh args \<or> code \<notin> cacheOf (checkpoint s)) \<longrightarrow>
        (\<exists>s'. processJob now args browse s code = Inr (s', Some result)
            \<and> code \<in> cacheOf (checkpoint s')
            \<and> (code \<notin> cacheOf (checkpoint s) \<longrightarrow>
                 processedCodes (checkpoint s') = processedCodes (checkpoint s) @ [code])
            \<and> code \<in> set (reg_codes (registry s'))
            \<and> failedCodes (checkpoint s') = failedCodes (checkpoint s)
            \<and> totalFailed (checkpoint s') = totalFailed (checkpoint s)
            \<and> failedCount s' = failedCount s
            \<and> succeededCount s' = succeededCount s + 1))
   \<and> (scraper (env code) = Reported True scraperError \<and> dirExists (env code)
        \<and> dirFiles (env code) = [] \<longrightarrow>
        processSingleCode now (env code) code =
          \<lparr>res_success = False, res_order = None, res_error = Some ''No files downloaded''\<rparr>
      \<and> batchStep now env run code =
          (case addFailedCode now code ''No files downloaded'' (files run) of
             Inl err \<Rightarrow> Inl err
           | Inr fs \<Rightarrow> Inr (run\<lparr>files := fs, failedNow := failedNow run @ [code]\<rparr>))
      \<and> (\<forall>failed. loadFailed now (files run) = Inr failed \<longrightarrow>
           (\<exists>run' failed'. batchStep now env run code = Inr run'
              \<and> loadFailed now (files run') = Inr failed'
              \<and> code \<in> fc_code ` set (fd_codes failed')
              \<and> processedFile (files run') = processedFile (files run)
              \<and> processedNow run' = processedNow run
              \<and> failedNow run' = failedNow run @ [code])))"
proof (intro conjI impI; (elim conjE)?)
  let ?result = "\<lparr>dr_code = code, dr_success = True, pdfCount = 0, dr_error = None,
                directory = Some (getCodeDirectory code)\<rparr>"
  assume k: "1 \<le> k" "k \<le> MAX_RETRIES" and before: "failsBefore (browse code) k"
    and pass: "browse code k = NoAttachmentsPopup False \<or> browse code k = AttachmentsDownloaded False 0"
  have last: "processCode b code k = ([], Inr ?result)" if "b k = browse code k" for b
    using pass
  proof
    assume "browse code k = NoAttachmentsPopup False"
    with that have "b k = NoAttachmentsPopup False"
      by simp
    from processCode_ends(4)[where browse=b and code=code, OF this]
    show ?thesis by simp
  next
    assume "browse code k = AttachmentsDownloaded False 0"
    with that have "b k = AttachmentsDownloaded False 0"
      by simp
    from processCode_ends(5)[where browse=b and code=code, OF this]
    show ?thesis by simp
  qed
  have whole: "processCode b code 1 = (delaysBefore k, Inr ?result)"
    if "\<And>j. j \<le> k \<Longrightarrow> b j = browse code j" for b
  proof -
    from that have "failsBefore b k = failsBefore (browse code) k"
      by (intro failsBefore_cong) simp
    with before have "failsBefore b k"
      by simp
    from processCode_from_first[OF this k(2) k(1), of code] last[of b] that
    show ?thesis by simp
  qed
  show first: "processCode (browse code) code 1 = (delaysBefore k, Inr ?result)"
    by (rule whole) simp
  show "\<forall>later. processCode (\<lambda>attempt. if attempt \<le> k then browse code attempt else later attempt)
                     code 1 = processCode (browse code) code 1"
    unfolding first by (intro allI whole) simp
next
  assume result: "snd (processCode (browse code) code 1) = Inr result"
    and success: "dr_success result"
    and run: "fresh args \<or> code \<notin> cacheOf (checkpoint s)"
  from processJob_run[where browse=browse and code=code and now=now, OF run result] success
  obtain s' where job: "processJob now args browse s code = Inr (s', Some result)"
    "failedCodes (checkpoint s') = failedCodes (checkpoint s)"
    "totalFailed (checkpoint s') = totalFailed (checkpoint s)"
    "processedCodes (checkpoint s') = processedCodes (markProcessed now (checkpoint s) code)"
    "reg_codes (registry s') = reg_codes (addToScrapedRegistry now (registry s) code)"
    "failedCount s' = failedCount s" "succeededCount s' = succeededCount s + 1"
    "cacheOf (checkpoint s') = insert code (cacheOf (checkpoint s))"
    by auto
  have "code \<notin> cacheOf (checkpoint s) \<longrightarrow>
          processedCodes (checkpoint s') = processedCodes (checkpoint s) @ [code]"
    using job(4) by (simp add: markProcessed_def)
  moreover have "code \<in> set (reg_codes (registry s'))"
    using job(5) by (simp add: addToScrapedRegistry_def)
  moreover have "code \<in> cacheOf (checkpoint s')"
    using job(8) by simp
  ultimately show "\<exists>s'. processJob now args browse s code = Inr (s', Some result)
            \<and> code \<in> cacheOf (checkpoint s')
            \<and> (code \<notin> cacheOf (checkpoint s) \<longrightarrow>
                 processedCodes (checkpoint s') = processedCodes (checkpoint s) @ [code])
            \<and> code \<in> set (reg_codes (registry s'))
            \<and> failedCodes (checkpoint s') = failedCodes (checkpoint s)
            \<and> totalFailed (checkpoint s') = totalFailed (checkpoint s)
            \<and> failedCount s' = failedCount s
            \<and> succeededCount s' = succeededCount s + 1"
    using job(1,2,3,6,7) by blast
next
  assume env: "scraper (env code) = Reported True scraperError" "dirExists (env code)"
    "dirFiles (env code) = []"
  note single = processSingleCode_no_files[OF env, of now code]
  note step = batchStep_failure[where env=env and code=code and run=run, OF single, simplified]
  show "processSingleCode now (env code) code =
          \<lparr>res_success = False, res_order = None, res_error = Some ''No files downloaded''\<rparr>"
    by (rule single)
  show "batchStep now env run code =
          (case addFailedCode now code ''No files downloaded'' (files run) of
             Inl err \<Rightarrow> Inl err
           | Inr fs \<Rightarrow> Inr (run\<lparr>files := fs, failedNow := failedNow run @ [code]\<rparr>))"
    by (rule step)
  show "\<forall>failed. loadFailed now (files run) = Inr failed \<longrightarrow>
           (\<exists>run' failed'. batchStep now env run code = Inr run'
              \<and> loadFailed now (files run') = Inr failed'
              \<and> code \<in> fc_code ` set (fd_codes failed')
              \<and> processedFile (files run') = processedFile (files run)
              \<and> processedNow run' = processedNow run
              \<and> failedNow run' = failedNow run @ [code])"
  proof (intro allI impI)
    fix failed
    assume "loadFailed now (files run) = Inr failed"
    from addFailedCode_records[OF this, of code "''No files downloaded''"]
    obtain fs' failed' where rec: "addFailedCode now code ''No files downloaded'' (files run) = Inr fs'"
      "loadFailed now fs' = Inr failed'" "code \<in> fc_code ` set (fd_codes failed')"
      "processedFile fs' = processedFile (files run)"
      by blast
    let ?run' = "run\<lparr>files := fs', failedNow := failedNow run @ [code]\<rparr>"
    have "batchStep now env run code = Inr ?run'"
      unfolding step rec(1) by simp
    with rec show "\<exists>run' failed'. batchStep now env run code = Inr run'
              \<and> loadFailed now (files run') = Inr failed'
              \<and> code \<in> fc_code ` set (fd_codes failed')
              \<and> processedFile (files run') = processedFile (files run)
              \<and> processedNow run' = processedNow run
              \<and> failedNow run' = failedNow run @ [code]"
      by (intro exI[of _ ?run'] exI[of _ failed']) simp
  qed
qed

text \<open>
  An instance: the first attempt times out and is retried after 4000 ms, the second
  finds no attachments and no report.
\<close>

theorem zero_documents_outcome_witness:
  "failsBefore ((\<lambda>code attempt. if attempt = 1 then Threw ''Timeout 120000ms exceeded'' None
                                 else NoAttachmentsPopup False) ''3506-434-SE25'') 2
   \<and> ''3506-434-SE25'' \<notin> cacheOf (checkpoint
        \<lparr>checkpoint = emptyCheckpoint ''t0'', registry = emptyRegistry ''t0'',
         checkpointFile = Absent, registryFile = Absent,
         processedCount = 0, succeededCount = 0, failedCount = 0\<rparr>)
   \<and> processCode ((\<lambda>code attempt. if attempt = 1 then Threw ''Timeout 120000ms exceeded'' None
                                   else NoAttachmentsPopup False) ''3506-434-SE25'')
        ''3506-434-SE25'' 1
       = ([4000], Inr \<lparr>dr_code = ''3506-434-SE25'', dr_success = True, pdfCount = 0,
                        dr_error = None, directory = Some ''downloads/3506-434-SE25''\<rparr>)
   \<and> (\<exists>s'. processJob ''t1'' \<lparr>fresh = False, test = None, retry = False\<rparr>
              (\<lambda>code attempt. if attempt = 1 then Threw ''Timeout 120000ms exceeded'' None
                               else NoAttachmentsPopup False)
              \<lparr>checkpoint = emptyCheckpoint ''t0'', registry = emptyRegistry ''t0'',
               checkpointFile = Absent, registryFile = Absent,
               processedCount = 0, succeededCount = 0, failedCount = 0\<rparr>
              ''3506-434-SE25''
            = Inr (s', Some \<lparr>dr_code = ''3506-434-SE25'', dr_success = True, pdfCount = 0,
                              dr_error = None, directory = Some ''downloads/3506-434-SE25''\<rparr>)
          \<and> processedCodes (checkpoint s') = [''3506-434-SE25'']
          \<and> failedCodes (checkpoint s') = []
          \<and> ''3506-434-SE25'' \<in> set (reg_codes (registry s')))
   \<and> scraper ((\<lambda>code. \<lparr>scraper = Reported True None, dirExists = True, dirFiles = [],
                 processFile = (\<lambda>path. \<lparr>filename = path, success = False, data = None,
                                           fpr_error = None\<rparr>)\<rparr>) ''3506-434-SE25'')
       = Reported True None
   \<and> processSingleCode ''t1''
        \<lparr>scraper = Reported True None, dirExists = True, dirFiles = [],
         processFile = (\<lambda>path. \<lparr>filename = path, success = False, data = None,
                                   fpr_error = None\<rparr>)\<rparr>
        ''3506-434-SE25''
       = \<lparr>res_success = False, res_order = None, res_error = Some ''No files downloaded''\<rparr>"
proof -
  let ?code = "''3506-434-SE25''"
  let ?browse = "\<lambda>code attempt::nat. if attempt = 1 then Threw ''Timeout 120000ms exceeded'' None
                                     else NoAttachmentsPopup False"
  let ?args = "\<lparr>fresh = False, test = None, retry = False\<rparr>"
  let ?s = "\<lparr>checkpoint = emptyCheckpoint ''t0'', registry = emptyRegistry ''t0'',
         checkpointFile = Absent, registryFile = Absent,
         processedCount = 0, succeededCount = 0, failedCount = 0\<rparr>"
  let ?env = "\<lambda>code::string. \<lparr>scraper = Reported True None, dirExists = True, dirFiles = [],
                 processFile = (\<lambda>path. \<lparr>filename = path, success = False, data = None,
                                           fpr_error = None\<rparr>)\<rparr>"
  let ?run = "\<lparr>files = \<lparr>pendingFile = Absent, processedFile = Absent, failedFile = Absent\<rparr>,
               processedNow = [], failedNow = []\<rparr>"
  let ?result = "\<lparr>dr_code = ?code, dr_success = True, pdfCount = 0, dr_error = None,
                  directory = Some (getCodeDirectory ?code)\<rparr>"
  note outcome = zero_documents_outcome[of 2 ?browse ?code ?result ?args ?s "''t1''" ?env None ?run]
  have before: "failsBefore (?browse ?code) 2"
    by code_simp
  have new: "?code \<notin> cacheOf (checkpoint ?s)"
    by (simp add: cacheOf_def emptyCheckpoint_def)
  have attempts: "1 \<le> (2::nat) \<and> 2 \<le> MAX_RETRIES \<and> failsBefore (?browse ?code) 2
      \<and> (?browse ?code 2 = NoAttachmentsPopup False \<or> ?browse ?code 2 = AttachmentsDownloaded False 0)"
    using before by (simp add: MAX_RETRIES_def)
  from outcome[THEN conjunct1, THEN mp, OF attempts]
  have run: "processCode (?browse ?code) ?code 1 = (delaysBefore 2, Inr ?result)"
    by (rule conjunct1)
  have delays: "delaysBefore 2 = [4000]"
    by code_simp
  from run new have returned: "snd (processCode (?browse ?code) ?code 1) = Inr ?result
      \<and> dr_success ?result \<and> pdfCount ?result = 0
      \<and> (fresh ?args \<or> ?code \<notin> cacheOf (checkpoint ?s))"
    by simp
  from outcome[THEN conjunct2, THEN conjunct1, THEN mp, OF returned] new
  obtain s' where s': "processJob ''t1'' ?args ?browse ?s ?code = Inr (s', Some ?result)"
    "processedCodes (checkpoint s') = processedCodes (checkpoint ?s) @ [?code]"
    "?code \<in> set (reg_codes (registry s'))"
    "failedCodes (checkpoint s') = failedCodes (checkpoint ?s)"
    by auto
  have session: "\<exists>s'. processJob ''t1'' ?args ?browse ?s ?code = Inr (s', Some ?result)
          \<and> processedCodes (checkpoint s') = [?code]
          \<and> failedCodes (checkpoint s') = []
          \<and> ?code \<in> set (reg_codes (registry s'))"
    using s' by (intro exI[of _ s']) (simp add: emptyCheckpoint_def)
  have env: "scraper (?env ?code) = Reported True None \<and> dirExists (?env ?code) \<and> dirFiles (?env ?code) = []"
    by simp
  from outcome[THEN conjunct2, THEN conjunct2, rule_format, OF env]
  have "processSingleCode ''t1'' (?env ?code) ?code =
          \<lparr>res_success = False, res_order = None, res_error = Some ''No files downloaded''\<rparr>"
    by (rule conjunct1)
  with session before new run delays show ?thesis
    by (simp add: getCodeDirectory_def)
qed
section \<open>The consensus classifier\<close>

lemma successfulItems_filter:
  "map (\<lambda>r. items (the (data r))) (filter (\<lambda>r. success r \<and> data r \<noteq> None) results) =
     successfulItems results"
  by (induction results) (auto simp: successfulItems_def)

lemma length_successfulItems:
  "length (filter (\<lambda>r. success r \<and> data r \<noteq> None) results) = length (successfulItems results)"
  using successfulItems_filter[of results, THEN arg_cong, of length] by simp


text \<open>The classifier as a function of the kept item lists and the number of results.\<close>

lemma comparAndMark_Nil:
  assumes "successfulItems results = []"
  shows "comparAndMark results =
           Inr \<lparr>cmp_marca = falta_datos, cmp_confidence = baja, cmp_items = Some (JArray []),
                 filesProcessed = 0\<rparr>"
proof -
  from assms length_successfulItems[of results]
  have "length (filter (\<lambda>r. success r \<and> data r \<noteq> None) results) = 0"
    by simp
  then show ?thesis
    by (simp add: comparAndMark_def)
qed

lemma comparAndMark_Cons:
  assumes "successfulItems results = first # rest"
  shows "comparAndMark results =
           (if \<forall>its \<in> set rest. stringify its = stringify first
            then (case lengthOf first of
                    Inl e \<Rightarrow> Inl e
                  | Inr len \<Rightarrow>
                      Inr \<lparr>cmp_marca = (if len = Some (JNumber (Finite 1)) then sobreprecio else normal),
                            cmp_confidence = alta, cmp_items = first,
                            filesProcessed = Suc (length rest)\<rparr>)
            else Inr \<lparr>cmp_marca = falta_datos,
                       cmp_confidence =
                         (if lessEq_double
                               (times_double (numberOfCount (length results)) (roundDouble (7 / 10)))
                               (numberOfCount (Suc (length rest)))
                          then media else baja),
                       cmp_items = first, filesProcessed = Suc (length rest)\<rparr>)"
proof -
  let ?succ = "filter (\<lambda>r. success r \<and> data r \<noteq> None) results"
  have arrays: "map (\<lambda>r. items (the (data r))) ?succ = first # rest"
    using assms successfulItems_filter[of results] by simp
  have len: "length ?succ = Suc (length rest)"
    using assms length_successfulItems[of results] by simp
  have allEqual: "list_all (\<lambda>its. stringify its = stringify (hd (first # rest))) (first # rest)
                    \<longleftrightarrow> (\<forall>its \<in> set rest. stringify its = stringify first)"
    by (simp add: list_all_iff)
  show ?thesis
    unfolding comparAndMark_def Let_def arrays len allEqual
    by (simp split: sum.splits)
qed


lemma comparAndMark_agree:
  assumes "successfulItems results = first # rest"
      and "\<forall>its \<in> set rest. stringify its = stringify first"
  shows "comparAndMark results =
           (case lengthOf first of
              Inl e \<Rightarrow> Inl e
            | Inr len \<Rightarrow>
                Inr \<lparr>cmp_marca = (if len = Some (JNumber (Finite 1)) then sobreprecio else normal),
                      cmp_confidence = alta, cmp_items = first,
                      filesProcessed = Suc (length rest)\<rparr>)"
  unfolding comparAndMark_Cons[OF assms(1)] using assms(2) by (rule if_P)






text \<open>
  The remaining rows of the specification's table: ten results of which eight, or five,
  are successful and do not all agree.
\<close>

lemma comparAndMark_eight_of_ten:
  "comparAndMark
     (replicate 7 \<lparr>filename = ''a.pdf'', success = True,
                    data = Some \<lparr>items = Some (JArray [JObject [(''descripcion'', JString ''Silla''),
                                                                  (''cantidad'', JNumber (Finite 4)),
                                                                  (''precio_unitario'', JNumber (Finite 25000))]]),
                                 total_orden = None, legible = True, ed_error = None\<rparr>,
                    fpr_error = None\<rparr>
      @ [\<lparr>filename = ''b.pdf'', success = True,
          data = Some \<lparr>items = Some (JArray [JObject [(''descripcion'', JString ''Silla''),
                                                        (''cantidad'', JNumber (Finite 5)),
                                                        (''precio_unitario'', JNumber (Finite 25000))]]),
                       total_orden = None, legible = True, ed_error = None\<rparr>,
          fpr_error = None\<rparr>]
      @ replicate 2 \<lparr>filename = ''c.png'', success = False, data = None,
                      fpr_error = Some ''Document not readable''\<rparr>)
   = Inr \<lparr>cmp_marca = falta_datos, cmp_confidence = media,
           cmp_items = Some (JArray [JObject [(''descripcion'', JString ''Silla''),
                                              (''cantidad'', JNumber (Finite 4)),
                                              (''precio_unitario'', JNumber (Finite 25000))]]),
           filesProcessed = 8\<rparr>"
  by code_simp

lemma comparAndMark_five_of_ten:
  "comparAndMark
     (replicate 4 \<lparr>filename = ''a.pdf'', success = True,
                    data = Some \<lparr>items = Some (JArray [JObject [(''descripcion'', JString ''Silla''),
                                                                  (''cantidad'', JNumber (Finite 4)),
                                                                  (''precio_unitario'', JNumber (Finite 25000))]]),
                                 total_orden = None, legible = True, ed_error = None\<rparr>,
                    fpr_error = None\<rparr>
      @ [\<lparr>filename = ''b.pdf'', success = True,
          data = Some \<lparr>items = Some (JArray [JObject [(''descripcion'', JString ''Silla''),
                                                        (''cantidad'', JNumber (Finite 5)),
                                                        (''precio_unitario'', JNumber (Finite 25000))]]),
                       total_orden = None, legible = True, ed_error = None\<rparr>,
          fpr_error = None\<rparr>]
      @ replicate 5 \<lparr>filename = ''c.png'', success = False, data = None,
                      fpr_error = Some ''Document not readable''\<rparr>)
   = Inr \<lparr>cmp_marca = falta_datos, cmp_confidence = baja,
           cmp_items = Some (JArray [JObject [(''descripcion'', JString ''Silla''),
                                              (''cantidad'', JNumber (Finite 4)),
                                              (''precio_unitario'', JNumber (Finite 25000))]]),
           filesProcessed = 5\<rparr>"
  by code_simp

text \<open>An answer without an item list: reading the length throws.\<close>

lemma comparAndMark_no_items:
  "comparAndMark
     [\<lparr>filename = ''oc.pdf'', success = True,
       data = Some \<lparr>items = None, total_orden = None, legible = True, ed_error = None\<rparr>,
       fpr_error = None\<rparr>]
   = Inl (TypeError ''Cannot read properties of undefined (reading 'length')'')"
  by (simp add: comparAndMark_def stringify_def cannotRead_def)
section \<open>The session scraper: retries and the record of a failure\<close>

text \<open>
  Claim C3, as stated, fails: a code whose three attempts all time out, in a session that
  starts from empty stores, leaves one entry in the failed store, and that entry carries
  1 attempt, not 3 (\<open>main\<close> calls \<open>markFailed\<close> without its fourth argument, whose
  default is 1).
\<close>

theorem failed_entry_carries_one_attempt:
  "processJob ''2025-12-15T11:00:00Z''
      \<lparr>fresh = False, test = None, retry = False\<rparr>
      (\<lambda>code attempt. Threw ''Timeout 60000ms exceeded'' None)
      \<lparr>checkpoint = emptyCheckpoint ''2025-12-15T10:00:00Z'',
       registry = emptyRegistry ''2025-12-15T10:00:00Z'',
       checkpointFile = Absent, registryFile = Absent,
       processedCount = 0, succeededCount = 0, failedCount = 0\<rparr>
      ''1234-567-SE25''
   = Inr (\<lparr>checkpoint =
             \<lparr>processedCodes = [],
              failedCodes =
                [\<lparr>fe_code = ''1234-567-SE25'',
                  fe_error = ''Failed after 3 attempts: Timeout 60000ms exceeded'',
                  fe_timestamp = ''2025-12-15T11:00:00Z'', fe_attempts = 1\<rparr>],
              lastProcessedTimestamp = ''2025-12-15T10:00:00Z'',
              totalProcessed = 0, totalFailed = 1, processedCodesSet = Some {}\<rparr>,
           registry = emptyRegistry ''2025-12-15T10:00:00Z'',
           checkpointFile = Absent, registryFile = Absent,
           processedCount = 1, succeededCount = 0, failedCount = 1\<rparr>,
          Some \<lparr>dr_code = ''1234-567-SE25'', dr_success = False, pdfCount = 0,
                dr_error = Some ''Failed after 3 attempts: Timeout 60000ms exceeded'',
                directory = None\<rparr>)"
proof -
  let ?browse = "\<lambda>code attempt::nat. Threw ''Timeout 60000ms exceeded'' None"
  have "processCode (?browse ''1234-567-SE25'') ''1234-567-SE25'' 1 =
           ([4000, 8000],
            Inr \<lparr>dr_code = ''1234-567-SE25'', dr_success = False, pdfCount = 0,
                  dr_error = Some (''Failed after 3 attempts: '' @ ''Timeout 60000ms exceeded''),
                  directory = None\<rparr>)"
    by (rule processCode_three_throws) simp_all
  then show ?thesis
    by (simp add: processJob_def isProcessed_def cacheOf_def emptyCheckpoint_def markFailed_def
        orElse_def)
qed

text \<open>
  Claim C3, amended. When the three attempts of \<open>processCode\<close> on a code all throw inside
  the \<^verbatim>\<open>try\<close> block and the pages are closed after each, it sleeps
  \<open>min (2000 * 2 ^ attempt) 30000\<close> milliseconds after the first and after the second
  attempt (4000 and 8000) and returns a failure whose error reads
  \<open>Failed after 3 attempts:\<close> followed by the last message. The job of \<open>main\<close> then
  records the failure once, with the default of one attempt: a code with no entry in the
  failed store gets exactly one entry, appended at the end, carrying 1 attempt, and
  \<open>totalFailed\<close> goes up by one; a code that has an entry keeps that one entry, updated in
  place with its attempts raised by 1. The processed codes and the registry are left as
  they were.
\<close>

theorem retries_exhausted_recorded_once:
  assumes "browse code 1 = Threw m1 None" and "browse code 2 = Threw m2 None"
      and "browse code 3 = Threw m3 None"
      and "fresh args \<or> code \<notin> cacheOf (checkpoint s)"
  shows "processCode (browse code) code 1 =
           ([exponentialBackoff 1 RETRY_BASE_DELAY, exponentialBackoff 2 RETRY_BASE_DELAY],
            Inr \<lparr>dr_code = code, dr_success = False, pdfCount = 0,
                  dr_error = Some (''Failed after 3 attempts: '' @ m3), directory = None\<rparr>)
       \<and> exponentialBackoff 1 RETRY_BASE_DELAY = 4000 \<and> exponentialBackoff 2 RETRY_BASE_DELAY = 8000
       \<and> (\<exists>s'. processJob now args browse s code =
                   Inr (s', Some \<lparr>dr_code = code, dr_success = False, pdfCount = 0,
                                   dr_error = Some (''Failed after 3 attempts: '' @ m3),
                                   directory = None\<rparr>)
            \<and> (code \<notin> fe_code ` set (failedCodes (checkpoint s)) \<longrightarrow>
                 failedCodes (checkpoint s') =
                   failedCodes (checkpoint s) @
                     [\<lparr>fe_code = code, fe_error = ''Failed after 3 attempts: '' @ m3,
                       fe_timestamp = now, fe_attempts = 1\<rparr>]
               \<and> length (filter (\<lambda>f. fe_code f = code) (failedCodes (checkpoint s'))) = 1
               \<and> totalFailed (checkpoint s') = totalFailed (checkpoint s) + 1)
            \<and> (code \<in> fe_code ` set (failedCodes (checkpoint s)) \<longrightarrow>
                 (\<exists>i < length (failedCodes (checkpoint s)).
                    fe_code (failedCodes (checkpoint s) ! i) = code \<and>
                    failedCodes (checkpoint s') =
                      (failedCodes (checkpoint s))
                        [i := \<lparr>fe_code = code, fe_error = ''Failed after 3 attempts: '' @ m3,
                               fe_timestamp = now,
                               fe_attempts = fe_attempts (failedCodes (checkpoint s) ! i) + 1\<rparr>])
               \<and> totalFailed (checkpoint s') = totalFailed (checkpoint s))
            \<and> processedCodes (checkpoint s') = processedCodes (checkpoint s)
            \<and> reg_codes (registry s') = reg_codes (registry s))"
proof -
  let ?error = "''Failed after 3 attempts: '' @ m3"
  let ?result = "\<lparr>dr_code = code, dr_success = False, pdfCount = 0,
             dr_error = Some ?error, directory = None\<rparr>"
  have delays: "exponentialBackoff 1 RETRY_BASE_DELAY = 4000"
    "exponentialBackoff 2 RETRY_BASE_DELAY = 8000"
    by (simp_all add: exponentialBackoff_def RETRY_BASE_DELAY_def)
  have run: "processCode (browse code) code 1 = ([4000, 8000], Inr ?result)"
    using assms(1-3) by (rule processCode_three_throws)
  then have result: "snd (processCode (browse code) code 1) = Inr ?result"
    by simp
  have error: "orElse (dr_error ?result) ''Unknown error'' = ?error"
    by (simp add: orElse_def)
  from processJob_run[where browse=browse and code=code and now=now, OF assms(4) result]
  obtain s' where job: "processJob now args browse s code = Inr (s', Some ?result)"
    and failed: "failedCodes (checkpoint s') = failedCodes (markFailed now (checkpoint s) code ?error 1)"
    and total: "totalFailed (checkpoint s') = totalFailed (markFailed now (checkpoint s) code ?error 1)"
    and kept: "processedCodes (checkpoint s') = processedCodes (checkpoint s)"
      "reg_codes (registry s') = reg_codes (registry s)"
    unfolding error by auto
  have new: "failedCodes (checkpoint s') =
              failedCodes (checkpoint s) @
                [\<lparr>fe_code = code, fe_error = ?error, fe_timestamp = now, fe_attempts = 1\<rparr>]
          \<and> length (filter (\<lambda>f. fe_code f = code) (failedCodes (checkpoint s'))) = 1
          \<and> totalFailed (checkpoint s') = totalFailed (checkpoint s) + 1"
    if absent: "code \<notin> fe_code ` set (failedCodes (checkpoint s))"
  proof -
    from absent have "filter (\<lambda>f. fe_code f = code) (failedCodes (checkpoint s)) = []"
      by (auto simp: filter_empty_conv)
    with markFailed_new[OF absent, of now ?error 1] failed total show ?thesis
      by simp
  qed
  have old: "(\<exists>i < length (failedCodes (checkpoint s)).
               fe_code (failedCodes (checkpoint s) ! i) = code \<and>
               failedCodes (checkpoint s') =
                 (failedCodes (checkpoint s))
                   [i := \<lparr>fe_code = code, fe_error = ?error, fe_timestamp = now,
                          fe_attempts = fe_attempts (failedCodes (checkpoint s) ! i) + 1\<rparr>])
          \<and> totalFailed (checkpoint s') = totalFailed (checkpoint s)"
    if present: "code \<in> fe_code ` set (failedCodes (checkpoint s))"
  proof -
    from markFailed_in_place[OF present, of now ?error 1]
    obtain i where i: "i < length (failedCodes (checkpoint s))"
      "fe_code (failedCodes (checkpoint s) ! i) = code"
      "failedCodes (markFailed now (checkpoint s) code ?error 1) =
         (failedCodes (checkpoint s))
           [i := \<lparr>fe_code = code, fe_error = ?error, fe_timestamp = now,
                  fe_attempts = fe_attempts (failedCodes (checkpoint s) ! i) + 1\<rparr>]"
      by blast
    have "totalFailed (markFailed now (checkpoint s) code ?error 1) = totalFailed (checkpoint s)"
      using present by (auto simp: markFailed_def findIndex_None split: option.splits)
    with i failed total show ?thesis
      by auto
  qed
  have first: "processCode (browse code) code 1 =
           ([exponentialBackoff 1 RETRY_BASE_DELAY, exponentialBackoff 2 RETRY_BASE_DELAY],
            Inr ?result)"
    unfolding delays by (rule run)
  from job new old kept have "\<exists>s'. processJob now args browse s code = Inr (s', Some ?result)
            \<and> (code \<notin> fe_code ` set (failedCodes (checkpoint s)) \<longrightarrow>
                 failedCodes (checkpoint s') =
                   failedCodes (checkpoint s) @
                     [\<lparr>fe_code = code, fe_error = ?error, fe_timestamp = now, fe_attempts = 1\<rparr>]
               \<and> length (filter (\<lambda>f. fe_code f = code) (failedCodes (checkpoint s'))) = 1
               \<and> totalFailed (checkpoint s') = totalFailed (checkpoint s) + 1)
            \<and> (code \<in> fe_code ` set (failedCodes (checkpoint s)) \<longrightarrow>
                 (\<exists>i < length (failedCodes (checkpoint s)).
                    fe_code (failedCodes (checkpoint s) ! i) = code \<and>
                    failedCodes (checkpoint s') =
                      (failedCodes (checkpoint s))
                        [i := \<lparr>fe_code = code, fe_error = ?error, fe_timestamp = now,
                               fe_attempts = fe_attempts (failedCodes (checkpoint s) ! i) + 1\<rparr>])
               \<and> totalFailed (checkpoint s') = totalFailed (checkpoint s))
            \<and> processedCodes (checkpoint s') = processedCodes (checkpoint s)
            \<and> reg_codes (registry s') = reg_codes (registry s)"
    by (intro exI[of _ s']) blast
  with first delays show ?thesis
    by blast
qed

theorem retries_exhausted_recorded_once_witness:
  "(\<lambda>code attempt::nat. Threw ''net::ERR_TIMED_OUT'' None) ''2564-169-SE25'' 1
     = Threw ''net::ERR_TIMED_OUT'' None
   \<and> ''2564-169-SE25'' \<notin> cacheOf (checkpoint
        \<lparr>checkpoint = emptyCheckpoint ''t0'', registry = emptyRegistry ''t0'',
         checkpointFile = Absent, registryFile = Absent,
         processedCount = 0, succeededCount = 0, failedCount = 0\<rparr>)
   \<and> (\<exists>s'. processJob ''t1'' \<lparr>fresh = False, test = None, retry = False\<rparr>
              (\<lambda>code attempt. Threw ''net::ERR_TIMED_OUT'' None)
              \<lparr>checkpoint = emptyCheckpoint ''t0'', registry = emptyRegistry ''t0'',
               checkpointFile = Absent, registryFile = Absent,
               processedCount = 0, succeededCount = 0, failedCount = 0\<rparr>
              ''2564-169-SE25''
            = Inr (s', Some \<lparr>dr_code = ''2564-169-SE25'', dr_success = False, pdfCount = 0,
                              dr_error = Some ''Failed after 3 attempts: net::ERR_TIMED_OUT'',
                              directory = None\<rparr>)
          \<and> map fe_attempts (failedCodes (checkpoint s')) = [1])"
proof -
  let ?browse = "\<lambda>code attempt::nat. Threw ''net::ERR_TIMED_OUT'' None"
  let ?args = "\<lparr>fresh = False, test = None, retry = False\<rparr>"
  let ?s = "\<lparr>checkpoint = emptyCheckpoint ''t0'', registry = emptyRegistry ''t0'',
         checkpointFile = Absent, registryFile = Absent,
         processedCount = 0, succeededCount = 0, failedCount = 0\<rparr>"
  let ?result = "\<lparr>dr_code = ''2564-169-SE25'', dr_success = False, pdfCount = 0,
                  dr_error = Some (''Failed after 3 attempts: '' @ ''net::ERR_TIMED_OUT''),
                  directory = None\<rparr>"
  have throws: "?browse ''2564-169-SE25'' 1 = Threw ''net::ERR_TIMED_OUT'' None"
    "?browse ''2564-169-SE25'' 2 = Threw ''net::ERR_TIMED_OUT'' None"
    "?browse ''2564-169-SE25'' 3 = Threw ''net::ERR_TIMED_OUT'' None"
    by simp_all
  have fresh: "''2564-169-SE25'' \<notin> cacheOf (checkpoint ?s)"
    by (simp add: cacheOf_def emptyCheckpoint_def)
  then have run: "fresh ?args \<or> ''2564-169-SE25'' \<notin> cacheOf (checkpoint ?s)"
    by simp
  have absent: "''2564-169-SE25'' \<notin> fe_code ` set (failedCodes (checkpoint ?s))"
    by (simp add: emptyCheckpoint_def)
  from retries_exhausted_recorded_once[of ?browse "''2564-169-SE25''", OF throws run, of "''t1''"] absent
  obtain s' where s': "processJob ''t1'' ?args ?browse ?s ''2564-169-SE25'' = Inr (s', Some ?result)"
    "failedCodes (checkpoint s') =
          failedCodes (checkpoint ?s) @
            [\<lparr>fe_code = ''2564-169-SE25'',
              fe_error = ''Failed after 3 attempts: '' @ ''net::ERR_TIMED_OUT'',
              fe_timestamp = ''t1'', fe_attempts = 1\<rparr>]"
    by blast
  then have "map fe_attempts (failedCodes (checkpoint s')) = [1]"
    by (simp add: emptyCheckpoint_def)
  with s'(1) have "\<exists>s'. processJob ''t1'' ?args ?browse ?s ''2564-169-SE25'' = Inr (s', Some ?result)
          \<and> map fe_attempts (failedCodes (checkpoint s')) = [1]"
    by (intro exI[of _ s'] conjI)
  with fresh show ?thesis by simp
qed

section \<open>Loading a store whose file does not parse\<close>

lemma loadPending_cases:
  "loadPending now (fs\<lparr>pendingFile := Unparsable\<rparr>) = Inl SyntaxError"
  "loadPending now (fs\<lparr>pendingFile := Absent\<rparr>) =
     Inr \<lparr>pd_codes = [], pd_lastUpdated = now, totalPending = 0\<rparr>"
  by (simp_all add: loadPending_def)

lemma loadProcessed_cases:
  "loadProcessed now (fs\<lparr>processedFile := Unparsable\<rparr>) = Inl SyntaxError"
  "loadProcessed now (fs\<lparr>processedFile := Absent\<rparr>) =
     Inr \<lparr>orders = [], pr_totalProcessed = 0, pr_lastUpdated = now\<rparr>"
  by (simp_all add: loadProcessed_def)

lemma loadFailed_cases:
  "loadFailed now (fs\<lparr>failedFile := Unparsable\<rparr>) = Inl SyntaxError"
  "loadFailed now (fs\<lparr>failedFile := Absent\<rparr>) =
     Inr \<lparr>fd_codes = [], fd_totalFailed = 0, fd_lastUpdated = now\<rparr>"
  by (simp_all add: loadFailed_def)

text \<open>
  Claim C4, as stated, fails for the batch files: \<open>loadPending\<close> on a pending file that
  does not parse throws the parser's error instead of returning the empty default.
\<close>

theorem loadPending_unparsable_throws:
  "loadPending ''2025-12-15T10:00:00Z''
     \<lparr>pendingFile = Unparsable, processedFile = Absent, failedFile = Absent\<rparr> = Inl SyntaxError
   \<and> loadPending ''2025-12-15T10:00:00Z''
     \<lparr>pendingFile = Unparsable, processedFile = Absent, failedFile = Absent\<rparr>
       \<noteq> Inr \<lparr>pd_codes = [], pd_lastUpdated = ''2025-12-15T10:00:00Z'', totalPending = 0\<rparr>"
  by (simp add: loadPending_def)

text \<open>
  Claim C4, amended. The two loaders of the scraper utilities catch the error: on a file
  that does not parse, \<open>loadScrapedCodesRegistry\<close> and \<open>loadCheckpoint\<close> return the empty
  default of their store together with one warning, and never throw (their result type
  has no error branch). The three loaders of the batch data manager do not catch it: on a
  file that does not parse, \<open>loadPending\<close>, \<open>loadProcessed\<close> and \<open>loadFailed\<close> throw the
  parser's error, and they return the empty default only when the file is absent. The
  batch run that starts on a pending file that does not parse ends with that error.
\<close>

theorem load_unparsable_store:
  "loadScrapedCodesRegistry now Unparsable =
     ([Warn ''Failed to load scraped codes registry''],
      \<lparr>reg_codes = [], reg_lastUpdated = now, reg_totalCount = 0\<rparr>)
   \<and> loadCheckpoint now Unparsable =
     ([Warn ''Failed to load checkpoint, starting fresh''],
      \<lparr>processedCodes = [], failedCodes = [], lastProcessedTimestamp = now,
       totalProcessed = 0, totalFailed = 0, processedCodesSet = None\<rparr>)
   \<and> loadPending now (fs\<lparr>pendingFile := Unparsable\<rparr>) = Inl SyntaxError
   \<and> loadProcessed now (fs\<lparr>processedFile := Unparsable\<rparr>) = Inl SyntaxError
   \<and> loadFailed now (fs\<lparr>failedFile := Unparsable\<rparr>) = Inl SyntaxError
   \<and> loadPending now (fs\<lparr>pendingFile := Absent\<rparr>) =
       Inr \<lparr>pd_codes = [], pd_lastUpdated = now, totalPending = 0\<rparr>
   \<and> loadProcessed now (fs\<lparr>processedFile := Absent\<rparr>) =
       Inr \<lparr>orders = [], pr_totalProcessed = 0, pr_lastUpdated = now\<rparr>
   \<and> loadFailed now (fs\<lparr>failedFile := Absent\<rparr>) =
       Inr \<lparr>fd_codes = [], fd_totalFailed = 0, fd_lastUpdated = now\<rparr>
   \<and> batchMain now batchSize env (fs\<lparr>pendingFile := Unparsable\<rparr>) = Inl SyntaxError"
proof -
  have reg: "loadScrapedCodesRegistry now Unparsable =
     ([Warn ''Failed to load scraped codes registry''],
      \<lparr>reg_codes = [], reg_lastUpdated = now, reg_totalCount = 0\<rparr>)"
    by (simp add: loadScrapedCodesRegistry_def emptyRegistry_def)
  have cp: "loadCheckpoint now Unparsable =
     ([Warn ''Failed to load checkpoint, starting fresh''],
      \<lparr>processedCodes = [], failedCodes = [], lastProcessedTimestamp = now,
       totalProcessed = 0, totalFailed = 0, processedCodesSet = None\<rparr>)"
    by (simp add: loadCheckpoint_def emptyCheckpoint_def)
  have run: "batchMain now batchSize env (fs\<lparr>pendingFile := Unparsable\<rparr>) = Inl SyntaxError"
    by (simp add: batchMain_def getPendingBatch_def loadPending_cases)
  from reg cp run loadPending_cases loadProcessed_cases loadFailed_cases
  show ?thesis by blast
qed

theorem load_unparsable_store_witness:
  "loadCheckpoint ''2025-12-15T10:00:00Z'' Unparsable =
     ([Warn ''Failed to load checkpoint, starting fresh''],
      \<lparr>processedCodes = [], failedCodes = [], lastProcessedTimestamp = ''2025-12-15T10:00:00Z'',
       totalProcessed = 0, totalFailed = 0, processedCodesSet = None\<rparr>)
   \<and> loadFailed ''2025-12-15T10:00:00Z''
        \<lparr>pendingFile = Absent, processedFile = Absent, failedFile = Unparsable\<rparr> = Inl SyntaxError"
  using load_unparsable_store
    [of "''2025-12-15T10:00:00Z''" "\<lparr>pendingFile = Absent, processedFile = Absent, failedFile = Absent\<rparr>"]
  by simp

section \<open>Work-set resolution\<close>

lemma getNewCodesToScrape_filter:
  "getNewCodesToScrape allCodes reg = filter (\<lambda>c. c \<notin> set (reg_codes reg)) allCodes"
  by (simp add: getNewCodesToScrape_def)

lemma codesToProcess_non_retry:
  "\<not> retry args \<Longrightarrow>
     codesToProcess args allCodes reg cp =
       (case test args of
          None \<Rightarrow> getNewCodesToScrape allCodes reg
        | Some n \<Rightarrow> if n = 0 then getNewCodesToScrape allCodes reg
                    else take n (getNewCodesToScrape allCodes reg))"
  by (simp add: codesToProcess_def split: option.splits)

text \<open>
  Claim C5. In the modes other than retry, the work set is the input list with the codes
  of the registry filtered out: exactly the codes that are not in \<open>reg_codes\<close>, in the
  order (and as often as) the input lists them; in test mode it is the first \<open>n\<close> of
  these. The result depends on the input list and on the set of registry codes only:
  neither the checkpoint, nor the registry's time stamp, count or order of codes changes
  it, so two calls on the same inputs give the same sequence.
\<close>

theorem work_set_resolution:
  assumes "\<not> retry args"
  shows "getNewCodesToScrape allCodes reg = filter (\<lambda>c. c \<notin> set (reg_codes reg)) allCodes
       \<and> set (getNewCodesToScrape allCodes reg) = set allCodes - set (reg_codes reg)
       \<and> subseq (getNewCodesToScrape allCodes reg) allCodes
       \<and> codesToProcess args allCodes reg cp =
           (case test args of
              None \<Rightarrow> getNewCodesToScrape allCodes reg
            | Some n \<Rightarrow> if n = 0 then getNewCodesToScrape allCodes reg
                        else take n (getNewCodesToScrape allCodes reg))
       \<and> (set (reg_codes reg') = set (reg_codes reg) \<longrightarrow>
            codesToProcess args allCodes reg' cp' = codesToProcess args allCodes reg cp)"
proof -
  have exact: "set (getNewCodesToScrape allCodes reg) = set allCodes - set (reg_codes reg)"
    by (auto simp: getNewCodesToScrape_filter)
  have ordered: "subseq (getNewCodesToScrape allCodes reg) allCodes"
    by (simp add: getNewCodesToScrape_filter)
  have same: "codesToProcess args allCodes reg' cp' = codesToProcess args allCodes reg cp"
    if "set (reg_codes reg') = set (reg_codes reg)"
  proof -
    from that have "getNewCodesToScrape allCodes reg' = getNewCodesToScrape allCodes reg"
      by (simp add: getNewCodesToScrape_filter)
    with assms show ?thesis
      by (simp add: codesToProcess_def split: option.splits)
  qed
  from getNewCodesToScrape_filter exact ordered codesToProcess_non_retry[OF assms] same
  show ?thesis by blast
qed

theorem work_set_resolution_witness:
  "\<not> retry \<lparr>fresh = False, test = Some 2, retry = False\<rparr>
   \<and> codesToProcess \<lparr>fresh = False, test = Some 2, retry = False\<rparr>
        [''1000-1-AB25'', ''2000-2-CD25'', ''3000-3-EF25'', ''4000-4-GH25'']
        \<lparr>reg_codes = [''2000-2-CD25''], reg_lastUpdated = ''t0'', reg_totalCount = 1\<rparr>
        (emptyCheckpoint ''t0'')
       = [''1000-1-AB25'', ''3000-3-EF25'']"
proof -
  let ?args = "\<lparr>fresh = False, test = Some 2, retry = False\<rparr>"
  let ?reg = "\<lparr>reg_codes = [''2000-2-CD25''], reg_lastUpdated = ''t0'', reg_totalCount = 1\<rparr>"
  let ?all = "[''1000-1-AB25'', ''2000-2-CD25'', ''3000-3-EF25'', ''4000-4-GH25'']"
  have h: "\<not> retry ?args" by simp
  from work_set_resolution[OF h, of ?all ?reg "emptyCheckpoint ''t0''"]
  have "codesToProcess ?args ?all ?reg (emptyCheckpoint ''t0'') =
          take 2 (filter (\<lambda>c. c \<notin> set (reg_codes ?reg)) ?all)"
    by simp
  then show ?thesis by simp
qed

section \<open>Invariants of the progress stores\<close>

lemma markProcessed_countsAgree:
  "countsAgree cp \<Longrightarrow> countsAgree (markProcessed now cp code)"
  by (simp add: countsAgree_def markProcessed_def Let_def)

lemma markFailed_countsAgree:
  "countsAgree cp \<Longrightarrow> countsAgree (markFailed now cp code error attempts)"
  by (simp add: countsAgree_def markFailed_def split: option.splits)

lemma grownFrom_refl: "grownFrom xs xs"
  by (simp add: grownFrom_def)

lemma grownFrom_snoc:
  assumes "grownFrom xs ys" "c \<notin> set ys"
  shows "grownFrom xs (ys @ [c])"
proof -
  from assms(1) obtain zs where ys: "ys = xs @ zs"
    by (auto simp: grownFrom_def prefix_def)
  with assms show ?thesis
    by (auto simp: grownFrom_def)
qed

lemma grownFrom_ex:
  "grownFrom xs ys \<Longrightarrow> \<exists>added. ys = xs @ added \<and> distinct added \<and> set added \<inter> set xs = {}"
  by (auto simp: grownFrom_def prefix_def)

lemma addToScrapedRegistry_grows:
  "grownFrom xs (reg_codes reg) \<Longrightarrow> grownFrom xs (reg_codes (addToScrapedRegistry now reg code))"
  by (simp add: addToScrapedRegistry_def grownFrom_snoc)

lemma applyOp_preserves:
  assumes "countsAgree (fst s)" "grownFrom xs (reg_codes (snd s))"
  shows "countsAgree (fst (applyOp op s)) \<and> grownFrom xs (reg_codes (snd (applyOp op s)))"
  using assms
  by (cases op; cases s)
     (simp_all add: markProcessed_countsAgree markFailed_countsAgree addToScrapedRegistry_grows)

lemma applyOps_preserves:
  assumes "countsAgree (fst s)" "grownFrom xs (reg_codes (snd s))"
  shows "countsAgree (fst (applyOps ops s)) \<and> grownFrom xs (reg_codes (snd (applyOps ops s)))"
  using assms unfolding applyOps_def
proof (induction ops arbitrary: s)
  case Nil
  then show ?case by simp
next
  case (Cons op ops)
  from applyOp_preserves[OF Cons.prems] have
    "countsAgree (fst (applyOp op s))" "grownFrom xs (reg_codes (snd (applyOp op s)))"
    by simp_all
  from Cons.IH[OF this] show ?case by simp
qed

lemma markProcessed_consistent:
  "storesConsistent cp \<Longrightarrow> storesConsistent (markProcessed now cp code)"
  by (auto simp: storesConsistent_def markProcessed_def cacheOf_def Let_def)

lemma markFailed_consistent:
  assumes "storesConsistent cp"
  shows "storesConsistent (markFailed now cp code error attempts)"
proof (cases "code \<in> fe_code ` set (failedCodes cp)")
  case True
  from markFailed_codes_existing[OF True] assms show ?thesis
    by (simp add: storesConsistent_def cacheOf_def markFailed_def split: option.splits)
next
  case False
  then have "findIndex (\<lambda>f. fe_code f = code) (failedCodes cp) = None"
    by (auto simp: findIndex_None)
  with False assms show ?thesis
    by (auto simp: storesConsistent_def cacheOf_def markFailed_def split: option.splits)
qed

lemma applyOps_consistent:
  "storesConsistent (fst s) \<Longrightarrow> storesConsistent (fst (applyOps ops s))"
  unfolding applyOps_def
proof (induction ops arbitrary: s)
  case Nil
  then show ?case by simp
next
  case (Cons op ops)
  have "storesConsistent (fst (applyOp op s))"
    using Cons.prems
    by (cases op; cases s) (simp_all add: markProcessed_consistent markFailed_consistent)
  from Cons.IH[OF this] show ?case by simp
qed

text \<open>
  Claim C6. From a checkpoint whose two counters equal the lengths of their lists, every
  sequence of \<open>markProcessed\<close>, \<open>markFailed\<close> and \<open>addToScrapedRegistry\<close> leads to a
  checkpoint whose counters again equal the lengths, and to a registry whose codes are
  the old codes followed by new ones, each added once and none of them an old code (so
  nothing is removed and no duplicate is added); a checkpoint that lists no code twice
  and whose cache is in step stays so. Marking the same code processed a second time
  changes nothing, so the two calls together raise \<open>totalProcessed\<close> by one for a code
  not yet in the cache and by nothing otherwise. Marking a code failed that already has
  an entry leaves \<open>totalFailed\<close> and the number of entries as they are and replaces the
  first entry of that code, its attempts raised by the given number.
\<close>

theorem store_operations_keep_invariants:
  assumes "totalProcessed cp = length (processedCodes cp)"
      and "totalFailed cp = length (failedCodes cp)"
  shows "(let (cp', reg') = applyOps ops (cp, reg)
          in totalProcessed cp' = length (processedCodes cp')
           \<and> totalFailed cp' = length (failedCodes cp')
           \<and> (\<exists>added. reg_codes reg' = reg_codes reg @ added \<and> distinct added
                 \<and> set added \<inter> set (reg_codes reg) = {})
           \<and> (storesConsistent cp \<longrightarrow> storesConsistent cp'))
       \<and> markProcessed now2 (markProcessed now1 cp code) code = markProcessed now1 cp code
       \<and> totalProcessed (markProcessed now2 (markProcessed now1 cp code) code) =
            totalProcessed cp + (if code \<in> cacheOf cp then 0 else 1)
       \<and> (code \<in> fe_code ` set (failedCodes cp) \<longrightarrow>
            totalFailed (markFailed now1 cp code error attempts) = totalFailed cp
          \<and> length (failedCodes (markFailed now1 cp code error attempts)) = length (failedCodes cp)
          \<and> (\<exists>i < length (failedCodes cp).
                fe_code (failedCodes cp ! i) = code \<and> (\<forall>j<i. fe_code (failedCodes cp ! j) \<noteq> code) \<and>
                failedCodes (markFailed now1 cp code error attempts) =
                  (failedCodes cp)[i := \<lparr>fe_code = code, fe_error = error, fe_timestamp = now1,
                                         fe_attempts = fe_attempts (failedCodes cp ! i) + attempts\<rparr>]))"
proof -
  obtain cp' reg' where run: "applyOps ops (cp, reg) = (cp', reg')"
    by (cases "applyOps ops (cp, reg)")
  have "countsAgree (fst (cp, reg))" "grownFrom (reg_codes reg) (reg_codes (snd (cp, reg)))"
    using assms by (simp_all add: countsAgree_def grownFrom_refl)
  from applyOps_preserves[OF this, of ops] run
  have counts: "countsAgree cp'" and grown: "grownFrom (reg_codes reg) (reg_codes reg')"
    by simp_all
  have cons: "storesConsistent cp \<longrightarrow> storesConsistent cp'"
    using applyOps_consistent[of "(cp, reg)" ops] run by simp
  have seq: "let (cp', reg') = applyOps ops (cp, reg)
          in totalProcessed cp' = length (processedCodes cp')
           \<and> totalFailed cp' = length (failedCodes cp')
           \<and> (\<exists>added. reg_codes reg' = reg_codes reg @ added \<and> distinct added
                 \<and> set added \<inter> set (reg_codes reg) = {})
           \<and> (storesConsistent cp \<longrightarrow> storesConsistent cp')"
    using counts grownFrom_ex[OF grown] cons unfolding run
    by (simp add: countsAgree_def)
  have twice: "markProcessed now2 (markProcessed now1 cp code) code = markProcessed now1 cp code"
    by (rule markProcessed_twice)
  have total: "totalProcessed (markProcessed now2 (markProcessed now1 cp code) code) =
            totalProcessed cp + (if code \<in> cacheOf cp then 0 else 1)"
    unfolding twice by (rule markProcessed_total)
  have failed: "totalFailed (markFailed now1 cp code error attempts) = totalFailed cp
          \<and> length (failedCodes (markFailed now1 cp code error attempts)) = length (failedCodes cp)
          \<and> (\<exists>i < length (failedCodes cp).
                fe_code (failedCodes cp ! i) = code \<and> (\<forall>j<i. fe_code (failedCodes cp ! j) \<noteq> code) \<and>
                failedCodes (markFailed now1 cp code error attempts) =
                  (failedCodes cp)[i := \<lparr>fe_code = code, fe_error = error, fe_timestamp = now1,
                                         fe_attempts = fe_attempts (failedCodes cp ! i) + attempts\<rparr>])"
    if mem: "code \<in> fe_code ` set (failedCodes cp)"
  proof -
    from markFailed_in_place[OF mem, of now1 error attempts]
    obtain i where i: "i < length (failedCodes cp)" "fe_code (failedCodes cp ! i) = code"
      "\<forall>j<i. fe_code (failedCodes cp ! j) \<noteq> code"
      "failedCodes (markFailed now1 cp code error attempts) =
         (failedCodes cp)[i := \<lparr>fe_code = code, fe_error = error, fe_timestamp = now1,
                                fe_attempts = fe_attempts (failedCodes cp ! i) + attempts\<rparr>]"
      by blast
    have "totalFailed (markFailed now1 cp code error attempts) = totalFailed cp"
      using mem by (auto simp: markFailed_def findIndex_None split: option.splits)
    moreover have "length (failedCodes (markFailed now1 cp code error attempts)) = length (failedCodes cp)"
      unfolding i(4) by simp
    ultimately show ?thesis
      using i by blast
  qed
  from seq twice total failed show ?thesis by blast
qed

theorem store_operations_keep_invariants_witness:
  "totalProcessed (emptyCheckpoint ''t0'') = length (processedCodes (emptyCheckpoint ''t0''))
   \<and> totalFailed (emptyCheckpoint ''t0'') = length (failedCodes (emptyCheckpoint ''t0''))
   \<and> totalProcessed (fst (applyOps
        [MarkProcessed ''t1'' ''3506-434-SE25'', AddToScrapedRegistry ''t1'' ''3506-434-SE25'',
         MarkProcessed ''t2'' ''3506-434-SE25'', AddToScrapedRegistry ''t2'' ''3506-434-SE25'',
         MarkFailed ''t3'' ''2564-169-SE25'' ''timeout'' 1, MarkFailed ''t4'' ''2564-169-SE25'' ''timeout'' 1]
        (emptyCheckpoint ''t0'', emptyRegistry ''t0''))) = 1"
proof -
  let ?cp = "emptyCheckpoint ''t0''"
  let ?ops = "[MarkProcessed ''t1'' ''3506-434-SE25'', AddToScrapedRegistry ''t1'' ''3506-434-SE25'',
         MarkProcessed ''t2'' ''3506-434-SE25'', AddToScrapedRegistry ''t2'' ''3506-434-SE25'',
         MarkFailed ''t3'' ''2564-169-SE25'' ''timeout'' 1, MarkFailed ''t4'' ''2564-169-SE25'' ''timeout'' 1]"
  have h1: "totalProcessed ?cp = length (processedCodes ?cp)"
    by (simp add: emptyCheckpoint_def)
  have h2: "totalFailed ?cp = length (failedCodes ?cp)"
    by (simp add: emptyCheckpoint_def)
  have run: "processedCodes (fst (applyOps ?ops (?cp, emptyRegistry ''t0''))) = [''3506-434-SE25'']"
    by (simp add: applyOps_def emptyCheckpoint_def emptyRegistry_def markProcessed_def
        markFailed_def addToScrapedRegistry_def cacheOf_def Let_def)
  from store_operations_keep_invariants[OF h1 h2, of ?ops "emptyRegistry ''t0''"]
  have "totalProcessed (fst (applyOps ?ops (?cp, emptyRegistry ''t0''))) =
          length (processedCodes (fst (applyOps ?ops (?cp, emptyRegistry ''t0''))))"
    by (simp add: case_prod_beta)
  with run h1 h2 show ?thesis by simp
qed
section \<open>The total of an order\<close>

lemma comparAndMark_cong:
  assumes "successfulItems a = successfulItems b" "length a = length b"
  shows "comparAndMark a = comparAndMark b"
proof (cases "successfulItems a")
  case Nil
  with assms show ?thesis
    by (simp add: comparAndMark_Nil)
next
  case (Cons first rest)
  with assms have "successfulItems b = first # rest"
    by simp
  from comparAndMark_Cons[OF Cons] comparAndMark_Cons[OF this] assms(2)
  show ?thesis by simp
qed

lemma successfulItems_withTotals:
  "successfulItems (processFiles (withTotals t env) paths) = successfulItems (processFiles env paths)"
  by (induction paths)
     (auto simp: successfulItems_def processFiles_def withTotals_def split: option.splits)

lemma addAmount_line:
  assumes "addAmount subtotal item = Inr raised"
  shows "raised = plus_double subtotal (lineAmount item)"
  using assms
  by (auto simp: addAmount_def lineAmount_def fieldOf_def asNumber_def split: sum.splits)

lemma reduce_addAmount:
  assumes "reduce addAmount xs subtotal = Inr amount"
  shows "amount = foldl (\<lambda>subtotal item. plus_double subtotal (lineAmount item)) subtotal xs"
  using assms
proof (induction xs arbitrary: subtotal)
  case Nil
  then show ?case by simp
next
  case (Cons x xs)
  then obtain raised where step: "addAmount subtotal x = Inr raised"
    and rest: "reduce addAmount xs raised = Inr amount"
    by (auto split: sum.splits)
  from Cons.IH[OF rest] addAmount_line[OF step] show ?case
    by simp
qed

lemma processSingleCode_order:
  assumes "res_order (processSingleCode now env code) = Some order"
  shows "\<exists>amount. reduce addAmount (po_items order) (Finite 0) = Inr amount
           \<and> po_total_orden order = Some (JNumber amount)"
  using assms
  by (auto simp: processSingleCode_def failure_def totalOf_def Let_def
      split: scraper_run.splits if_splits sum.splits type_error.splits option.splits json.splits)

lemma foldl_natural:
  assumes "list_all2 naturalLine xs amounts"
      and "a + (\<Sum>(p, q)\<leftarrow>amounts. p * q) \<le> 2 ^ 53"
  shows "foldl (\<lambda>subtotal item. plus_double subtotal (lineAmount item)) (Finite (of_nat a)) xs =
           Finite (of_nat (a + (\<Sum>(p, q)\<leftarrow>amounts. p * q)))"
  using assms
proof (induction xs amounts arbitrary: a rule: list_all2_induct)
  case Nil
  then show ?case by simp
next
  case (Cons item xs pq amounts)
  obtain p q where pq: "pq = (p, q)"
    by (cases pq)
  from Cons.prems pq have small: "p * q \<le> 2 ^ 53" "a + p * q \<le> 2 ^ 53"
    "(a + p * q) + (\<Sum>(p, q)\<leftarrow>amounts. p * q) \<le> 2 ^ 53"
    by simp_all
  from Cons.hyps(1) pq have "lineAmount item = times_double (Finite (of_nat p)) (Finite (of_nat q))"
    by (simp add: naturalLine_def lineAmount_def asNumber_def numberOf_def)
  also have "\<dots> = Finite (of_nat (p * q))"
    by (rule times_double_exact[OF small(1)])
  finally have "plus_double (Finite (of_nat a)) (lineAmount item) = Finite (of_nat (a + p * q))"
    by (simp only: plus_double_exact[OF small(2)])
  with Cons.IH[OF small(3)] pq show ?case
    by (simp add: add.assoc)
qed

text \<open>
  Claim C7, as stated, fails: one document lists 3 units at \<^verbatim>\<open>0.1\<close> each. The total of
  the order is the double \<^verbatim>\<open>0.30000000000000004\<close>, which is neither 3 times the double
  that \<^verbatim>\<open>0.1\<close> denotes nor 3 times one tenth.
\<close>

theorem total_is_rounded:
  "processSingleCode ''2025-12-15T10:30:00Z''
      \<lparr>scraper = Reported True None, dirExists = True, dirFiles = [''oc.pdf''],
       processFile = (\<lambda>path.
         \<lparr>filename = path, success = True,
          data = Some \<lparr>items = Some (JArray [JObject [(''descripcion'', JString ''Clavo''),
                                                        (''cantidad'', JNumber (Finite 3)),
                                                        (''precio_unitario'', JNumber (roundDouble (1 / 10)))]]),
                       total_orden = None, legible = True, ed_error = None\<rparr>,
          fpr_error = None\<rparr>)\<rparr>
      ''3506-434-SE25''
   = \<lparr>res_success = True,
      res_order = Some
        \<lparr>po_code = ''3506-434-SE25'', po_marca = sobreprecio,
         po_items = [JObject [(''descripcion'', JString ''Clavo''),
                              (''cantidad'', JNumber (Finite 3)),
                              (''precio_unitario'',
                               JNumber (Finite (3602879701896397 / 36028797018963968)))]],
         po_total_orden = Some (JNumber (Finite (1351079888211149 / 4503599627370496))),
         processedAt = ''2025-12-15T10:30:00Z'', po_confidence = alta, po_filesProcessed = 1\<rparr>,
      res_error = None\<rparr>
   \<and> (1351079888211149 / 4503599627370496 :: rat) \<noteq> 3 * (3602879701896397 / 36028797018963968)
   \<and> (1351079888211149 / 4503599627370496 :: rat) \<noteq> 3 * (1 / 10)"
  by code_simp

text \<open>
  Claim C7, amended. Whenever \<open>processSingleCode\<close> produces an order, its total is the sum
  over the order's items, from 0 and in their order, of unit price times quantity, as
  doubles: each product and each partial sum is rounded to the nearest double. When the
  unit prices and quantities are natural numbers and the exact total does not exceed
  \<open>2 ^ 53\<close>, nothing is rounded and the total is the exact sum of quantity times unit
  price. No total reported by an extraction result enters it: replacing the
  \<open>total_orden\<close> of every extraction result by any other value (or by none) leaves the
  whole result of \<open>processSingleCode\<close> unchanged.
\<close>

theorem order_total_recomputed:
  "(\<forall>order. res_order (processSingleCode now env code) = Some order \<longrightarrow>
       po_total_orden order =
         Some (JNumber (foldl (\<lambda>subtotal item. plus_double subtotal (lineAmount item))
                          (Finite 0) (po_items order)))
     \<and> (\<forall>amounts. list_all2 naturalLine (po_items order) amounts
            \<and> (\<Sum>(p, q)\<leftarrow>amounts. p * q) \<le> 2 ^ 53 \<longrightarrow>
          po_total_orden order = Some (JNumber (Finite (of_nat (\<Sum>(p, q)\<leftarrow>amounts. q * p))))))
   \<and> processSingleCode now (withTotals t env) code = processSingleCode now env code"
proof (intro conjI allI impI)
  fix order
  assume order: "res_order (processSingleCode now env code) = Some order"
  from processSingleCode_order[OF this] reduce_addAmount
  show computed: "po_total_orden order =
         Some (JNumber (foldl (\<lambda>subtotal item. plus_double subtotal (lineAmount item))
                          (Finite 0) (po_items order)))"
    by blast
  fix amounts
  assume natural: "list_all2 naturalLine (po_items order) amounts
            \<and> (\<Sum>(p, q)\<leftarrow>amounts. p * q) \<le> 2 ^ 53"
  have "(\<Sum>(p, q)\<leftarrow>amounts. q * p) = (\<Sum>(p, q)\<leftarrow>amounts. p * q)"
    by (simp add: mult.commute)
  with foldl_natural[of "po_items order" amounts 0] natural
  show "po_total_orden order = Some (JNumber (Finite (of_nat (\<Sum>(p, q)\<leftarrow>amounts. q * p))))"
    unfolding computed by simp
next
  let ?paths = "map (joinPath (joinPath DOWNLOADS_DIR code)) (dirFiles env)"
  have "comparAndMark (processFiles (withTotals t env) ?paths) = comparAndMark (processFiles env ?paths)"
    by (rule comparAndMark_cong) (simp add: successfulItems_withTotals, simp add: processFiles_def)
  moreover have "scraper (withTotals t env) = scraper env"
    "dirExists (withTotals t env) = dirExists env" "dirFiles (withTotals t env) = dirFiles env"
    by (simp_all add: withTotals_def)
  ultimately show "processSingleCode now (withTotals t env) code = processSingleCode now env code"
    by (cases "scraper env") (simp_all add: processSingleCode_def Let_def)
qed

text \<open>
  An instance: two documents agree on four chairs at 25000 and one table at 80000, and
  both report a total of 999.
\<close>

theorem order_total_recomputed_witness:
  "res_order (processSingleCode ''2025-12-15T10:30:00Z''
      \<lparr>scraper = Reported True None, dirExists = True, dirFiles = [''oc.pdf'', ''anexo.pdf''],
       processFile = (\<lambda>path.
         \<lparr>filename = path, success = True,
          data = Some \<lparr>items = Some (JArray [JObject [(''descripcion'', JString ''Silla''),
                                                        (''cantidad'', JNumber (Finite 4)),
                                                        (''precio_unitario'', JNumber (Finite 25000))],
                                              JObject [(''descripcion'', JString ''Mesa''),
                                                       (''cantidad'', JNumber (Finite 1)),
                                                       (''precio_unitario'', JNumber (Finite 80000))]]),
                       total_orden = Some (JNumber (Finite 999)), legible = True, ed_error = None\<rparr>,
          fpr_error = None\<rparr>)\<rparr>
      ''3506-434-SE25'')
   = Some \<lparr>po_code = ''3506-434-SE25'', po_marca = normal,
           po_items = [JObject [(''descripcion'', JString ''Silla''),
                                (''cantidad'', JNumber (Finite 4)),
                                (''precio_unitario'', JNumber (Finite 25000))],
                       JObject [(''descripcion'', JString ''Mesa''),
                                (''cantidad'', JNumber (Finite 1)),
                                (''precio_unitario'', JNumber (Finite 80000))]],
           po_total_orden = Some (JNumber (Finite 180000)), processedAt = ''2025-12-15T10:30:00Z'',
           po_confidence = alta, po_filesProcessed = 2\<rparr>"
proof -
  let ?its = "[JObject [(''descripcion'', JString ''Silla''),
                        (''cantidad'', JNumber (Finite 4)),
                        (''precio_unitario'', JNumber (Finite 25000))],
               JObject [(''descripcion'', JString ''Mesa''),
                        (''cantidad'', JNumber (Finite 1)),
                        (''precio_unitario'', JNumber (Finite 80000))]]"
  let ?env = "\<lparr>scraper = Reported True None, dirExists = True, dirFiles = [''oc.pdf'', ''anexo.pdf''],
       processFile = (\<lambda>path.
         \<lparr>filename = path, success = True,
          data = Some \<lparr>items = Some (JArray ?its), total_orden = Some (JNumber (Finite 999)),
                       legible = True, ed_error = None\<rparr>,
          fpr_error = None\<rparr>)\<rparr>"
  let ?run = "processSingleCode ''2025-12-15T10:30:00Z'' ?env ''3506-434-SE25''"
  let ?files = "[joinPath (joinPath DOWNLOADS_DIR ''3506-434-SE25'') ''oc.pdf'',
                 joinPath (joinPath DOWNLOADS_DIR ''3506-434-SE25'') ''anexo.pdf'']"
  have kept: "successfulItems (processFiles ?env ?files) = Some (JArray ?its) # [Some (JArray ?its)]"
    by (simp add: successfulItems_def processFiles_def)
  have agree: "\<forall>its \<in> set [Some (JArray ?its)]. stringify its = stringify (Some (JArray ?its))"
    by simp
  have compared: "comparAndMark (processFiles ?env ?files) =
            Inr \<lparr>cmp_marca = normal, cmp_confidence = alta, cmp_items = Some (JArray ?its),
                  filesProcessed = 2\<rparr>"
    unfolding comparAndMark_agree[OF kept agree] by simp
  obtain amount where amount: "totalOf (Some (JArray ?its)) = Inr (?its, amount)"
    by (simp add: totalOf_def addAmount_def numberOf_def)
  have run: "?run = \<lparr>res_success = True,
      res_order = Some \<lparr>po_code = ''3506-434-SE25'', po_marca = normal, po_items = ?its,
                         po_total_orden = Some (JNumber amount),
                         processedAt = ''2025-12-15T10:30:00Z'', po_confidence = alta,
                         po_filesProcessed = 2\<rparr>,
      res_error = None\<rparr>"
    by (simp add: processSingleCode_def Let_def compared amount)
  let ?order = "\<lparr>po_code = ''3506-434-SE25'', po_marca = normal, po_items = ?its,
                         po_total_orden = Some (JNumber amount),
                         processedAt = ''2025-12-15T10:30:00Z'', po_confidence = alta,
                         po_filesProcessed = 2\<rparr>"
  from run have order: "res_order ?run = Some ?order"
    by simp
  have natural: "list_all2 naturalLine (po_items ?order) [(25000, 4), (80000, 1)]
                   \<and> (\<Sum>(p, q)\<leftarrow>[(25000, 4), (80000, 1)]. p * q) \<le> (2::nat) ^ 53"
    by (simp add: naturalLine_def fieldOf_def)
  from order_total_recomputed[of "''2025-12-15T10:30:00Z''" ?env "''3506-434-SE25''", THEN conjunct1,
      THEN spec, THEN mp, OF order, THEN conjunct2, THEN spec, THEN mp, OF natural]
  have "amount = Finite 180000"
    by simp
  with order show ?thesis by simp
qed

section \<open>Writing a classification for a code that is already stored\<close>

lemma find_append_first:
  "c \<in> f ` set xs \<Longrightarrow> find (\<lambda>x. f x = c) (xs @ ys) = find (\<lambda>x. f x = c) xs"
  by (induction xs) auto

lemma list_ex_code: "list_ex (\<lambda>x. f x = c) xs \<longleftrightarrow> c \<in> f ` set xs"
  by (auto simp: list_ex_iff)

text \<open>Reading back what was read changes nothing more.\<close>

lemma written_written: "written (written v) = written v"
  by (induction v rule: written.induct) (auto split: double.splits)

lemma reread_reread: "reread (reread order) = reread order"
  by (simp add: reread_def written_written option.map_comp comp_def)

lemma loaded_orders_reread:
  assumes "loadProcessed now fs = Inr processed"
  shows "map reread (orders processed) = orders processed"
  using assms by (auto simp: loadProcessed_def reread_reread split: stored_file.splits)

text \<open>
  Claim C8, as stated, fails: a store holds a record of the code with the label
  \<open>normal\<close>; writing a new record of the same code with the label \<open>sobreprecio\<close> leaves
  the files as they were, the old record still in place.
\<close>

theorem addProcessedOrder_keeps_old_record:
  "addProcessedOrder ''2025-12-16T09:00:00Z''
     \<lparr>po_code = ''3506-434-SE25'', po_marca = sobreprecio,
      po_items = [JObject [(''descripcion'', JString ''Equipo de computo''),
                           (''cantidad'', JNumber (Finite 1)),
                           (''precio_unitario'', JNumber (Finite 15042016))]],
      po_total_orden = Some (JNumber (Finite 15042016)), processedAt = ''2025-12-16T09:00:00Z'',
      po_confidence = alta, po_filesProcessed = 3\<rparr>
     \<lparr>pendingFile = Absent,
      processedFile = Holds
        \<lparr>orders = [\<lparr>po_code = ''3506-434-SE25'', po_marca = normal, po_items = [],
                     po_total_orden = Some (JNumber (Finite 0)), processedAt = ''2025-12-15T10:30:00Z'',
                     po_confidence = alta, po_filesProcessed = 1\<rparr>],
         pr_totalProcessed = 1, pr_lastUpdated = ''2025-12-15T10:30:00Z''\<rparr>,
      failedFile = Absent\<rparr>
   = Inr \<lparr>pendingFile = Absent,
      processedFile = Holds
        \<lparr>orders = [\<lparr>po_code = ''3506-434-SE25'', po_marca = normal, po_items = [],
                     po_total_orden = Some (JNumber (Finite 0)), processedAt = ''2025-12-15T10:30:00Z'',
                     po_confidence = alta, po_filesProcessed = 1\<rparr>],
         pr_totalProcessed = 1, pr_lastUpdated = ''2025-12-15T10:30:00Z''\<rparr>,
      failedFile = Absent\<rparr>"
  by (simp add: addProcessedOrder_def loadProcessed_def reread_def)

text \<open>
  Claim C8, amended. Writing never replaces a stored record. When the processed file
  already holds a record of the order's code, \<open>addProcessedOrder\<close> leaves the files as
  they are: the stored record stays and the new one is dropped. Otherwise it appends the
  order and writes the file with the new count. \<open>addProcessedOrders\<close> appends, of the
  orders given, those whose code the file did not hold, and writes the file. After
  either, the first record of every code the file held is the record it held before.
\<close>

theorem stored_record_is_kept:
  assumes "loadProcessed now fs = Inr processed"
  shows "(po_code order \<in> po_code ` set (orders processed) \<longrightarrow>
            addProcessedOrder now order fs = Inr fs)
       \<and> (po_code order \<notin> po_code ` set (orders processed) \<longrightarrow>
            addProcessedOrder now order fs =
              Inr (fs\<lparr>processedFile := Holds
                    \<lparr>orders = orders processed @ [order],
                     pr_totalProcessed = length (orders processed) + 1,
                     pr_lastUpdated = now\<rparr>\<rparr>))
       \<and> addProcessedOrders now new fs =
            Inr (fs\<lparr>processedFile := Holds
                  \<lparr>orders = orders processed @
                      filter (\<lambda>o'. po_code o' \<notin> po_code ` set (orders processed)) new,
                   pr_totalProcessed = length (orders processed) +
                      length (filter (\<lambda>o'. po_code o' \<notin> po_code ` set (orders processed)) new),
                   pr_lastUpdated = now\<rparr>\<rparr>)
       \<and> (\<forall>fs' processed' c.
            (addProcessedOrder now order fs = Inr fs' \<or> addProcessedOrders now new fs = Inr fs')
            \<and> loadProcessed now fs' = Inr processed' \<and> c \<in> po_code ` set (orders processed)
            \<longrightarrow> find (\<lambda>o'. po_code o' = c) (orders processed') =
                find (\<lambda>o'. po_code o' = c) (orders processed))"
proof -
  have stored: "addProcessedOrder now order fs = Inr fs"
    if "po_code order \<in> po_code ` set (orders processed)"
    using assms that by (simp add: addProcessedOrder_def list_ex_code)
  have fresh: "addProcessedOrder now order fs =
              Inr (fs\<lparr>processedFile := Holds
                    \<lparr>orders = orders processed @ [order],
                     pr_totalProcessed = length (orders processed) + 1,
                     pr_lastUpdated = now\<rparr>\<rparr>)"
    if "po_code order \<notin> po_code ` set (orders processed)"
    using assms that by (simp add: addProcessedOrder_def list_ex_code saveProcessed_def)
  have many: "addProcessedOrders now new fs =
            Inr (fs\<lparr>processedFile := Holds
                  \<lparr>orders = orders processed @
                      filter (\<lambda>o'. po_code o' \<notin> po_code ` set (orders processed)) new,
                   pr_totalProcessed = length (orders processed) +
                      length (filter (\<lambda>o'. po_code o' \<notin> po_code ` set (orders processed)) new),
                   pr_lastUpdated = now\<rparr>\<rparr>)"
    using assms by (simp add: addProcessedOrders_def saveProcessed_def)
  have kept: "find (\<lambda>o'. po_code o' = c) (orders processed') =
                find (\<lambda>o'. po_code o' = c) (orders processed)"
    if step: "addProcessedOrder now order fs = Inr fs' \<or> addProcessedOrders now new fs = Inr fs'"
      and load: "loadProcessed now fs' = Inr processed'"
      and c: "c \<in> po_code ` set (orders processed)"
    for fs' processed' c
  proof -
    from step have "\<exists>ys. orders processed' = orders processed @ ys"
    proof
      assume one: "addProcessedOrder now order fs = Inr fs'"
      show ?thesis
      proof (cases "po_code order \<in> po_code ` set (orders processed)")
        case True
        with stored one load assms show ?thesis by simp
      next
        case False
        with fresh one load loaded_orders_reread[OF assms] show ?thesis
          by (auto simp: loadProcessed_def)
      qed
    next
      assume "addProcessedOrders now new fs = Inr fs'"
      with many load loaded_orders_reread[OF assms] show ?thesis
        by (auto simp: loadProcessed_def)
    qed
    then obtain ys where "orders processed' = orders processed @ ys" ..
    with find_append_first[OF c] show ?thesis by simp
  qed
  from stored fresh many kept show ?thesis by blast
qed

theorem stored_record_is_kept_witness:
  "loadProcessed ''t1''
     \<lparr>pendingFile = Absent,
      processedFile = Holds
        \<lparr>orders = [\<lparr>po_code = ''3506-434-SE25'', po_marca = normal, po_items = [],
                     po_total_orden = Some (JNumber (Finite 0)), processedAt = ''t0'',
                     po_confidence = alta, po_filesProcessed = 1\<rparr>],
         pr_totalProcessed = 1, pr_lastUpdated = ''t0''\<rparr>,
      failedFile = Absent\<rparr>
   = Inr \<lparr>orders = [\<lparr>po_code = ''3506-434-SE25'', po_marca = normal, po_items = [],
                     po_total_orden = Some (JNumber (Finite 0)), processedAt = ''t0'',
                     po_confidence = alta, po_filesProcessed = 1\<rparr>],
         pr_totalProcessed = 1, pr_lastUpdated = ''t0''\<rparr>
   \<and> addProcessedOrder ''t1''
     \<lparr>po_code = ''3506-434-SE25'', po_marca = sobreprecio, po_items = [],
      po_total_orden = Some (JNumber (Finite 0)), processedAt = ''t1'', po_confidence = baja, po_filesProcessed = 2\<rparr>
     \<lparr>pendingFile = Absent,
      processedFile = Holds
        \<lparr>orders = [\<lparr>po_code = ''3506-434-SE25'', po_marca = normal, po_items = [],
                     po_total_orden = Some (JNumber (Finite 0)), processedAt = ''t0'',
                     po_confidence = alta, po_filesProcessed = 1\<rparr>],
         pr_totalProcessed = 1, pr_lastUpdated = ''t0''\<rparr>,
      failedFile = Absent\<rparr>
   = Inr \<lparr>pendingFile = Absent,
      processedFile = Holds
        \<lparr>orders = [\<lparr>po_code = ''3506-434-SE25'', po_marca = normal, po_items = [],
                     po_total_orden = Some (JNumber (Finite 0)), processedAt = ''t0'',
                     po_confidence = alta, po_filesProcessed = 1\<rparr>],
         pr_totalProcessed = 1, pr_lastUpdated = ''t0''\<rparr>,
      failedFile = Absent\<rparr>"
proof -
  let ?old = "\<lparr>po_code = ''3506-434-SE25'', po_marca = normal, po_items = [],
                     po_total_orden = Some (JNumber (Finite 0)), processedAt = ''t0'',
                     po_confidence = alta, po_filesProcessed = 1\<rparr>"
  let ?data = "\<lparr>orders = [?old], pr_totalProcessed = 1, pr_lastUpdated = ''t0''\<rparr>"
  let ?fs = "\<lparr>pendingFile = Absent, processedFile = Holds ?data, failedFile = Absent\<rparr>"
  let ?new = "\<lparr>po_code = ''3506-434-SE25'', po_marca = sobreprecio, po_items = [],
      po_total_orden = Some (JNumber (Finite 0)), processedAt = ''t1'', po_confidence = baja, po_filesProcessed = 2\<rparr>"
  have h: "loadProcessed ''t1'' ?fs = Inr ?data"
    by (simp add: loadProcessed_def reread_def)
  from stored_record_is_kept[OF h, of ?new]
  have "addProcessedOrder ''t1'' ?new ?fs = Inr ?fs"
    by simp
  with h show ?thesis by simp
qed

section \<open>Validation of codes\<close>

lemma lang_SeqI: "u \<in> lang r \<Longrightarrow> v \<in> lang s \<Longrightarrow> u @ v \<in> lang (Seq r s)"
  by (auto simp: conc_iff)

lemma two_chars: "length w = 2 \<and> (\<forall>c \<in> set w. P c) \<longleftrightarrow> (\<exists>a b. w = [a, b] \<and> P a \<and> P b)"
proof
  assume "length w = 2 \<and> (\<forall>c \<in> set w. P c)"
  then show "\<exists>a b. w = [a, b] \<and> P a \<and> P b"
    by (cases w; cases "tl w") auto
qed auto

lemma lang_codeRegex:
  "lang codeRegex =
     {d1 @ ''-'' @ d2 @ ''-'' @ [a, b] @ ''25'' | d1 d2 a b.
        3 \<le> length d1 \<and> length d1 \<le> 7 \<and> (\<forall>c \<in> set d1. isDigit c) \<and>
        1 \<le> length d2 \<and> length d2 \<le> 4 \<and> (\<forall>c \<in> set d2. isDigit c) \<and>
        isUpper a \<and> isUpper b}"
  (is "?L = ?R")
proof (intro set_eqI iffI)
  fix s
  assume "s \<in> ?L"
  then obtain d1 d2 u where
    "s = d1 @ ''-'' @ d2 @ ''-'' @ u @ ''25''"
    "3 \<le> length d1 \<and> length d1 \<le> 7 \<and> (\<forall>c \<in> set d1. isDigit c)"
    "1 \<le> length d2 \<and> length d2 \<le> 4 \<and> (\<forall>c \<in> set d2. isDigit c)"
    "length u = 2 \<and> (\<forall>c \<in> set u. isUpper c)"
    by (auto simp: codeRegex_def conc_iff lang_lit lang_repeatBetween[OF lang_digit]
        lang_repeatExactly[OF lang_upper])
  then show "s \<in> ?R"
    by (auto simp: two_chars)
next
  fix s
  assume "s \<in> ?R"
  then obtain d1 d2 a b where s: "s = d1 @ ''-'' @ d2 @ ''-'' @ [a, b] @ ''25''"
    and d1: "d1 \<in> lang (repeatBetween 3 7 digit)"
    and d2: "d2 \<in> lang (repeatBetween 1 4 digit)"
    and u: "[a, b] \<in> lang (repeatExactly 2 upper)"
    by (auto simp: lang_repeatBetween[OF lang_digit] lang_repeatExactly[OF lang_upper])
  have "''25'' \<in> lang (Seq (lit (CHR ''2'')) (lit (CHR ''5'')))"
    using lang_SeqI[of "''2''" "lit (CHR ''2'')" "''5''" "lit (CHR ''5'')"]
    by (simp add: lang_lit)
  from lang_SeqI[OF u this]
  have "[a, b] @ ''25'' \<in> lang (Seq (repeatExactly 2 upper) (Seq (lit (CHR ''2'')) (lit (CHR ''5''))))" .
  from lang_SeqI[OF _ this, of "''-''" "lit (CHR ''-'')"]
  have "''-'' @ [a, b] @ ''25'' \<in> lang (Seq (lit (CHR ''-''))
      (Seq (repeatExactly 2 upper) (Seq (lit (CHR ''2'')) (lit (CHR ''5'')))))"
    by (simp add: lang_lit)
  from lang_SeqI[OF d2 this]
  have "d2 @ ''-'' @ [a, b] @ ''25'' \<in> lang (Seq (repeatBetween 1 4 digit) (Seq (lit (CHR ''-''))
      (Seq (repeatExactly 2 upper) (Seq (lit (CHR ''2'')) (lit (CHR ''5''))))))" .
  from lang_SeqI[OF _ this, of "''-''" "lit (CHR ''-'')"]
  have "''-'' @ d2 @ ''-'' @ [a, b] @ ''25'' \<in> lang (Seq (lit (CHR ''-''))
      (Seq (repeatBetween 1 4 digit) (Seq (lit (CHR ''-''))
      (Seq (repeatExactly 2 upper) (Seq (lit (CHR ''2'')) (lit (CHR ''5'')))))))"
    by (simp add: lang_lit)
  from lang_SeqI[OF d1 this]
  have "d1 @ ''-'' @ d2 @ ''-'' @ [a, b] @ ''25'' \<in> lang codeRegex"
    by (simp only: codeRegex_def)
  with s show "s \<in> ?L" by simp
qed

lemma star_chars: "star {[c] | c. P c} = {w. \<forall>c \<in> set w. P c}"
proof (intro set_eqI iffI)
  fix w
  assume "w \<in> star {[c] | c. P c}"
  then show "w \<in> {w. \<forall>c \<in> set w. P c}"
    by (induction rule: star.induct) auto
next
  fix w
  assume "w \<in> {w. \<forall>c \<in> set w. P c}"
  then show "w \<in> star {[c] | c. P c}"
  proof (induction w)
    case Nil
    show ?case by (rule star_empty)
  next
    case (Cons c w)
    then have "[c] \<in> {[c] | c. P c}" "w \<in> star {[c] | c. P c}"
      by simp_all
    then have "[c] @ w \<in> star {[c] | c. P c}"
      by (rule star_more)
    then show ?case by simp
  qed
qed

lemma lang_oneOrMore:
  assumes "lang r = {[c] | c. P c}"
  shows "lang (oneOrMore r) = {w. w \<noteq> [] \<and> (\<forall>c \<in> set w. P c)}"
proof (intro set_eqI iffI)
  fix w
  assume "w \<in> lang (oneOrMore r)"
  then show "w \<in> {w. w \<noteq> [] \<and> (\<forall>c \<in> set w. P c)}"
    by (auto simp: oneOrMore_def assms conc_iff star_chars)
next
  fix w
  assume "w \<in> {w. w \<noteq> [] \<and> (\<forall>c \<in> set w. P c)}"
  then obtain c v where w: "w = [c] @ v" "P c" "\<forall>c \<in> set v. P c"
    by (cases w) auto
  then have "[c] \<in> lang r" "v \<in> lang (Star r)"
    by (simp_all add: assms star_chars)
  then have "[c] @ v \<in> lang (Seq r (Star r))"
    by (rule lang_SeqI)
  with w(1) show "w \<in> lang (oneOrMore r)"
    by (simp add: oneOrMore_def)
qed

lemma lang_basicFormatRegex:
  "lang basicFormatRegex =
     {d1 @ ''-'' @ d2 @ ''-'' @ [a, b] @ [y, z] | d1 d2 a b y z.
        d1 \<noteq> [] \<and> (\<forall>c \<in> set d1. isDigit c) \<and> d2 \<noteq> [] \<and> (\<forall>c \<in> set d2. isDigit c) \<and>
        isUpper a \<and> isUpper b \<and> isDigit y \<and> isDigit z}"
  (is "?L = ?R")
proof (intro set_eqI iffI)
  fix s
  assume "s \<in> ?L"
  then obtain d1 d2 u t where
    "s = d1 @ ''-'' @ d2 @ ''-'' @ u @ t"
    "d1 \<noteq> [] \<and> (\<forall>c \<in> set d1. isDigit c)"
    "d2 \<noteq> [] \<and> (\<forall>c \<in> set d2. isDigit c)"
    "length u = 2 \<and> (\<forall>c \<in> set u. isUpper c)"
    "length t = 2 \<and> (\<forall>c \<in> set t. isDigit c)"
    by (auto simp: basicFormatRegex_def conc_iff lang_lit lang_oneOrMore[OF lang_digit]
        lang_repeatExactly[OF lang_upper] lang_repeatExactly[OF lang_digit])
  then show "s \<in> ?R"
    unfolding two_chars by blast
next
  fix s
  assume "s \<in> ?R"
  then obtain d1 d2 a b y z where s: "s = d1 @ ''-'' @ d2 @ ''-'' @ [a, b] @ [y, z]"
    and d1: "d1 \<in> lang (oneOrMore digit)"
    and d2: "d2 \<in> lang (oneOrMore digit)"
    and u: "[a, b] \<in> lang (repeatExactly 2 upper)"
    and t: "[y, z] \<in> lang (repeatExactly 2 digit)"
    by (auto simp: lang_oneOrMore[OF lang_digit] lang_repeatExactly[OF lang_upper]
        lang_repeatExactly[OF lang_digit])
  from lang_SeqI[OF u t]
  have "[a, b] @ [y, z] \<in> lang (Seq (repeatExactly 2 upper) (repeatExactly 2 digit))" .
  from lang_SeqI[OF _ this, of "''-''" "lit (CHR ''-'')"]
  have "''-'' @ [a, b] @ [y, z] \<in> lang (Seq (lit (CHR ''-''))
      (Seq (repeatExactly 2 upper) (repeatExactly 2 digit)))"
    by (simp add: lang_lit)
  from lang_SeqI[OF d2 this]
  have "d2 @ ''-'' @ [a, b] @ [y, z] \<in> lang (Seq (oneOrMore digit) (Seq (lit (CHR ''-''))
      (Seq (repeatExactly 2 upper) (repeatExactly 2 digit))))" .
  from lang_SeqI[OF _ this, of "''-''" "lit (CHR ''-'')"]
  have "''-'' @ d2 @ ''-'' @ [a, b] @ [y, z] \<in> lang (Seq (lit (CHR ''-''))
      (Seq (oneOrMore digit) (Seq (lit (CHR ''-''))
      (Seq (repeatExactly 2 upper) (repeatExactly 2 digit)))))"
    by (simp add: lang_lit)
  from lang_SeqI[OF d1 this]
  have "d1 @ ''-'' @ d2 @ ''-'' @ [a, b] @ [y, z] \<in> lang basicFormatRegex"
    by (simp only: basicFormatRegex_def)
  with s show "s \<in> ?L" by simp
qed

text \<open>
  The format check of the single-code scraper accepts exactly the strings made of a
  numeric segment, a hyphen, a numeric segment, a hyphen, two upper-case letters and two
  digits.
\<close>

lemma matchesBasicFormat_iff:
  "matchesBasicFormat s \<longleftrightarrow>
     (\<exists>d1 d2 a b y z. s = d1 @ ''-'' @ d2 @ ''-'' @ [a, b] @ [y, z] \<and>
        d1 \<noteq> [] \<and> (\<forall>c \<in> set d1. isDigit c) \<and> d2 \<noteq> [] \<and> (\<forall>c \<in> set d2. isDigit c) \<and>
        isUpper a \<and> isUpper b \<and> isDigit y \<and> isDigit z)"
  unfolding matchesBasicFormat_def regex_test_iff lang_basicFormatRegex by blast

lemma isValidCode_iff:
  "isValidCode s \<longleftrightarrow>
     (\<exists>d1 d2 a b. s = d1 @ ''-'' @ d2 @ ''-'' @ [a, b] @ ''25'' \<and>
        3 \<le> length d1 \<and> length d1 \<le> 7 \<and> (\<forall>c \<in> set d1. isDigit c) \<and>
        1 \<le> length d2 \<and> length d2 \<le> 4 \<and> (\<forall>c \<in> set d2. isDigit c) \<and>
        isUpper a \<and> isUpper b)"
  unfolding isValidCode_def regex_test_iff lang_codeRegex by blast

lemma not_isValidCode_Nil: "\<not> isValidCode []"
  by (simp add: isValidCode_iff)

lemma set_setAdd: "set (setAdd xs x) = insert x (set xs)"
  by (auto simp: setAdd_def)

lemma distinct_setAdd: "distinct xs \<Longrightarrow> distinct (setAdd xs x)"
  by (simp add: setAdd_def)

lemma set_collectCode:
  "set (collectCode row acc) =
     set acc \<union> {trim c | c. chilecompra_code row = Some c \<and> isValidCode (trim c)}"
  by (cases "chilecompra_code row") (auto simp: collectCode_def set_setAdd not_isValidCode_Nil)

lemma fold_collectCode:
  "set (fold collectCode rows acc) =
     set acc \<union> {trim c | c. Some c \<in> chilecompra_code ` set rows \<and> isValidCode (trim c)}"
proof (induction rows arbitrary: acc)
  case Nil
  then show ?case by simp
next
  case (Cons row rows)
  have "set (fold collectCode (row # rows) acc) =
          set (collectCode row acc) \<union>
            {trim c | c. Some c \<in> chilecompra_code ` set rows \<and> isValidCode (trim c)}"
    by (simp add: Cons.IH)
  also have "\<dots> = set acc \<union>
      {trim c | c. Some c \<in> chilecompra_code ` set (row # rows) \<and> isValidCode (trim c)}"
    unfolding set_collectCode by (auto simp: image_iff)
  finally show ?case .
qed

lemma fold_collectCode_distinct:
  "distinct acc \<Longrightarrow> distinct (fold collectCode rows acc)"
proof (induction rows arbitrary: acc)
  case Nil
  then show ?case by simp
next
  case (Cons row rows)
  have "distinct (collectCode row acc)"
    using Cons.prems by (cases "chilecompra_code row") (simp_all add: collectCode_def distinct_setAdd)
  from Cons.IH[OF this] show ?case
    by simp
qed

text \<open>
  Claim C9, as stated, fails: \<open>3506-434-SE24\<close> has the structure the claim describes
  (digits, a hyphen, digits, a hyphen, two upper-case letters, two digits: the pattern
  the single-code scraper checks), and \<open>isValidCode\<close> rejects it, since its last two
  characters are not \<open>25\<close>.
\<close>

theorem structural_pattern_not_enough:
  "matchesBasicFormat ''3506-434-SE24'' \<and> \<not> isValidCode ''3506-434-SE24''"
  by code_simp

text \<open>
  Claim C9, amended. \<open>isValidCode\<close> accepts a string exactly when it is made of three to
  seven digits, a hyphen, one to four digits, a hyphen, two upper-case letters and the
  two characters \<open>25\<close>, with nothing before or after. \<open>extractUniqueCodes\<close> raises no
  error (its result is a plain list): it returns, in ascending order and each once, the
  trimmed codes of the rows that pass this validation, and drops every other row's code.
\<close>

theorem code_validation:
  "(isValidCode s \<longleftrightarrow>
     (\<exists>d1 d2 a b. s = d1 @ ''-'' @ d2 @ ''-'' @ [a, b] @ ''25'' \<and>
        3 \<le> length d1 \<and> length d1 \<le> 7 \<and> (\<forall>c \<in> set d1. isDigit c) \<and>
        1 \<le> length d2 \<and> length d2 \<le> 4 \<and> (\<forall>c \<in> set d2. isDigit c) \<and>
        isUpper a \<and> isUpper b))
   \<and> set (extractUniqueCodes rows) =
        {trim c | c. Some c \<in> chilecompra_code ` set rows \<and> isValidCode (trim c)}
   \<and> sorted (extractUniqueCodes rows)
   \<and> distinct (extractUniqueCodes rows)"
proof (intro conjI)
  show "isValidCode s \<longleftrightarrow>
     (\<exists>d1 d2 a b. s = d1 @ ''-'' @ d2 @ ''-'' @ [a, b] @ ''25'' \<and>
        3 \<le> length d1 \<and> length d1 \<le> 7 \<and> (\<forall>c \<in> set d1. isDigit c) \<and>
        1 \<le> length d2 \<and> length d2 \<le> 4 \<and> (\<forall>c \<in> set d2. isDigit c) \<and>
        isUpper a \<and> isUpper b)"
    by (rule isValidCode_iff)
  show "set (extractUniqueCodes rows) =
        {trim c | c. Some c \<in> chilecompra_code ` set rows \<and> isValidCode (trim c)}"
    unfolding extractUniqueCodes_def by (simp add: fold_collectCode)
  show "sorted (extractUniqueCodes rows)"
    unfolding extractUniqueCodes_def by simp
  show "distinct (extractUniqueCodes rows)"
    unfolding extractUniqueCodes_def by (simp add: fold_collectCode_distinct)
qed

theorem code_validation_witness:
  "list_all isDigit ''3506'' \<and> list_all isDigit ''434''
   \<and> isUpper (CHR ''S'') \<and> isUpper (CHR ''E'')
   \<and> isValidCode ''3506-434-SE25''
   \<and> extractUniqueCodes
       [\<lparr>purchase_id = ''1'', chilecompra_code = Some '' 3506-434-SE25 '', municipality_id = ''77'',
         supplier_rut = ''76.123.456-7'', quantity = ''1'', unit_total_price = ''15042016'',
         is_expensive = ''true'', price_excess_amount = ''0'', price_excess_percentage = ''0'',
         item_id = ''9''\<rparr>,
        \<lparr>purchase_id = ''2'', chilecompra_code = Some ''3506-434-SE24'', municipality_id = ''77'',
         supplier_rut = ''76.123.456-7'', quantity = ''1'', unit_total_price = ''100'',
         is_expensive = ''false'', price_excess_amount = ''0'', price_excess_percentage = ''0'',
         item_id = ''9''\<rparr>,
        \<lparr>purchase_id = ''3'', chilecompra_code = None, municipality_id = ''77'',
         supplier_rut = ''76.123.456-7'', quantity = ''1'', unit_total_price = ''100'',
         is_expensive = ''false'', price_excess_amount = ''0'', price_excess_percentage = ''0'',
         item_id = ''9''\<rparr>,
        \<lparr>purchase_id = ''4'', chilecompra_code = Some ''3506-434-SE25'', municipality_id = ''77'',
         supplier_rut = ''76.123.456-7'', quantity = ''2'', unit_total_price = ''100'',
         is_expensive = ''false'', price_excess_amount = ''0'', price_excess_percentage = ''0'',
         item_id = ''10''\<rparr>]
     = [''3506-434-SE25'']"
proof -
  have digits: "\<forall>c \<in> set ''3506''. isDigit c" "\<forall>c \<in> set ''434''. isDigit c"
    by code_simp+
  have letters: "isUpper (CHR ''S'')" "isUpper (CHR ''E'')"
    by code_simp+
  have "''3506-434-SE25'' = ''3506'' @ ''-'' @ ''434'' @ ''-'' @ [CHR ''S'', CHR ''E''] @ ''25''"
    by simp
  with digits letters
  have "\<exists>d1 d2 a b. ''3506-434-SE25'' = d1 @ ''-'' @ d2 @ ''-'' @ [a, b] @ ''25'' \<and>
        3 \<le> length d1 \<and> length d1 \<le> 7 \<and> (\<forall>c \<in> set d1. isDigit c) \<and>
        1 \<le> length d2 \<and> length d2 \<le> 4 \<and> (\<forall>c \<in> set d2. isDigit c) \<and>
        isUpper a \<and> isUpper b"
    by (intro exI[of _ "''3506''"] exI[of _ "''434''"] exI[of _ "CHR ''S''"] exI[of _ "CHR ''E''"]) simp
  with code_validation[of "''3506-434-SE25''" "[]"] have valid: "isValidCode ''3506-434-SE25''"
    by blast
  have rows: "extractUniqueCodes
       [\<lparr>purchase_id = ''1'', chilecompra_code = Some '' 3506-434-SE25 '', municipality_id = ''77'',
         supplier_rut = ''76.123.456-7'', quantity = ''1'', unit_total_price = ''15042016'',
         is_expensive = ''true'', price_excess_amount = ''0'', price_excess_percentage = ''0'',
         item_id = ''9''\<rparr>,
        \<lparr>purchase_id = ''2'', chilecompra_code = Some ''3506-434-SE24'', municipality_id = ''77'',
         supplier_rut = ''76.123.456-7'', quantity = ''1'', unit_total_price = ''100'',
         is_expensive = ''false'', price_excess_amount = ''0'', price_excess_percentage = ''0'',
         item_id = ''9''\<rparr>,
        \<lparr>purchase_id = ''3'', chilecompra_code = None, municipality_id = ''77'',
         supplier_rut = ''76.123.456-7'', quantity = ''1'', unit_total_price = ''100'',
         is_expensive = ''false'', price_excess_amount = ''0'', price_excess_percentage = ''0'',
         item_id = ''9''\<rparr>,
        \<lparr>purchase_id = ''4'', chilecompra_code = Some ''3506-434-SE25'', municipality_id = ''77'',
         supplier_rut = ''76.123.456-7'', quantity = ''2'', unit_total_price = ''100'',
         is_expensive = ''false'', price_excess_amount = ''0'', price_excess_percentage = ''0'',
         item_id = ''10''\<rparr>]
     = [''3506-434-SE25'']"
    by code_simp
  from digits have "list_all isDigit ''3506''" "list_all isDigit ''434''"
    by (simp_all only: list_all_iff)
  with letters valid rows show ?thesis
    by (intro conjI)
qed
section \<open>The completion percentage\<close>

lemma getStats_counts:
  assumes "countOfPending fs = Some P" "countOfProcessed fs = Some R" "countOfFailed fs = Some F"
  shows "getStats now fs =
           Inr \<lparr>st_pending = numberOfCount P, st_processed = numberOfCount R,
                 st_failed = numberOfCount F,
                 st_total = plus_double (plus_double (numberOfCount P) (numberOfCount R))
                                        (numberOfCount F),
                 completion =
                   times_double
                     (divide_double (numberOfCount R)
                        (plus_double (plus_double (numberOfCount P) (numberOfCount R))
                                     (numberOfCount F)))
                     (Finite 100)\<rparr>"
  using assms
  by (auto simp: getStats_def loadPending_def loadProcessed_def loadFailed_def Let_def
      countOfPending_def countOfProcessed_def countOfFailed_def split: stored_file.splits)

lemma sum_of_counts:
  assumes "P + R + F \<le> 2 ^ 53"
  shows "plus_double (plus_double (numberOfCount P) (numberOfCount R)) (numberOfCount F) =
           Finite (of_nat (P + R + F))"
proof -
  from assms have "P \<le> 2 ^ 53" "R \<le> 2 ^ 53" "F \<le> 2 ^ 53" "P + R \<le> 2 ^ 53"
    by simp_all
  then show ?thesis
    using assms by (simp only: numberOfCount_exact plus_double_exact)
qed

text \<open>
  Claim C10. \<open>getStats\<close> returns the three counts the files give and computes, on
  doubles, their sum and the completion as the processed count divided by that sum,
  times 100; nothing looks at the divisor. So with none of the three files on disk (the
  state before the first load of codes) every count is zero and the completion is zero
  divided by zero, NaN. For counts whose sum does not exceed \<open>2 ^ 53\<close> (no rounding in
  the sum), the sum is exact, the completion is NaN when the sum is zero, and otherwise
  it is the rounded quotient times 100, which is not NaN.
\<close>

theorem getStats_zero_by_zero:
  "(countOfPending fs = Some P \<and> countOfProcessed fs = Some R \<and> countOfFailed fs = Some F \<longrightarrow>
      getStats now fs =
        Inr \<lparr>st_pending = numberOfCount P, st_processed = numberOfCount R,
              st_failed = numberOfCount F,
              st_total = plus_double (plus_double (numberOfCount P) (numberOfCount R))
                                     (numberOfCount F),
              completion =
                times_double
                  (divide_double (numberOfCount R)
                     (plus_double (plus_double (numberOfCount P) (numberOfCount R))
                                  (numberOfCount F)))
                  (Finite 100)\<rparr>
    \<and> (P + R + F \<le> 2 ^ 53 \<longrightarrow>
         getStats now fs =
           Inr \<lparr>st_pending = Finite (of_nat P), st_processed = Finite (of_nat R),
                 st_failed = Finite (of_nat F), st_total = Finite (of_nat (P + R + F)),
                 completion =
                   (if P + R + F = 0 then NaN
                    else times_double (roundDouble (of_nat R / of_nat (P + R + F))) (Finite 100))\<rparr>
       \<and> (\<forall>stats. getStats now fs = Inr stats \<longrightarrow>
             (completion stats = NaN \<longleftrightarrow> P + R + F = 0))))
   \<and> getStats now \<lparr>pendingFile = Absent, processedFile = Absent, failedFile = Absent\<rparr> =
       Inr \<lparr>st_pending = Finite 0, st_processed = Finite 0, st_failed = Finite 0,
             st_total = Finite 0, completion = NaN\<rparr>
   \<and> divide_double (Finite 0) (Finite 0) = NaN
   \<and> times_double NaN (Finite 100) = NaN"
proof (intro conjI impI; (elim conjE)?)
  assume counts: "countOfPending fs = Some P" "countOfProcessed fs = Some R"
    "countOfFailed fs = Some F"
  show general: "getStats now fs =
        Inr \<lparr>st_pending = numberOfCount P, st_processed = numberOfCount R,
              st_failed = numberOfCount F,
              st_total = plus_double (plus_double (numberOfCount P) (numberOfCount R))
                                     (numberOfCount F),
              completion =
                times_double
                  (divide_double (numberOfCount R)
                     (plus_double (plus_double (numberOfCount P) (numberOfCount R))
                                  (numberOfCount F)))
                  (Finite 100)\<rparr>"
    using counts by (rule getStats_counts)
  assume small: "P + R + F \<le> 2 ^ 53"
  then have each: "numberOfCount P = Finite (of_nat P)" "numberOfCount R = Finite (of_nat R)"
    "numberOfCount F = Finite (of_nat F)"
    by (simp_all add: numberOfCount_exact)
  have quotient: "divide_double (Finite (of_nat R)) (Finite (of_nat (P + R + F))) =
                    (if P + R + F = 0 then NaN else roundDouble (of_nat R / of_nat (P + R + F)))"
    by simp
  show exact: "getStats now fs =
           Inr \<lparr>st_pending = Finite (of_nat P), st_processed = Finite (of_nat R),
                 st_failed = Finite (of_nat F), st_total = Finite (of_nat (P + R + F)),
                 completion =
                   (if P + R + F = 0 then NaN
                    else times_double (roundDouble (of_nat R / of_nat (P + R + F))) (Finite 100))\<rparr>"
    unfolding general sum_of_counts[OF small] unfolding each quotient by simp
  show "\<forall>stats. getStats now fs = Inr stats \<longrightarrow> (completion stats = NaN \<longleftrightarrow> P + R + F = 0)"
    unfolding exact using times_hundred_not_NaN[of "of_nat R / of_nat (P + R + F)"]
    by (auto simp del: times_double.simps)
next
  show "getStats now \<lparr>pendingFile = Absent, processedFile = Absent, failedFile = Absent\<rparr> =
       Inr \<lparr>st_pending = Finite 0, st_processed = Finite 0, st_failed = Finite 0,
             st_total = Finite 0, completion = NaN\<rparr>"
    by (simp add: getStats_def loadPending_def loadProcessed_def loadFailed_def
        numberOfCount_def roundDouble_def Let_def)
qed simp_all

text \<open>
  An instance: a pending file that holds no code and no other file; and a run in
  progress, one code of three processed, whose completion is the double
  \<^verbatim>\<open>33.33333333333333\<close>.
\<close>

theorem getStats_zero_by_zero_witness:
  "countOfPending
     \<lparr>pendingFile = Holds \<lparr>pd_codes = [], pd_lastUpdated = ''2025-12-15T09:00:00Z'', totalPending = 0\<rparr>,
      processedFile = Absent, failedFile = Absent\<rparr> = Some 0
   \<and> getStats ''2025-12-15T10:00:00Z''
     \<lparr>pendingFile = Holds \<lparr>pd_codes = [], pd_lastUpdated = ''2025-12-15T09:00:00Z'', totalPending = 0\<rparr>,
      processedFile = Absent, failedFile = Absent\<rparr> =
     Inr \<lparr>st_pending = Finite 0, st_processed = Finite 0, st_failed = Finite 0,
           st_total = Finite 0, completion = NaN\<rparr>
   \<and> getStats ''2025-12-15T10:00:00Z''
     \<lparr>pendingFile = Holds \<lparr>pd_codes = [''1000-1-AB25'', ''2000-2-CD25''],
                            pd_lastUpdated = ''2025-12-15T09:00:00Z'', totalPending = 2\<rparr>,
      processedFile = Holds \<lparr>orders = [], pr_totalProcessed = 1,
                              pr_lastUpdated = ''2025-12-15T09:30:00Z''\<rparr>,
      failedFile = Absent\<rparr> =
     Inr \<lparr>st_pending = Finite 2, st_processed = Finite 1, st_failed = Finite 0,
           st_total = Finite 3, completion = Finite (2345624805922133 / 70368744177664)\<rparr>"
proof -
  let ?empty = "\<lparr>pendingFile = Holds \<lparr>pd_codes = [], pd_lastUpdated = ''2025-12-15T09:00:00Z'', totalPending = 0\<rparr>,
      processedFile = Absent, failedFile = Absent\<rparr>"
  let ?fs = "\<lparr>pendingFile = Holds \<lparr>pd_codes = [''1000-1-AB25'', ''2000-2-CD25''],
                            pd_lastUpdated = ''2025-12-15T09:00:00Z'', totalPending = 2\<rparr>,
      processedFile = Holds \<lparr>orders = [], pr_totalProcessed = 1,
                              pr_lastUpdated = ''2025-12-15T09:30:00Z''\<rparr>,
      failedFile = Absent\<rparr>"
  have none: "countOfPending ?empty = Some 0 \<and> countOfProcessed ?empty = Some 0
                \<and> countOfFailed ?empty = Some 0"
    by (simp add: countOfPending_def countOfProcessed_def countOfFailed_def)
  have some: "countOfPending ?fs = Some 2 \<and> countOfProcessed ?fs = Some 1
                \<and> countOfFailed ?fs = Some 0"
    by (simp add: countOfPending_def countOfProcessed_def countOfFailed_def)
  have small: "(0::nat) + 0 + 0 \<le> 2 ^ 53" "(2::nat) + 1 + 0 \<le> 2 ^ 53"
    by simp_all
  from getStats_zero_by_zero[of ?empty 0 0 0 "''2025-12-15T10:00:00Z''", THEN conjunct1, rule_format,
      OF none, THEN conjunct2, rule_format, OF small(1), THEN conjunct1]
  have first: "getStats ''2025-12-15T10:00:00Z'' ?empty =
     Inr \<lparr>st_pending = Finite 0, st_processed = Finite 0, st_failed = Finite 0,
           st_total = Finite 0, completion = NaN\<rparr>"
    by simp
  have third: "times_double (roundDouble (1 / 3)) (Finite 100) =
                 Finite (2345624805922133 / 70368744177664)"
    by code_simp
  from getStats_zero_by_zero[of ?fs 2 1 0 "''2025-12-15T10:00:00Z''", THEN conjunct1, rule_format,
      OF some, THEN conjunct2, rule_format, OF small(2), THEN conjunct1]
  have second: "getStats ''2025-12-15T10:00:00Z'' ?fs =
     Inr \<lparr>st_pending = Finite 2, st_processed = Finite 1, st_failed = Finite 0,
           st_total = Finite 3, completion = Finite (2345624805922133 / 70368744177664)\<rparr>"
    using third by (simp del: times_double.simps)
  from none first second show ?thesis
    by (simp only: simp_thms)
qed

end
